theory Spec2Isabelle
  imports Main
begin

section \<open>Field arithmetic (ethsnarks/field.py)\<close>

text \<open>
  Python integers are unbounded and are modelled as \<^typ>\<open>int\<close>; Python's \<open>%\<close> and
  \<open>//\<close> on integers are floor division, which is what \<open>mod\<close> and \<open>div\<close> are on
  \<^typ>\<open>int\<close>, except that Python raises \<open>ZeroDivisionError\<close> for a zero divisor.
  Every exception the code can raise is a value of \<open>error\<close>, and a function that can
  raise returns \<open>error + 'a\<close>.
\<close>

datatype error = RuntimeError | ValueError | AssertionError | ZeroDivisionError

definition ebind :: "error + 'a \<Rightarrow> ('a \<Rightarrow> error + 'b) \<Rightarrow> error + 'b" where
  "ebind r f = (case r of Inl e \<Rightarrow> Inl e | Inr v \<Rightarrow> f v)"

definition pymod :: "int \<Rightarrow> int \<Rightarrow> error + int" where
  "pymod a b = (if b = 0 then Inl ZeroDivisionError else Inr (a mod b))"

definition SNARK_SCALAR_FIELD :: int where
  "SNARK_SCALAR_FIELD =
     21888242871839275222246405745257275088548364400416034343698204186575808495617"

subsection \<open>powmod\<close>

text \<open>
  \<open>powmod(a, b, n)\<close> starts with \<open>k = int(math.log(b, 2))\<close>. \<open>math.log\<close> raises
  \<open>ValueError\<close> for every \<open>b \<le> 0\<close>; for \<open>b > 0\<close> it returns a floating point number,
  whose truncation is taken here as a parameter \<open>ilog2\<close> of the model (no claim depends
  on its value). The loop carries \<open>c\<close> and \<open>f\<close> and counts \<open>k\<close> down to \<open>0\<close>.
\<close>

function powmod_loop :: "int \<Rightarrow> int \<Rightarrow> int \<Rightarrow> int \<Rightarrow> int \<Rightarrow> int \<Rightarrow> error + int" where
  "powmod_loop a b n k c f =
     (if k \<ge> 0 then
        (if n = 0 then Inl ZeroDivisionError
         else if and b (push_bit (nat k) 1) \<noteq> 0
           then powmod_loop a b n (k - 1) (c * 2 + 1) ((((f * f) mod n) * a) mod n)
           else powmod_loop a b n (k - 1) (c * 2) ((f * f) mod n))
      else Inr f)"
  by pat_completeness auto
termination
  by (relation "measure (\<lambda>(a, b, n, k, c, f). nat (k + 1))") auto

definition powmod :: "(int \<Rightarrow> int) \<Rightarrow> int \<Rightarrow> int \<Rightarrow> int \<Rightarrow> error + int" where
  "powmod ilog2 a b n =
     (if b \<le> 0 then Inl ValueError else powmod_loop a b n (ilog2 b) 0 1)"

subsection \<open>inv: the extended Euclidean algorithm\<close>

function inv_loop :: "int \<Rightarrow> int \<Rightarrow> int \<Rightarrow> int \<Rightarrow> int" where
  "inv_loop lm low hm high =
     (if low > 1 then
        (let r = high div low;
             nm = hm - lm * r;
             new = high - low * r
         in inv_loop nm new lm low)
      else lm)"
  by pat_completeness auto
termination
proof (relation "measure (\<lambda>(lm, low, hm, high). nat low)")
  show "wf (measure (\<lambda>(lm, low, hm, high). nat low))" by simp
next
  fix lm low hm high r nm new :: int
  assume low: "1 < low" and r: "r = high div low" and new: "new = high - low * r"
  have "new = high mod low"
    using r new by (simp add: minus_mult_div_eq_mod)
  then have "new < low"
    using low by simp
  then show "((nm, new, lm, low), (lm, low, hm, high))
      \<in> measure (\<lambda>(lm, low, hm, high). nat low)"
    using low by simp
qed

definition inv_mod :: "int \<Rightarrow> int \<Rightarrow> error + int" where
  "inv_mod a n =
     (if a = 0 then Inr 0
      else if n = 0 then Inl ZeroDivisionError
      else Inr (inv_loop 1 (a mod n) 0 n mod n))"

subsection \<open>The class FQ\<close>

text \<open>
  An \<open>FQ\<close> object has the attributes \<open>n\<close> (the value) and \<open>m\<close> (the modulus). An
  operand of an arithmetic method is another \<open>FQ\<close> or a plain integer. The class-level
  call counters (\<open>_count\<close>) do not influence any returned value and are left out.
\<close>

record FQ =
  FQ_n :: int
  FQ_m :: int

datatype operand = OFQ FQ | OInt int

definition FQ_init :: "operand \<Rightarrow> int \<Rightarrow> error + FQ" where
  "FQ_init v field_modulus =
     (case v of
        OFQ f \<Rightarrow> Inr \<lparr>FQ_n = FQ_n f, FQ_m = field_modulus\<rparr>
      | OInt i \<Rightarrow> ebind (pymod i field_modulus)
                   (\<lambda>r. Inr \<lparr>FQ_n = r, FQ_m = field_modulus\<rparr>))"

definition other_n :: "FQ \<Rightarrow> operand \<Rightarrow> error + int" where
  "other_n self other =
     (case other of
        OFQ f \<Rightarrow> if FQ_m f \<noteq> FQ_m self then Inl RuntimeError else Inr (FQ_n f)
      | OInt i \<Rightarrow> Inr i)"

definition FQ_add :: "FQ \<Rightarrow> operand \<Rightarrow> error + FQ" where
  "FQ_add self other =
     ebind (other_n self other) (\<lambda>on.
     ebind (pymod (FQ_n self + on) (FQ_m self)) (\<lambda>v.
     FQ_init (OInt v) (FQ_m self)))"

definition FQ_mul :: "FQ \<Rightarrow> operand \<Rightarrow> error + FQ" where
  "FQ_mul self other =
     ebind (other_n self other) (\<lambda>on.
     ebind (pymod (FQ_n self * on) (FQ_m self)) (\<lambda>v.
     FQ_init (OInt v) (FQ_m self)))"

definition FQ_rmul :: "FQ \<Rightarrow> operand \<Rightarrow> error + FQ" where
  "FQ_rmul self other = FQ_mul self other"

definition FQ_radd :: "FQ \<Rightarrow> operand \<Rightarrow> error + FQ" where
  "FQ_radd self other = FQ_add self other"

definition FQ_rsub :: "FQ \<Rightarrow> operand \<Rightarrow> error + FQ" where
  "FQ_rsub self other =
     ebind (other_n self other) (\<lambda>on.
     ebind (pymod (on - FQ_n self) (FQ_m self)) (\<lambda>v.
     FQ_init (OInt v) (FQ_m self)))"

definition FQ_sub :: "FQ \<Rightarrow> operand \<Rightarrow> error + FQ" where
  "FQ_sub self other =
     ebind (other_n self other) (\<lambda>on.
     ebind (pymod (FQ_n self - on) (FQ_m self)) (\<lambda>v.
     FQ_init (OInt v) (FQ_m self)))"

definition FQ_inv :: "FQ \<Rightarrow> error + FQ" where
  "FQ_inv self =
     ebind (inv_mod (FQ_n self) (FQ_m self)) (\<lambda>v.
     FQ_init (OInt v) (FQ_m self))"

definition FQ_exp :: "(int \<Rightarrow> int) \<Rightarrow> FQ \<Rightarrow> operand \<Rightarrow> error + FQ" where
  "FQ_exp ilog2 self e =
     ebind (other_n self e) (\<lambda>e'.
     ebind (powmod ilog2 (FQ_n self) e' (FQ_m self)) (\<lambda>v.
     FQ_init (OInt v) (FQ_m self)))"

definition FQ_div :: "FQ \<Rightarrow> operand \<Rightarrow> error + FQ" where
  "FQ_div self other =
     ebind (other_n self other) (\<lambda>on.
     ebind (inv_mod on (FQ_m self)) (\<lambda>i.
     ebind (pymod (FQ_n self * i) (FQ_m self)) (\<lambda>v.
     FQ_init (OInt v) (FQ_m self))))"

definition FQ_rdiv :: "FQ \<Rightarrow> operand \<Rightarrow> error + FQ" where
  "FQ_rdiv self other =
     ebind (other_n self other) (\<lambda>on.
     ebind (inv_mod (FQ_n self) (FQ_m self)) (\<lambda>i.
     ebind (pymod (i * on) (FQ_m self)) (\<lambda>v.
     FQ_init (OInt v) (FQ_m self))))"

text \<open>
  \<open>__eq__\<close> first tests \<open>other == 0.\<close>; for an \<open>FQ\<close> operand that test is itself
  \<open>__eq__\<close> against the number zero and is true exactly when the operand's value is
  \<open>0\<close>, and then the operand is replaced by the integer \<open>0\<close>.
\<close>

definition FQ_eq :: "FQ \<Rightarrow> operand \<Rightarrow> error + bool" where
  "FQ_eq self other =
     (let other' = (case other of
                      OFQ f \<Rightarrow> if FQ_n f = 0 then OInt 0 else OFQ f
                    | OInt i \<Rightarrow> if i = 0 then OInt 0 else OInt i)
      in ebind (other_n self other') (\<lambda>on. Inr (FQ_n self = on)))"

definition FQ_ne :: "FQ \<Rightarrow> operand \<Rightarrow> error + bool" where
  "FQ_ne self other = ebind (FQ_eq self other) (\<lambda>b. Inr (\<not> b))"

definition FQ_neg :: "FQ \<Rightarrow> error + FQ" where
  "FQ_neg self = FQ_init (OInt (- FQ_n self)) (FQ_m self)"

definition FQ_one :: "int \<Rightarrow> error + FQ" where
  "FQ_one modulus = FQ_init (OInt 1) modulus"

definition FQ_zero :: "int \<Rightarrow> error + FQ" where
  "FQ_zero modulus = FQ_init (OInt 0) modulus"


section \<open>The JubJub curve (ethsnarks/jubjub.py)\<close>

definition JUBJUB_Q :: int where
  "JUBJUB_Q = SNARK_SCALAR_FIELD"

definition JUBJUB_ORDER :: int where
  "JUBJUB_ORDER =
     21888242871839275222246405745257275088614511777268538073601725287587578984328"

definition JUBJUB_C :: int where
  "JUBJUB_C = 8"

definition JUBJUB_L :: int where
  "JUBJUB_L = JUBJUB_ORDER div JUBJUB_C"

definition JUBJUB_A :: int where
  "JUBJUB_A = 168700"

definition JUBJUB_D :: int where
  "JUBJUB_D = 168696"

text \<open>
  \<open>FQ(i)\<close> with the default modulus, as in \<open>FQ(0)\<close>, \<open>FQ(1)\<close> and \<open>FQ.one()\<close>: the
  default modulus is not zero, so that this constructor call cannot raise (lemma
  \<open>FQ_init_default\<close> below).
\<close>

definition FQ_default :: "int \<Rightarrow> FQ" where
  "FQ_default i = \<lparr>FQ_n = i mod SNARK_SCALAR_FIELD, FQ_m = SNARK_SCALAR_FIELD\<rparr>"

text \<open>
  The three point classes are named tuples of field elements. \<open>==\<close> on them is tuple
  equality: the components are compared from left to right with \<open>FQ.__eq__\<close>, stopping
  at the first pair that differs; an exception of a comparison propagates.
\<close>

datatype Point = Point (Point_x: FQ) (Point_y: FQ)

datatype ProjPoint = ProjPoint (ProjPoint_x: FQ) (ProjPoint_y: FQ) (ProjPoint_z: FQ)

datatype EtecPoint =
  EtecPoint (EtecPoint_x: FQ) (EtecPoint_y: FQ) (EtecPoint_t: FQ) (EtecPoint_z: FQ)

fun tuple_eq :: "FQ list \<Rightarrow> FQ list \<Rightarrow> error + bool" where
  "tuple_eq [] [] = Inr True"
| "tuple_eq (a # as) (b # bs) =
     ebind (FQ_eq a (OFQ b)) (\<lambda>r. if r then tuple_eq as bs else Inr False)"
| "tuple_eq _ _ = Inr False"

definition Point_eq :: "Point \<Rightarrow> Point \<Rightarrow> error + bool" where
  "Point_eq p q = tuple_eq [Point_x p, Point_y p] [Point_x q, Point_y q]"

definition ProjPoint_eq :: "ProjPoint \<Rightarrow> ProjPoint \<Rightarrow> error + bool" where
  "ProjPoint_eq p q =
     tuple_eq [ProjPoint_x p, ProjPoint_y p, ProjPoint_z p]
              [ProjPoint_x q, ProjPoint_y q, ProjPoint_z q]"

definition EtecPoint_eq :: "EtecPoint \<Rightarrow> EtecPoint \<Rightarrow> error + bool" where
  "EtecPoint_eq p q =
     tuple_eq [EtecPoint_x p, EtecPoint_y p, EtecPoint_t p, EtecPoint_z p]
              [EtecPoint_x q, EtecPoint_y q, EtecPoint_t q, EtecPoint_z q]"

subsection \<open>Point (affine coordinates)\<close>

definition Point_infinity :: Point where
  "Point_infinity = Point (FQ_default 0) (FQ_default 1)"

definition Point_as_point :: "Point \<Rightarrow> error + Point" where
  "Point_as_point self = Inr self"

definition Point_as_proj :: "Point \<Rightarrow> error + ProjPoint" where
  "Point_as_proj self = Inr (ProjPoint (Point_x self) (Point_y self) (FQ_default 1))"

definition Point_as_etec :: "Point \<Rightarrow> error + EtecPoint" where
  "Point_as_etec self =
     ebind (FQ_mul (Point_x self) (OFQ (Point_y self))) (\<lambda>xy.
     Inr (EtecPoint (Point_x self) (Point_y self) xy (FQ_default 1)))"

definition Point_neg :: "Point \<Rightarrow> error + Point" where
  "Point_neg self = ebind (FQ_neg (Point_x self)) (\<lambda>nx. Inr (Point nx (Point_y self)))"

definition Point_valid :: "Point \<Rightarrow> error + bool" where
  "Point_valid self =
     ebind (FQ_mul (Point_x self) (OFQ (Point_x self))) (\<lambda>xsq.
     ebind (FQ_mul (Point_y self) (OFQ (Point_y self))) (\<lambda>ysq.
     ebind (FQ_rmul xsq (OInt JUBJUB_A)) (\<lambda>axsq.
     ebind (FQ_add axsq (OFQ ysq)) (\<lambda>lhs.
     ebind (FQ_rmul xsq (OInt JUBJUB_D)) (\<lambda>dxsq.
     ebind (FQ_mul dxsq (OFQ ysq)) (\<lambda>dxy.
     ebind (FQ_radd dxy (OInt 1)) (\<lambda>rhs.
     FQ_eq lhs (OFQ rhs))))))))"

definition Point_add :: "Point \<Rightarrow> Point \<Rightarrow> error + Point" where
  "Point_add self other =
     ebind (FQ_eq (Point_x self) (OInt 0)) (\<lambda>x0.
     ebind (if x0 then FQ_eq (Point_y self) (OInt 0) else Inr False) (\<lambda>zero.
     if zero then Inr other
     else
       (let u1 = Point_x self; v1 = Point_y self;
            u2 = Point_x other; v2 = Point_y other
        in
        ebind (FQ_mul u1 (OFQ v2)) (\<lambda>u1v2.
        ebind (FQ_mul v1 (OFQ u2)) (\<lambda>v1u2.
        ebind (FQ_add u1v2 (OFQ v1u2)) (\<lambda>unum.
        ebind (FQ_one SNARK_SCALAR_FIELD) (\<lambda>one.
        ebind (FQ_rmul u1 (OInt JUBJUB_D)) (\<lambda>d1.
        ebind (FQ_mul d1 (OFQ u2)) (\<lambda>d2.
        ebind (FQ_mul d2 (OFQ v1)) (\<lambda>d3.
        ebind (FQ_mul d3 (OFQ v2)) (\<lambda>d4.
        ebind (FQ_add one (OFQ d4)) (\<lambda>uden.
        ebind (FQ_div unum (OFQ uden)) (\<lambda>u3.
        ebind (FQ_mul v1 (OFQ v2)) (\<lambda>v1v2.
        ebind (FQ_rmul u1 (OInt JUBJUB_A)) (\<lambda>a1.
        ebind (FQ_mul a1 (OFQ u2)) (\<lambda>a2.
        ebind (FQ_sub v1v2 (OFQ a2)) (\<lambda>vnum.
        ebind (FQ_one SNARK_SCALAR_FIELD) (\<lambda>one'.
        ebind (FQ_rmul u1 (OInt JUBJUB_D)) (\<lambda>e1.
        ebind (FQ_mul e1 (OFQ u2)) (\<lambda>e2.
        ebind (FQ_mul e2 (OFQ v1)) (\<lambda>e3.
        ebind (FQ_mul e3 (OFQ v2)) (\<lambda>e4.
        ebind (FQ_sub one' (OFQ e4)) (\<lambda>vden.
        ebind (FQ_div vnum (OFQ vden)) (\<lambda>v3.
        Inr (Point u3 v3)))))))))))))))))))))))))"

text \<open>\<open>double\<close> is inherited from \<open>AbstractCurveOps\<close>: \<open>self.add(self)\<close>.\<close>

definition Point_double :: "Point \<Rightarrow> error + Point" where
  "Point_double self = Point_add self self"

subsection \<open>ProjPoint (projective coordinates)\<close>

definition ProjPoint_infinity :: ProjPoint where
  "ProjPoint_infinity = ProjPoint (FQ_default 0) (FQ_default 1) (FQ_default 1)"

definition ProjPoint_rescale :: "ProjPoint \<Rightarrow> error + ProjPoint" where
  "ProjPoint_rescale self =
     ebind (FQ_div (ProjPoint_x self) (OFQ (ProjPoint_z self))) (\<lambda>x'.
     ebind (FQ_div (ProjPoint_y self) (OFQ (ProjPoint_z self))) (\<lambda>y'.
     Inr (ProjPoint x' y' (FQ_default 1))))"

definition ProjPoint_as_proj :: "ProjPoint \<Rightarrow> error + ProjPoint" where
  "ProjPoint_as_proj self = Inr self"

definition ProjPoint_as_etec :: "ProjPoint \<Rightarrow> error + EtecPoint" where
  "ProjPoint_as_etec self =
     ebind (FQ_mul (ProjPoint_x self) (OFQ (ProjPoint_y self))) (\<lambda>xy.
     Inr (EtecPoint (ProjPoint_x self) (ProjPoint_y self) xy (ProjPoint_z self)))"

definition ProjPoint_as_point :: "ProjPoint \<Rightarrow> error + Point" where
  "ProjPoint_as_point self =
     ebind (FQ_ne (ProjPoint_z self) (OInt 0)) (\<lambda>ok.
     if \<not> ok then Inl AssertionError
     else
       ebind (FQ_inv (ProjPoint_z self)) (\<lambda>inv_z.
       ebind (FQ_mul (ProjPoint_x self) (OFQ inv_z)) (\<lambda>x'.
       ebind (FQ_mul (ProjPoint_y self) (OFQ inv_z)) (\<lambda>y'.
       Inr (Point x' y')))))"

definition ProjPoint_valid :: "ProjPoint \<Rightarrow> error + bool" where
  "ProjPoint_valid self = ebind (ProjPoint_as_point self) Point_valid"

definition ProjPoint_neg :: "ProjPoint \<Rightarrow> error + ProjPoint" where
  "ProjPoint_neg self =
     ebind (FQ_neg (ProjPoint_x self)) (\<lambda>nx.
     Inr (ProjPoint nx (ProjPoint_y self) (ProjPoint_z self)))"

definition ProjPoint_add :: "ProjPoint \<Rightarrow> ProjPoint \<Rightarrow> error + ProjPoint" where
  "ProjPoint_add self other =
     ebind (ProjPoint_eq self ProjPoint_infinity) (\<lambda>is_inf.
     if is_inf then Inr other
     else
       ebind (FQ_mul (ProjPoint_z self) (OFQ (ProjPoint_z other))) (\<lambda>a.
       ebind (FQ_mul a (OFQ a)) (\<lambda>b.
       ebind (FQ_mul (ProjPoint_x self) (OFQ (ProjPoint_x other))) (\<lambda>c.
       ebind (FQ_mul (ProjPoint_y self) (OFQ (ProjPoint_y other))) (\<lambda>d.
       ebind (FQ_mul c (OFQ d)) (\<lambda>t0.
       ebind (FQ_rmul t0 (OInt JUBJUB_D)) (\<lambda>e.
       ebind (FQ_sub b (OFQ e)) (\<lambda>f.
       ebind (FQ_add b (OFQ e)) (\<lambda>g.
       ebind (FQ_add (ProjPoint_x self) (OFQ (ProjPoint_y self))) (\<lambda>t1.
       ebind (FQ_add (ProjPoint_x other) (OFQ (ProjPoint_y other))) (\<lambda>t2.
       ebind (FQ_mul t1 (OFQ t2)) (\<lambda>t3.
       ebind (FQ_sub t3 (OFQ c)) (\<lambda>t4.
       ebind (FQ_sub t4 (OFQ d)) (\<lambda>t5.
       ebind (FQ_mul f (OFQ t5)) (\<lambda>t6.
       ebind (FQ_mul a (OFQ t6)) (\<lambda>x3.
       ebind (FQ_rmul c (OInt JUBJUB_A)) (\<lambda>t7.
       ebind (FQ_sub d (OFQ t7)) (\<lambda>t8.
       ebind (FQ_mul g (OFQ t8)) (\<lambda>t9.
       ebind (FQ_mul a (OFQ t9)) (\<lambda>y3.
       ebind (FQ_mul f (OFQ g)) (\<lambda>z3.
       Inr (ProjPoint x3 y3 z3))))))))))))))))))))))"

definition ProjPoint_double :: "ProjPoint \<Rightarrow> error + ProjPoint" where
  "ProjPoint_double self =
     ebind (ProjPoint_eq self ProjPoint_infinity) (\<lambda>is_inf.
     if is_inf then Inr ProjPoint_infinity
     else
       ebind (FQ_add (ProjPoint_x self) (OFQ (ProjPoint_y self))) (\<lambda>t0.
       ebind (FQ_mul t0 (OFQ t0)) (\<lambda>b.
       ebind (FQ_mul (ProjPoint_x self) (OFQ (ProjPoint_x self))) (\<lambda>c.
       ebind (FQ_mul (ProjPoint_y self) (OFQ (ProjPoint_y self))) (\<lambda>d.
       ebind (FQ_rmul c (OInt JUBJUB_A)) (\<lambda>e.
       ebind (FQ_add e (OFQ d)) (\<lambda>f.
       ebind (FQ_mul (ProjPoint_z self) (OFQ (ProjPoint_z self))) (\<lambda>h.
       ebind (FQ_rmul h (OInt 2)) (\<lambda>t1.
       ebind (FQ_sub f (OFQ t1)) (\<lambda>j.
       ebind (FQ_sub b (OFQ c)) (\<lambda>t2.
       ebind (FQ_sub t2 (OFQ d)) (\<lambda>t3.
       ebind (FQ_mul t3 (OFQ j)) (\<lambda>x3.
       ebind (FQ_sub e (OFQ d)) (\<lambda>t4.
       ebind (FQ_mul f (OFQ t4)) (\<lambda>y3.
       ebind (FQ_mul f (OFQ j)) (\<lambda>z3.
       Inr (ProjPoint x3 y3 z3)))))))))))))))))"

subsection \<open>EtecPoint (extended coordinates)\<close>

definition EtecPoint_infinity :: EtecPoint where
  "EtecPoint_infinity =
     EtecPoint (FQ_default 0) (FQ_default 1) (FQ_default 0) (FQ_default 1)"

definition EtecPoint_as_etec :: "EtecPoint \<Rightarrow> error + EtecPoint" where
  "EtecPoint_as_etec self = Inr self"

definition EtecPoint_as_point :: "EtecPoint \<Rightarrow> error + Point" where
  "EtecPoint_as_point self =
     ebind (FQ_inv (EtecPoint_z self)) (\<lambda>inv_z.
     ebind (FQ_mul (EtecPoint_x self) (OFQ inv_z)) (\<lambda>x'.
     ebind (FQ_mul (EtecPoint_y self) (OFQ inv_z)) (\<lambda>y'.
     Inr (Point x' y'))))"

definition EtecPoint_as_proj :: "EtecPoint \<Rightarrow> error + ProjPoint" where
  "EtecPoint_as_proj self =
     Inr (ProjPoint (EtecPoint_x self) (EtecPoint_y self) (EtecPoint_z self))"

definition EtecPoint_neg :: "EtecPoint \<Rightarrow> error + EtecPoint" where
  "EtecPoint_neg self =
     ebind (FQ_neg (EtecPoint_x self)) (\<lambda>nx.
     ebind (FQ_neg (EtecPoint_t self)) (\<lambda>nt.
     Inr (EtecPoint nx (EtecPoint_y self) nt (EtecPoint_z self))))"

definition EtecPoint_valid :: "EtecPoint \<Rightarrow> error + bool" where
  "EtecPoint_valid self = ebind (EtecPoint_as_point self) Point_valid"

definition EtecPoint_double :: "EtecPoint \<Rightarrow> error + EtecPoint" where
  "EtecPoint_double self =
     ebind (EtecPoint_eq self EtecPoint_infinity) (\<lambda>is_inf.
     if is_inf then Inr EtecPoint_infinity
     else
       ebind (FQ_mul (EtecPoint_x self) (OFQ (EtecPoint_x self))) (\<lambda>a.
       ebind (FQ_mul (EtecPoint_y self) (OFQ (EtecPoint_y self))) (\<lambda>b.
       ebind (FQ_mul (EtecPoint_z self) (OFQ (EtecPoint_z self))) (\<lambda>t0.
       ebind (FQ_mul t0 (OInt 2)) (\<lambda>c.
       ebind (FQ_rmul a (OInt JUBJUB_A)) (\<lambda>d.
       ebind (FQ_add (EtecPoint_x self) (OFQ (EtecPoint_y self))) (\<lambda>t1.
       ebind (FQ_mul t1 (OFQ t1)) (\<lambda>t2.
       ebind (FQ_sub t2 (OFQ a)) (\<lambda>t3.
       ebind (FQ_sub t3 (OFQ b)) (\<lambda>e.
       ebind (FQ_add d (OFQ b)) (\<lambda>g.
       ebind (FQ_sub g (OFQ c)) (\<lambda>f.
       ebind (FQ_sub d (OFQ b)) (\<lambda>h.
       ebind (FQ_mul e (OFQ f)) (\<lambda>x3.
       ebind (FQ_mul g (OFQ h)) (\<lambda>y3.
       ebind (FQ_mul e (OFQ h)) (\<lambda>t3'.
       ebind (FQ_mul f (OFQ g)) (\<lambda>z3.
       Inr (EtecPoint x3 y3 t3' z3))))))))))))))))))"

definition EtecPoint_add :: "EtecPoint \<Rightarrow> EtecPoint \<Rightarrow> error + EtecPoint" where
  "EtecPoint_add self other =
     ebind (EtecPoint_eq self EtecPoint_infinity) (\<lambda>is_inf.
     if is_inf then Inr other
     else
       ebind (FQ_ne (EtecPoint_z self) (OInt 0)) (\<lambda>ok1.
       if \<not> ok1 then Inl AssertionError
       else
       ebind (FQ_ne (EtecPoint_z other) (OInt 0)) (\<lambda>ok2.
       if \<not> ok2 then Inl AssertionError
       else
       ebind (FQ_mul (EtecPoint_x self) (OFQ (EtecPoint_x other))) (\<lambda>x1x2.
       ebind (FQ_mul (EtecPoint_y self) (OFQ (EtecPoint_y other))) (\<lambda>y1y2.
       ebind (FQ_rmul (EtecPoint_t self) (OInt JUBJUB_D)) (\<lambda>dt1.
       ebind (FQ_mul dt1 (OFQ (EtecPoint_t other))) (\<lambda>dt1t2.
       ebind (FQ_mul (EtecPoint_z self) (OFQ (EtecPoint_z other))) (\<lambda>z1z2.
       ebind (FQ_add (EtecPoint_x self) (OFQ (EtecPoint_y self))) (\<lambda>s1.
       ebind (FQ_add (EtecPoint_x other) (OFQ (EtecPoint_y other))) (\<lambda>s2.
       ebind (FQ_mul s1 (OFQ s2)) (\<lambda>s12.
       ebind (FQ_sub s12 (OFQ x1x2)) (\<lambda>e0.
       ebind (FQ_sub e0 (OFQ y1y2)) (\<lambda>e.
       ebind (FQ_sub z1z2 (OFQ dt1t2)) (\<lambda>f.
       ebind (FQ_add z1z2 (OFQ dt1t2)) (\<lambda>g.
       ebind (FQ_rmul x1x2 (OInt JUBJUB_A)) (\<lambda>ax1x2.
       ebind (FQ_sub y1y2 (OFQ ax1x2)) (\<lambda>h.
       ebind (FQ_mul e (OFQ f)) (\<lambda>x3.
       ebind (FQ_mul g (OFQ h)) (\<lambda>y3.
       ebind (FQ_mul e (OFQ h)) (\<lambda>t3.
       ebind (FQ_mul f (OFQ g)) (\<lambda>z3.
       Inr (EtecPoint x3 y3 t3 z3))))))))))))))))))))))"

subsection \<open>AbstractCurveOps.mult\<close>

text \<open>
  \<open>mult\<close> is written once, in the mixin \<open>AbstractCurveOps\<close>, and calls the \<open>add\<close>,
  \<open>double\<close> and \<open>infinity\<close> of the class of \<open>self\<close>; these are parameters of the
  model. The loop \<open>while scalar != 0\<close> need not end: the model returns \<open>None\<close> when it
  runs forever, \<open>Some (Inl e)\<close> when \<open>add\<close> or \<open>double\<close> raises \<open>e\<close>, and
  \<open>Some (Inr a)\<close> when it returns the point \<open>a\<close>. The counter \<open>i\<close> of the source is
  never read and is left out.
\<close>

partial_function (option) mult_loop ::
  "('p \<Rightarrow> 'p \<Rightarrow> error + 'p) \<Rightarrow> ('p \<Rightarrow> error + 'p) \<Rightarrow> 'p \<Rightarrow> 'p \<Rightarrow> int \<Rightarrow> (error + 'p) option"
where
  "mult_loop add double p a scalar =
     (if scalar \<noteq> 0 then
        (case (if and scalar 1 \<noteq> 0 then add a p else Inr a) of
           Inl e \<Rightarrow> Some (Inl e)
         | Inr a' \<Rightarrow>
             (case double p of
                Inl e \<Rightarrow> Some (Inl e)
              | Inr p' \<Rightarrow> mult_loop add double p' a' (scalar div 2)))
      else Some (Inr a))"

definition mult ::
  "('p \<Rightarrow> 'p \<Rightarrow> error + 'p) \<Rightarrow> ('p \<Rightarrow> error + 'p) \<Rightarrow> 'p \<Rightarrow> 'p \<Rightarrow> operand
     \<Rightarrow> (error + 'p) option"
where
  "mult add double infinity self scalar =
     (case scalar of
        OFQ s \<Rightarrow>
          if FQ_m s \<notin> set [SNARK_SCALAR_FIELD, JUBJUB_ORDER, JUBJUB_L]
          then Some (Inl ValueError)
          else mult_loop add double self infinity (FQ_n s)
      | OInt i \<Rightarrow> mult_loop add double self infinity i)"

definition Point_mult :: "Point \<Rightarrow> operand \<Rightarrow> (error + Point) option" where
  "Point_mult = mult Point_add Point_double Point_infinity"

definition ProjPoint_mult :: "ProjPoint \<Rightarrow> operand \<Rightarrow> (error + ProjPoint) option" where
  "ProjPoint_mult = mult ProjPoint_add ProjPoint_double ProjPoint_infinity"

definition EtecPoint_mult :: "EtecPoint \<Rightarrow> operand \<Rightarrow> (error + EtecPoint) option" where
  "EtecPoint_mult = mult EtecPoint_add EtecPoint_double EtecPoint_infinity"


section \<open>Predicates and test vectors used in the statements\<close>

text \<open>
  The invariant of the data model: the stored value lies in \<open>[0, modulus)\<close>.
\<close>

definition FQ_valid :: "FQ \<Rightarrow> bool" where
  "FQ_valid a \<longleftrightarrow> 0 \<le> FQ_n a \<and> FQ_n a < FQ_m a"

text \<open>
  An operand that \<open>_other_n\<close> accepts for \<open>self\<close>: a plain integer, or a field element
  of the same modulus.
\<close>

definition compatible :: "FQ \<Rightarrow> operand \<Rightarrow> bool" where
  "compatible self other =
     (case other of OFQ f \<Rightarrow> FQ_m f = FQ_m self | OInt i \<Rightarrow> True)"

text \<open>
  \<open>returns_in_range m r\<close>: the call returned (did not raise), and what it returned is a
  field element of modulus \<open>m\<close> whose value lies in \<open>[0, m)\<close>.
\<close>

definition returns_in_range :: "int \<Rightarrow> error + FQ \<Rightarrow> bool" where
  "returns_in_range m r =
     (case r of Inl e \<Rightarrow> False | Inr v \<Rightarrow> FQ_m v = m \<and> 0 \<le> FQ_n v \<and> FQ_n v < m)"

text \<open>
  The value that \<open>inv(a, SNARK_SCALAR_FIELD)\<close> returns (it never raises, the modulus
  being non-zero).
\<close>

definition inv_Q :: "int \<Rightarrow> int" where
  "inv_Q a = (case inv_mod a SNARK_SCALAR_FIELD of Inl e \<Rightarrow> 0 | Inr i \<Rightarrow> i)"

text \<open>The points \<open>_point_a\<close> and \<open>_point_a_double\<close> of test\_jubjub.py.\<close>

definition point_a :: Point where
  "point_a =
     Point (FQ_default 0x274dbce8d15179969bc0d49fa725bddf9de555e0ba6a693c6adb52fc9ee7a82c)
           (FQ_default 0x5ce98c61b05f47fe2eae9a542bd99f6b2e78246231640b54595febfd51eb853)"

definition point_a_double :: Point where
  "point_a_double =
     Point (FQ_default
              6890855772600357754907169075114257697580319025794532037257385534741338397365)
           (FQ_default
              4338620300185947561074059802482547481416142213883829469920100239455078257889)"

text \<open>
  A prime modulus: greater than one, with no divisor strictly between one and itself.
\<close>

definition prime_modulus :: "int \<Rightarrow> bool" where
  "prime_modulus p \<longleftrightarrow> 1 < p \<and> (\<forall>d. 1 < d \<and> d < p \<longrightarrow> \<not> d dvd p)"

text \<open>Points whose coordinates are elements of the curve's base field.\<close>

definition Point_over_Q :: "Point \<Rightarrow> bool" where
  "Point_over_Q p \<longleftrightarrow> FQ_m (Point_x p) = JUBJUB_Q \<and> FQ_m (Point_y p) = JUBJUB_Q"

definition ProjPoint_over_Q :: "ProjPoint \<Rightarrow> bool" where
  "ProjPoint_over_Q p \<longleftrightarrow>
     FQ_m (ProjPoint_x p) = JUBJUB_Q \<and> FQ_m (ProjPoint_y p) = JUBJUB_Q \<and>
     FQ_m (ProjPoint_z p) = JUBJUB_Q"

definition EtecPoint_over_Q :: "EtecPoint \<Rightarrow> bool" where
  "EtecPoint_over_Q p \<longleftrightarrow>
     FQ_m (EtecPoint_x p) = JUBJUB_Q \<and> FQ_m (EtecPoint_y p) = JUBJUB_Q \<and>
     FQ_m (EtecPoint_t p) = JUBJUB_Q \<and> FQ_m (EtecPoint_z p) = JUBJUB_Q"

text \<open>
  Well-formed points: every coordinate is an element of the base field, its value in
  range.
\<close>

definition in_base_field :: "FQ \<Rightarrow> bool" where
  "in_base_field a \<longleftrightarrow> FQ_m a = JUBJUB_Q \<and> FQ_valid a"

definition Point_wf :: "Point \<Rightarrow> bool" where
  "Point_wf p \<longleftrightarrow> in_base_field (Point_x p) \<and> in_base_field (Point_y p)"

definition ProjPoint_wf :: "ProjPoint \<Rightarrow> bool" where
  "ProjPoint_wf p \<longleftrightarrow>
     in_base_field (ProjPoint_x p) \<and> in_base_field (ProjPoint_y p) \<and>
     in_base_field (ProjPoint_z p)"

definition EtecPoint_wf :: "EtecPoint \<Rightarrow> bool" where
  "EtecPoint_wf p \<longleftrightarrow>
     in_base_field (EtecPoint_x p) \<and> in_base_field (EtecPoint_y p) \<and>
     in_base_field (EtecPoint_t p) \<and> in_base_field (EtecPoint_z p)"

text \<open>
  Multiplying every coordinate by the same field element: for a non-zero factor the
  result stands for the same point of the curve, in another scaling.
\<close>

definition ProjPoint_scale :: "FQ \<Rightarrow> ProjPoint \<Rightarrow> error + ProjPoint" where
  "ProjPoint_scale c p =
     ebind (FQ_mul c (OFQ (ProjPoint_x p))) (\<lambda>x'.
     ebind (FQ_mul c (OFQ (ProjPoint_y p))) (\<lambda>y'.
     ebind (FQ_mul c (OFQ (ProjPoint_z p))) (\<lambda>z'.
     Inr (ProjPoint x' y' z'))))"

definition EtecPoint_scale :: "FQ \<Rightarrow> EtecPoint \<Rightarrow> error + EtecPoint" where
  "EtecPoint_scale c p =
     ebind (FQ_mul c (OFQ (EtecPoint_x p))) (\<lambda>x'.
     ebind (FQ_mul c (OFQ (EtecPoint_y p))) (\<lambda>y'.
     ebind (FQ_mul c (OFQ (EtecPoint_t p))) (\<lambda>t'.
     ebind (FQ_mul c (OFQ (EtecPoint_z p))) (\<lambda>z'.
     Inr (EtecPoint x' y' t' z')))))"

text \<open>A field element that is zero or has a multiplicative inverse.\<close>

definition zero_or_unit :: "FQ \<Rightarrow> bool" where
  "zero_or_unit a \<longleftrightarrow> FQ_n a = 0 \<or> coprime (FQ_n a) (FQ_m a)"

text \<open>The curve equation \<open>A x\<^sup>2 + y\<^sup>2 = 1 + D x\<^sup>2 y\<^sup>2\<close> modulo the field prime.\<close>

definition on_curve :: "int \<Rightarrow> int \<Rightarrow> bool" where
  "on_curve x y \<longleftrightarrow>
     SNARK_SCALAR_FIELD dvd
       (JUBJUB_A * (x * x) + y * y - (1 + JUBJUB_D * (x * x) * (y * y)))"

declare inv_loop.simps [simp del] powmod_loop.simps [simp del]

section \<open>Basic facts\<close>

lemma ebind_Inr [simp]: "ebind (Inr v) f = f v"
  by (simp add: ebind_def)

lemma ebind_Inl [simp]: "ebind (Inl e) f = Inl e"
  by (simp add: ebind_def)

lemma SNARK_pos: "0 < SNARK_SCALAR_FIELD"
  by (simp add: SNARK_SCALAR_FIELD_def)

lemma SNARK_gt1: "1 < SNARK_SCALAR_FIELD"
  by (simp add: SNARK_SCALAR_FIELD_def)

lemma SNARK_nonzero [simp]: "SNARK_SCALAR_FIELD \<noteq> 0"
  using SNARK_pos by simp

subsection \<open>The extended Euclidean algorithm computes inverses\<close>

lemma inv_loop_correct:
  "1 < high \<Longrightarrow> 0 \<le> low \<Longrightarrow> low < high \<Longrightarrow> coprime low high \<Longrightarrow>
   (lm * a) mod n = low mod n \<Longrightarrow> (hm * a) mod n = high mod n \<Longrightarrow>
   (inv_loop lm low hm high * a) mod n = 1 mod n"
proof (induction lm low hm high rule: inv_loop.induct)
  case (1 lm low hm high)
  show ?case
  proof (cases "1 < low")
    case True
    define r where "r = high div low"
    define nm where "nm = hm - lm * r"
    define new where "new = high - low * r"
    have new_mod: "new = high mod low"
      by (simp add: new_def r_def minus_mult_div_eq_mod)
    have b1: "0 \<le> new" "new < low"
      using True by (simp_all add: new_mod)
    have cp: "coprime new low"
      using "1.prems"(4) True by (simp add: new_mod coprime_mod_left_iff coprime_commute)
    have e1: "(lm * a * r) mod n = (low * r) mod n"
      using "1.prems"(5) by (metis mod_mult_left_eq)
    have "(nm * a) mod n = (hm * a - lm * a * r) mod n"
      by (simp add: nm_def algebra_simps)
    also have "\<dots> = ((hm * a) mod n - (lm * a * r) mod n) mod n"
      by (simp add: mod_diff_eq)
    also have "\<dots> = (high mod n - (low * r) mod n) mod n"
      using "1.prems"(6) e1 by simp
    also have "\<dots> = new mod n"
      by (simp add: new_def mod_diff_eq)
    finally have cg: "(nm * a) mod n = new mod n" .
    have "(inv_loop nm new lm low * a) mod n = 1 mod n"
      using "1.IH"[OF True r_def nm_def new_def True b1 cp cg "1.prems"(5)] .
    moreover have "inv_loop lm low hm high = inv_loop nm new lm low"
      using True by (subst inv_loop.simps) (simp add: Let_def r_def nm_def new_def)
    ultimately show ?thesis by simp
  next
    case False
    have "low \<noteq> 0"
      using "1.prems"(1,4) by auto
    with False "1.prems"(2) have "low = 1" by simp
    moreover have "inv_loop lm low hm high = lm"
      using False by (subst inv_loop.simps) simp
    ultimately show ?thesis using "1.prems"(5) by simp
  qed
qed

lemma inv_mod_correct:
  assumes n: "1 < n" and cp: "coprime a n"
  shows "\<exists>b. inv_mod a n = Inr b \<and> 0 \<le> b \<and> b < n \<and> (a * b) mod n = 1"
proof -
  have a0: "a \<noteq> 0" using n cp by auto
  let ?r = "inv_loop 1 (a mod n) 0 n"
  have "(?r * a) mod n = 1 mod n"
  proof (rule inv_loop_correct)
    show "1 < n" by fact
    show "0 \<le> a mod n" using n by simp
    show "a mod n < n" using n by simp
    show "coprime (a mod n) n" using cp n by (simp add: coprime_mod_left_iff)
    show "1 * a mod n = a mod n mod n" by simp
    show "0 * a mod n = n mod n" by simp
  qed
  then have "(a * (?r mod n)) mod n = 1"
    using n by (simp add: mod_simps mult.commute)
  moreover have "inv_mod a n = Inr (?r mod n)"
    using a0 n by (simp add: inv_mod_def)
  moreover have "0 \<le> ?r mod n" "?r mod n < n" using n by simp_all
  ultimately show ?thesis by blast
qed

lemma inverse_unique:
  fixes a b c n :: int
  assumes "(a * b) mod n = 1" "(a * c) mod n = 1" "0 \<le> b" "b < n" "0 \<le> c" "c < n"
  shows "b = c"
proof -
  have "b mod n = (b * ((a * c) mod n)) mod n"
    using assms by simp
  also have "\<dots> = (((a * b) mod n) * c) mod n"
    by (simp add: mod_simps ac_simps)
  also have "\<dots> = c mod n"
    using assms by simp
  finally show ?thesis using assms by simp
qed

lemma inv_mod_eqI:
  assumes "1 < n" "(a * c) mod n = 1" "0 \<le> c" "c < n"
  shows "inv_mod a n = Inr c"
proof -
  have "coprime a n"
  proof (rule coprimeI)
    fix d assume "d dvd a" "d dvd n"
    then have "d dvd (a * c) mod n" by (simp add: dvd_mod)
    then show "is_unit d" using assms(2) by simp
  qed
  from inv_mod_correct[OF assms(1) this] obtain b where
    b: "inv_mod a n = Inr b" "0 \<le> b" "b < n" "(a * b) mod n = 1" by blast
  have "b = c" using inverse_unique[OF b(4) assms(2) b(2,3) assms(3,4)] .
  then show ?thesis using b by simp
qed

subsection \<open>The loop of mult\<close>

lemma mult_loop_nonneg_returns:
  "0 \<le> s \<Longrightarrow> \<exists>r. mult_loop add dbl p a s = Some r"
proof (induction "nat s" arbitrary: s p a rule: less_induct)
  case less
  show ?case
  proof (cases "s = 0")
    case True
    then show ?thesis by (subst mult_loop.simps) simp
  next
    case False
    with less.prems have pos: "0 < s" by simp
    then have half: "nat (s div 2) < nat s" "0 \<le> s div 2" by simp_all
    let ?r = "if and s 1 \<noteq> 0 then add a p else Inr a"
    show ?thesis
    proof (cases ?r)
      case (Inl e)
      then show ?thesis using False by (subst mult_loop.simps) simp
    next
      case a': (Inr a')
      show ?thesis
      proof (cases "dbl p")
        case (Inl e)
        then show ?thesis using False a' by (subst mult_loop.simps) simp
      next
        case (Inr p')
        from less.hyps[OF half] obtain r where "mult_loop add dbl p' a' (s div 2) = Some r"
          by blast
        then show ?thesis using False a' Inr by (subst mult_loop.simps) simp
      qed
    qed
  qed
qed

lemma mult_loop_negative_no_point_aux:
  fixes add :: "'p \<Rightarrow> 'p \<Rightarrow> error + 'p"
  assumes "mult_loop add dbl p a s = Some r"
  shows "s < 0 \<longrightarrow> (\<exists>e. r = Inl e)"
  using assms
proof (rule mult_loop.raw_induct[where P = "\<lambda>add dbl p a s r. s < 0 \<longrightarrow> (\<exists>e. r = Inl e)", rotated])
  fix f :: "('p \<Rightarrow> 'p \<Rightarrow> error + 'p) \<Rightarrow> ('p \<Rightarrow> error + 'p) \<Rightarrow> 'p \<Rightarrow> 'p \<Rightarrow> int
               \<Rightarrow> (error + 'p) option"
    and add dbl p a s r
  assume IH: "\<And>add dbl p a s r. f add dbl p a s = Some r \<Longrightarrow> s < 0 \<longrightarrow> (\<exists>e. r = Inl e)"
    and eq: "(if s \<noteq> 0
      then case if and s 1 \<noteq> 0 then add a p else Inr a of
           Inl e \<Rightarrow> Some (Inl e)
           | Inr a' \<Rightarrow>
               case dbl p of Inl e \<Rightarrow> Some (Inl e)
               | Inr p' \<Rightarrow> f add dbl p' a' (s div 2)
      else Some (Inr a)) = Some r"
  show "s < 0 \<longrightarrow> (\<exists>e. r = Inl e)"
  proof
    assume neg: "s < 0"
    then have s: "s \<noteq> 0" "s div 2 < 0" by simp_all
    show "\<exists>e. r = Inl e"
    proof (cases "if and s 1 \<noteq> 0 then add a p else Inr a")
      case (Inl e)
      have "r = Inl e" using eq unfolding Inl using s by simp
      then show ?thesis by blast
    next
      case a': (Inr a')
      show ?thesis
      proof (cases "dbl p")
        case (Inl e)
        have "r = Inl e" using eq unfolding a' Inl using s by simp
        then show ?thesis by blast
      next
        case (Inr p')
        have "f add dbl p' a' (s div 2) = Some r"
          using eq unfolding a' Inr using s by simp
        from IH[OF this] s show ?thesis by simp
      qed
    qed
  qed
qed

lemma mult_loop_negative_diverges_aux:
  fixes add :: "'p \<Rightarrow> 'p \<Rightarrow> error + 'p"
  assumes add: "\<And>a p. I a \<Longrightarrow> I p \<Longrightarrow> \<exists>c. add a p = Inr c \<and> I c"
    and dbl: "\<And>p. I p \<Longrightarrow> \<exists>c. dbl p = Inr c \<and> I c"
    and ret: "mult_loop add' dbl' p a s = Some r"
  shows "add' = add \<and> dbl' = dbl \<and> I p \<and> I a \<and> s < 0 \<longrightarrow> False"
  using ret
proof (rule mult_loop.raw_induct[where P = "\<lambda>add' dbl' p a s r.
          add' = add \<and> dbl' = dbl \<and> I p \<and> I a \<and> s < 0 \<longrightarrow> False", rotated])
  fix f :: "('p \<Rightarrow> 'p \<Rightarrow> error + 'p) \<Rightarrow> ('p \<Rightarrow> error + 'p) \<Rightarrow> 'p \<Rightarrow> 'p \<Rightarrow> int
             \<Rightarrow> (error + 'p) option"
    and add' dbl' p a s r
  assume IH: "\<And>add' dbl' p a s r. f add' dbl' p a s = Some r \<Longrightarrow>
                add' = add \<and> dbl' = dbl \<and> I p \<and> I a \<and> s < 0 \<longrightarrow> False"
    and eq: "(if s \<noteq> 0
      then case if and s 1 \<noteq> 0 then add' a p else Inr a of
           Inl e \<Rightarrow> Some (Inl e)
           | Inr a' \<Rightarrow>
               case dbl' p of Inl e \<Rightarrow> Some (Inl e)
               | Inr p' \<Rightarrow> f add' dbl' p' a' (s div 2)
      else Some (Inr a)) = Some r"
  show "add' = add \<and> dbl' = dbl \<and> I p \<and> I a \<and> s < 0 \<longrightarrow> False"
  proof
    assume h: "add' = add \<and> dbl' = dbl \<and> I p \<and> I a \<and> s < 0"
    then have s: "s \<noteq> 0" "s div 2 < 0" by simp_all
    from h have h': "add' = add" "dbl' = dbl" "I p" "I a" by simp_all
    obtain p' where p': "dbl p = Inr p'" "I p'" using dbl h by blast
    obtain a' where a': "(if and s 1 \<noteq> 0 then add a p else Inr a) = Inr a'" "I a'"
      using add[of a p] h by (cases "and s 1 \<noteq> 0") auto
    have "f add dbl p' a' (s div 2) = Some r"
      using eq unfolding h'(1,2) a'(1) p'(1) using s by simp
    from IH[OF this] show False using p' a' s by simp
  qed
qed

lemma mult_loop_negative_diverges:
  fixes add :: "'p \<Rightarrow> 'p \<Rightarrow> error + 'p"
  assumes "\<And>a p. I a \<Longrightarrow> I p \<Longrightarrow> \<exists>c. add a p = Inr c \<and> I c"
    and "\<And>p. I p \<Longrightarrow> \<exists>c. dbl p = Inr c \<and> I c"
    and "I p" "I a" "s < 0"
  shows "mult_loop add dbl p a s = None"
proof (cases "mult_loop add dbl p a s")
  case None
  then show ?thesis .
next
  case (Some r)
  from mult_loop_negative_diverges_aux[of I add dbl, OF assms(1,2) Some] assms(3-5)
  show ?thesis by simp
qed

subsection \<open>Field operations return values in range\<close>

lemma FQ_default_m [simp]: "FQ_m (FQ_default i) = SNARK_SCALAR_FIELD"
  by (simp add: FQ_default_def)

lemma FQ_default_n [simp]: "FQ_n (FQ_default i) = i mod SNARK_SCALAR_FIELD"
  by (simp add: FQ_default_def)

lemma FQ_init_int: "m \<noteq> 0 \<Longrightarrow> FQ_init (OInt i) m = Inr \<lparr>FQ_n = i mod m, FQ_m = m\<rparr>"
  by (simp add: FQ_init_def pymod_def)

lemma FQ_init_default: "FQ_init (OInt i) SNARK_SCALAR_FIELD = Inr (FQ_default i)"
  by (simp add: FQ_init_int FQ_default_def)

lemma inv_mod_returns: "n \<noteq> 0 \<Longrightarrow> \<exists>i. inv_mod a n = Inr i"
  by (simp add: inv_mod_def)

lemma inv_mod_Q: "inv_mod a SNARK_SCALAR_FIELD = Inr (inv_Q a)"
  using inv_mod_returns[of SNARK_SCALAR_FIELD a] by (auto simp: inv_Q_def)

lemma other_n_compatible:
  "compatible a other \<Longrightarrow> \<exists>k. other_n a other = Inr k"
  by (cases other) (simp_all add: compatible_def other_n_def)

lemma returns_in_range_init:
  "0 < m \<Longrightarrow> returns_in_range m (FQ_init (OInt i) m)"
  by (simp add: FQ_init_int returns_in_range_def)

lemma returns_in_range_pymod:
  "0 < m \<Longrightarrow> returns_in_range m (ebind (pymod v m) (\<lambda>w. FQ_init (OInt w) m))"
  by (simp add: pymod_def FQ_init_int returns_in_range_def)

lemma FQ_add_in_range:
  "0 < FQ_m a \<Longrightarrow> compatible a other \<Longrightarrow> returns_in_range (FQ_m a) (FQ_add a other)"
  using other_n_compatible[of a other] by (auto simp: FQ_add_def returns_in_range_pymod)

lemma FQ_sub_in_range:
  "0 < FQ_m a \<Longrightarrow> compatible a other \<Longrightarrow> returns_in_range (FQ_m a) (FQ_sub a other)"
  using other_n_compatible[of a other] by (auto simp: FQ_sub_def returns_in_range_pymod)

lemma FQ_rsub_in_range:
  "0 < FQ_m a \<Longrightarrow> compatible a other \<Longrightarrow> returns_in_range (FQ_m a) (FQ_rsub a other)"
  using other_n_compatible[of a other] by (auto simp: FQ_rsub_def returns_in_range_pymod)

lemma FQ_mul_in_range:
  "0 < FQ_m a \<Longrightarrow> compatible a other \<Longrightarrow> returns_in_range (FQ_m a) (FQ_mul a other)"
  using other_n_compatible[of a other] by (auto simp: FQ_mul_def returns_in_range_pymod)

lemma FQ_div_in_range:
  "0 < FQ_m a \<Longrightarrow> compatible a other \<Longrightarrow> returns_in_range (FQ_m a) (FQ_div a other)"
proof -
  assume m: "0 < FQ_m a" and c: "compatible a other"
  obtain k where k: "other_n a other = Inr k" using other_n_compatible[OF c] by blast
  obtain i where i: "inv_mod k (FQ_m a) = Inr i" using inv_mod_returns[of "FQ_m a" k] m by auto
  show ?thesis using m by (simp add: FQ_div_def k i returns_in_range_pymod)
qed

lemma FQ_rdiv_in_range:
  "0 < FQ_m a \<Longrightarrow> compatible a other \<Longrightarrow> returns_in_range (FQ_m a) (FQ_rdiv a other)"
proof -
  assume m: "0 < FQ_m a" and c: "compatible a other"
  obtain k where k: "other_n a other = Inr k" using other_n_compatible[OF c] by blast
  obtain i where i: "inv_mod (FQ_n a) (FQ_m a) = Inr i"
    using inv_mod_returns[of "FQ_m a" "FQ_n a"] m by auto
  show ?thesis using m by (simp add: FQ_rdiv_def k i returns_in_range_pymod)
qed

lemma FQ_neg_in_range:
  "0 < FQ_m a \<Longrightarrow> returns_in_range (FQ_m a) (FQ_neg a)"
  by (simp add: FQ_neg_def returns_in_range_init)

lemma FQ_inv_in_range:
  "0 < FQ_m a \<Longrightarrow> returns_in_range (FQ_m a) (FQ_inv a)"
proof -
  assume m: "0 < FQ_m a"
  obtain i where i: "inv_mod (FQ_n a) (FQ_m a) = Inr i"
    using inv_mod_returns[of "FQ_m a" "FQ_n a"] m by auto
  show ?thesis using m by (simp add: FQ_inv_def i returns_in_range_init)
qed

lemma powmod_loop_returns:
  "n \<noteq> 0 \<Longrightarrow> \<exists>r. powmod_loop a b n k c f = Inr r"
proof (induction a b n k c f rule: powmod_loop.induct)
  case (1 a b n k c f)
  then show ?case
    by (subst powmod_loop.simps) auto
qed

lemma FQ_exp_in_range:
  assumes m: "0 < FQ_m a" and e: "other_n a e = Inr k" and k: "0 < k"
  shows "returns_in_range (FQ_m a) (FQ_exp ilog2 a e)"
proof -
  obtain r where "powmod_loop (FQ_n a) k (FQ_m a) (ilog2 k) 0 1 = Inr r"
    using powmod_loop_returns[of "FQ_m a"] m by (metis less_irrefl)
  then have "powmod ilog2 (FQ_n a) k (FQ_m a) = Inr r"
    using k by (simp add: powmod_def)
  then show ?thesis using m by (simp add: FQ_exp_def e returns_in_range_init)
qed

subsection \<open>Field operations over the base field of the curve\<close>

lemma JUBJUB_Q_eq [simp]: "JUBJUB_Q = SNARK_SCALAR_FIELD"
  by (simp add: JUBJUB_Q_def)

lemma FQ_default_eq_iff:
  "FQ_default a = FQ_default b \<longleftrightarrow> a mod SNARK_SCALAR_FIELD = b mod SNARK_SCALAR_FIELD"
  by (simp add: FQ_default_def)

lemma FQ_default_mod [simp]: "FQ_default (a mod SNARK_SCALAR_FIELD) = FQ_default a"
  by (simp add: FQ_default_def)

lemma FQ_mul_Q:
  "FQ_m a = SNARK_SCALAR_FIELD \<Longrightarrow> FQ_m b = SNARK_SCALAR_FIELD \<Longrightarrow>
   FQ_mul a (OFQ b) = Inr (FQ_default (FQ_n a * FQ_n b))"
  by (simp add: FQ_mul_def other_n_def pymod_def FQ_init_default)

lemma FQ_mul_int_Q:
  "FQ_m a = SNARK_SCALAR_FIELD \<Longrightarrow> FQ_mul a (OInt i) = Inr (FQ_default (FQ_n a * i))"
  by (simp add: FQ_mul_def other_n_def pymod_def FQ_init_default)

lemma FQ_rmul_int_Q:
  "FQ_m a = SNARK_SCALAR_FIELD \<Longrightarrow> FQ_rmul a (OInt i) = Inr (FQ_default (i * FQ_n a))"
  by (simp add: FQ_rmul_def FQ_mul_int_Q mult.commute)

lemma FQ_add_Q:
  "FQ_m a = SNARK_SCALAR_FIELD \<Longrightarrow> FQ_m b = SNARK_SCALAR_FIELD \<Longrightarrow>
   FQ_add a (OFQ b) = Inr (FQ_default (FQ_n a + FQ_n b))"
  by (simp add: FQ_add_def other_n_def pymod_def FQ_init_default)

lemma FQ_radd_int_Q:
  "FQ_m a = SNARK_SCALAR_FIELD \<Longrightarrow> FQ_radd a (OInt i) = Inr (FQ_default (i + FQ_n a))"
  by (simp add: FQ_radd_def FQ_add_def other_n_def pymod_def FQ_init_default add.commute)

lemma FQ_sub_Q:
  "FQ_m a = SNARK_SCALAR_FIELD \<Longrightarrow> FQ_m b = SNARK_SCALAR_FIELD \<Longrightarrow>
   FQ_sub a (OFQ b) = Inr (FQ_default (FQ_n a - FQ_n b))"
  by (simp add: FQ_sub_def other_n_def pymod_def FQ_init_default)

lemma FQ_div_Q:
  "FQ_m a = SNARK_SCALAR_FIELD \<Longrightarrow> FQ_m b = SNARK_SCALAR_FIELD \<Longrightarrow>
   FQ_div a (OFQ b) = Inr (FQ_default (FQ_n a * inv_Q (FQ_n b)))"
  by (simp add: FQ_div_def other_n_def pymod_def FQ_init_default inv_mod_Q)

lemma FQ_inv_Q:
  "FQ_m a = SNARK_SCALAR_FIELD \<Longrightarrow> FQ_inv a = Inr (FQ_default (inv_Q (FQ_n a)))"
  by (simp add: FQ_inv_def FQ_init_default inv_mod_Q)

lemma FQ_neg_Q:
  "FQ_m a = SNARK_SCALAR_FIELD \<Longrightarrow> FQ_neg a = Inr (FQ_default (- FQ_n a))"
  by (simp add: FQ_neg_def FQ_init_default)

lemma FQ_one_Q: "FQ_one SNARK_SCALAR_FIELD = Inr (FQ_default 1)"
  by (simp add: FQ_one_def FQ_init_default)

lemma FQ_eq_int: "FQ_eq a (OInt i) = Inr (FQ_n a = i)"
  by (simp add: FQ_eq_def other_n_def)

lemma FQ_ne_int: "FQ_ne a (OInt i) = Inr (FQ_n a \<noteq> i)"
  by (simp add: FQ_ne_def FQ_eq_int)

lemma FQ_eq_Q:
  "FQ_m a = SNARK_SCALAR_FIELD \<Longrightarrow> FQ_m b = SNARK_SCALAR_FIELD \<Longrightarrow>
   FQ_eq a (OFQ b) = Inr (FQ_n a = FQ_n b)"
  by (auto simp: FQ_eq_def other_n_def)

lemmas FQ_ops_Q = FQ_mul_Q FQ_mul_int_Q FQ_rmul_int_Q FQ_add_Q FQ_radd_int_Q FQ_sub_Q
  FQ_div_Q FQ_inv_Q FQ_neg_Q FQ_one_Q FQ_eq_int FQ_ne_int FQ_eq_Q

lemma one_mod_Q [simp]: "1 mod SNARK_SCALAR_FIELD = 1"
  using SNARK_gt1 by simp

lemma Point_add_zero_tuple:
  "FQ_n (Point_x self) = 0 \<Longrightarrow> FQ_n (Point_y self) = 0 \<Longrightarrow> Point_add self other = Inr other"
  by (simp add: Point_add_def FQ_eq_int)

lemma Point_add_generic:
  assumes "Point_over_Q self" "Point_over_Q other"
    and "\<not> (FQ_n (Point_x self) = 0 \<and> FQ_n (Point_y self) = 0)"
  shows "Point_add self other =
    (let u1 = FQ_n (Point_x self); v1 = FQ_n (Point_y self);
         u2 = FQ_n (Point_x other); v2 = FQ_n (Point_y other)
     in Inr (Point
         (FQ_default ((u1 * v2 + v1 * u2)
            * inv_Q ((1 + JUBJUB_D * u1 * u2 * v1 * v2) mod SNARK_SCALAR_FIELD)))
         (FQ_default ((v1 * v2 - JUBJUB_A * u1 * u2)
            * inv_Q ((1 - JUBJUB_D * u1 * u2 * v1 * v2) mod SNARK_SCALAR_FIELD)))))"
  using assms
  by (auto simp: Point_add_def Point_over_Q_def Let_def FQ_ops_Q FQ_default_eq_iff mod_simps)

lemma Point_add_over_Q:
  assumes "Point_over_Q a" "Point_over_Q p"
  shows "\<exists>c. Point_add a p = Inr c \<and> Point_over_Q c"
proof (cases "FQ_n (Point_x a) = 0 \<and> FQ_n (Point_y a) = 0")
  case True
  then show ?thesis using assms by (simp add: Point_add_zero_tuple)
next
  case False
  show ?thesis
    using Point_add_generic[OF assms False] by (simp add: Let_def Point_over_Q_def)
qed

subsection \<open>The addition and doubling formulas over the base field\<close>

lemma tuple_eq_infinity3:
  "FQ_m y = SNARK_SCALAR_FIELD \<Longrightarrow> FQ_m z = SNARK_SCALAR_FIELD \<Longrightarrow>
   tuple_eq [x, y, z] [FQ_default 0, FQ_default 1, FQ_default 1]
     = Inr (FQ_n x = 0 \<and> FQ_n y = 1 \<and> FQ_n z = 1)"
  by (auto simp: FQ_eq_def other_n_def)

lemma ProjPoint_eq_infinity:
  "ProjPoint_over_Q p \<Longrightarrow>
   ProjPoint_eq p ProjPoint_infinity
     = Inr (FQ_n (ProjPoint_x p) = 0 \<and> FQ_n (ProjPoint_y p) = 1 \<and> FQ_n (ProjPoint_z p) = 1)"
  by (auto simp: ProjPoint_eq_def ProjPoint_infinity_def ProjPoint_over_Q_def
      FQ_eq_def other_n_def)

lemma EtecPoint_eq_infinity:
  "EtecPoint_over_Q p \<Longrightarrow>
   EtecPoint_eq p EtecPoint_infinity
     = Inr (FQ_n (EtecPoint_x p) = 0 \<and> FQ_n (EtecPoint_y p) = 1 \<and>
            FQ_n (EtecPoint_t p) = 0 \<and> FQ_n (EtecPoint_z p) = 1)"
  by (auto simp: EtecPoint_eq_def EtecPoint_infinity_def EtecPoint_over_Q_def
      FQ_eq_def other_n_def)

lemma ProjPoint_infinity_over_Q [simp]: "ProjPoint_over_Q ProjPoint_infinity"
  by (simp add: ProjPoint_over_Q_def ProjPoint_infinity_def)

lemma EtecPoint_infinity_over_Q [simp]: "EtecPoint_over_Q EtecPoint_infinity"
  by (simp add: EtecPoint_over_Q_def EtecPoint_infinity_def)

lemma Point_infinity_over_Q [simp]: "Point_over_Q Point_infinity"
  by (simp add: Point_over_Q_def Point_infinity_def)

lemma ProjPoint_add_generic:
  assumes "ProjPoint_over_Q self" "ProjPoint_over_Q other"
    and "\<not> (FQ_n (ProjPoint_x self) = 0 \<and> FQ_n (ProjPoint_y self) = 1 \<and>
            FQ_n (ProjPoint_z self) = 1)"
  shows "ProjPoint_add self other =
    (let x1 = FQ_n (ProjPoint_x self); y1 = FQ_n (ProjPoint_y self);
         z1 = FQ_n (ProjPoint_z self);
         x2 = FQ_n (ProjPoint_x other); y2 = FQ_n (ProjPoint_y other);
         z2 = FQ_n (ProjPoint_z other);
         a = z1 * z2; b = a * a; c = x1 * x2; d = y1 * y2;
         e = JUBJUB_D * (c * d); f = b - e; g = b + e
     in Inr (ProjPoint
         (FQ_default (a * (f * ((x1 + y1) * (x2 + y2) - c - d))))
         (FQ_default (a * (g * (d - JUBJUB_A * c))))
         (FQ_default (f * g))))"
proof -
  have ni: "ProjPoint_eq self ProjPoint_infinity = Inr False"
    using assms by (simp add: ProjPoint_eq_infinity)
  show ?thesis
    using assms
    by (simp add: ProjPoint_add_def ni ProjPoint_over_Q_def Let_def
        FQ_ops_Q FQ_default_eq_iff mod_simps)
qed

lemma ProjPoint_double_generic:
  assumes "ProjPoint_over_Q self"
    and "\<not> (FQ_n (ProjPoint_x self) = 0 \<and> FQ_n (ProjPoint_y self) = 1 \<and>
            FQ_n (ProjPoint_z self) = 1)"
  shows "ProjPoint_double self =
    (let x1 = FQ_n (ProjPoint_x self); y1 = FQ_n (ProjPoint_y self);
         z1 = FQ_n (ProjPoint_z self);
         b = (x1 + y1) * (x1 + y1); c = x1 * x1; d = y1 * y1;
         e = JUBJUB_A * c; f = e + d; h = z1 * z1; j = f - 2 * h
     in Inr (ProjPoint
         (FQ_default ((b - c - d) * j))
         (FQ_default (f * (e - d)))
         (FQ_default (f * j))))"
proof -
  have ni: "ProjPoint_eq self ProjPoint_infinity = Inr False"
    using assms by (simp add: ProjPoint_eq_infinity)
  show ?thesis
    using assms
    by (simp add: ProjPoint_double_def ni ProjPoint_over_Q_def Let_def
        FQ_ops_Q FQ_default_eq_iff mod_simps)
qed

lemma EtecPoint_double_generic:
  assumes "EtecPoint_over_Q self"
    and "\<not> (FQ_n (EtecPoint_x self) = 0 \<and> FQ_n (EtecPoint_y self) = 1 \<and>
            FQ_n (EtecPoint_t self) = 0 \<and> FQ_n (EtecPoint_z self) = 1)"
  shows "EtecPoint_double self =
    (let x1 = FQ_n (EtecPoint_x self); y1 = FQ_n (EtecPoint_y self);
         z1 = FQ_n (EtecPoint_z self);
         a = x1 * x1; b = y1 * y1; c = z1 * z1 * 2; d = JUBJUB_A * a;
         e = (x1 + y1) * (x1 + y1) - a - b; g = d + b; f = g - c; h = d - b
     in Inr (EtecPoint (FQ_default (e * f)) (FQ_default (g * h))
                       (FQ_default (e * h)) (FQ_default (f * g))))"
proof -
  have ni: "EtecPoint_eq self EtecPoint_infinity = Inr False"
    using assms by (simp add: EtecPoint_eq_infinity)
  show ?thesis
    using assms
    by (simp add: EtecPoint_double_def ni EtecPoint_over_Q_def Let_def
        FQ_ops_Q FQ_default_eq_iff mod_simps)
qed

lemma EtecPoint_add_generic:
  assumes "EtecPoint_over_Q self" "EtecPoint_over_Q other"
    and "\<not> (FQ_n (EtecPoint_x self) = 0 \<and> FQ_n (EtecPoint_y self) = 1 \<and>
            FQ_n (EtecPoint_t self) = 0 \<and> FQ_n (EtecPoint_z self) = 1)"
    and "FQ_n (EtecPoint_z self) \<noteq> 0" "FQ_n (EtecPoint_z other) \<noteq> 0"
  shows "EtecPoint_add self other =
    (let x1 = FQ_n (EtecPoint_x self); y1 = FQ_n (EtecPoint_y self);
         t1 = FQ_n (EtecPoint_t self); z1 = FQ_n (EtecPoint_z self);
         x2 = FQ_n (EtecPoint_x other); y2 = FQ_n (EtecPoint_y other);
         t2 = FQ_n (EtecPoint_t other); z2 = FQ_n (EtecPoint_z other);
         x1x2 = x1 * x2; y1y2 = y1 * y2; dt1t2 = JUBJUB_D * t1 * t2; z1z2 = z1 * z2;
         e = (x1 + y1) * (x2 + y2) - x1x2 - y1y2;
         f = z1z2 - dt1t2; g = z1z2 + dt1t2; h = y1y2 - JUBJUB_A * x1x2
     in Inr (EtecPoint (FQ_default (e * f)) (FQ_default (g * h))
                       (FQ_default (e * h)) (FQ_default (f * g))))"
proof -
  have ni: "EtecPoint_eq self EtecPoint_infinity = Inr False"
    using assms by (simp add: EtecPoint_eq_infinity)
  show ?thesis
    using assms
    by (simp add: EtecPoint_add_def ni EtecPoint_over_Q_def Let_def
        FQ_ops_Q FQ_default_eq_iff mod_simps)
qed

subsection \<open>Further facts about inverses and closure of the point operations\<close>

lemma inv_Q_eqI:
  "(a * c) mod SNARK_SCALAR_FIELD = 1 \<Longrightarrow> 0 \<le> c \<Longrightarrow> c < SNARK_SCALAR_FIELD \<Longrightarrow> inv_Q a = c"
  using inv_mod_eqI[OF SNARK_gt1, of a c] by (simp add: inv_Q_def)

lemma inv_Q_0 [simp]: "inv_Q 0 = 0"
  by (simp add: inv_Q_def inv_mod_def)

lemma inv_Q_1 [simp]: "inv_Q 1 = 1"
  using SNARK_gt1 by (intro inv_Q_eqI) simp_all

lemma ProjPoint_add_over_Q:
  assumes "ProjPoint_over_Q a" "ProjPoint_over_Q p"
  shows "\<exists>c. ProjPoint_add a p = Inr c \<and> ProjPoint_over_Q c"
proof (cases "FQ_n (ProjPoint_x a) = 0 \<and> FQ_n (ProjPoint_y a) = 1 \<and> FQ_n (ProjPoint_z a) = 1")
  case True
  then show ?thesis
    using assms by (simp add: ProjPoint_add_def ProjPoint_eq_infinity)
next
  case False
  show ?thesis
    using ProjPoint_add_generic[OF assms False] by (simp add: Let_def ProjPoint_over_Q_def)
qed

lemma ProjPoint_double_over_Q:
  assumes "ProjPoint_over_Q p"
  shows "\<exists>c. ProjPoint_double p = Inr c \<and> ProjPoint_over_Q c"
proof (cases "FQ_n (ProjPoint_x p) = 0 \<and> FQ_n (ProjPoint_y p) = 1 \<and> FQ_n (ProjPoint_z p) = 1")
  case True
  then show ?thesis
    using assms by (simp add: ProjPoint_double_def ProjPoint_eq_infinity)
next
  case False
  show ?thesis
    using ProjPoint_double_generic[OF assms False] by (simp add: Let_def ProjPoint_over_Q_def)
qed

lemma Point_double_over_Q:
  "Point_over_Q p \<Longrightarrow> \<exists>c. Point_double p = Inr c \<and> Point_over_Q c"
  by (simp add: Point_double_def Point_add_over_Q)

lemma point_a_over_Q [simp]: "Point_over_Q point_a"
  by (simp add: Point_over_Q_def point_a_def)

subsection \<open>What inv returns for units and for non-units\<close>

lemma inv_loop_noncoprime:
  "1 < high \<Longrightarrow> 0 \<le> low \<Longrightarrow> low < high \<Longrightarrow> \<not> coprime low high \<Longrightarrow>
   (lm * a) mod n = low mod n \<Longrightarrow> (hm * a) mod n = high mod n \<Longrightarrow>
   (inv_loop lm low hm high * a) mod n = 0"
proof (induction lm low hm high rule: inv_loop.induct)
  case (1 lm low hm high)
  show ?case
  proof (cases "1 < low")
    case True
    define r where "r = high div low"
    define nm where "nm = hm - lm * r"
    define new where "new = high - low * r"
    have new_mod: "new = high mod low"
      by (simp add: new_def r_def minus_mult_div_eq_mod)
    have b1: "0 \<le> new" "new < low"
      using True by (simp_all add: new_mod)
    have cp: "\<not> coprime new low"
      using "1.prems"(4) True by (simp add: new_mod coprime_mod_left_iff coprime_commute)
    have e1: "(lm * a * r) mod n = (low * r) mod n"
      using "1.prems"(5) by (metis mod_mult_left_eq)
    have "(nm * a) mod n = (hm * a - lm * a * r) mod n"
      by (simp add: nm_def algebra_simps)
    also have "\<dots> = ((hm * a) mod n - (lm * a * r) mod n) mod n"
      by (simp add: mod_diff_eq)
    also have "\<dots> = (high mod n - (low * r) mod n) mod n"
      using "1.prems"(6) e1 by simp
    also have "\<dots> = new mod n"
      by (simp add: new_def mod_diff_eq)
    finally have cg: "(nm * a) mod n = new mod n" .
    have "(inv_loop nm new lm low * a) mod n = 0"
      using "1.IH"[OF True r_def nm_def new_def True b1 cp cg "1.prems"(5)] .
    moreover have "inv_loop lm low hm high = inv_loop nm new lm low"
      using True by (subst inv_loop.simps) (simp add: Let_def r_def nm_def new_def)
    ultimately show ?thesis by simp
  next
    case False
    have "low \<noteq> 1"
      using "1.prems"(4) by auto
    with False "1.prems"(2) have "low = 0" by simp
    moreover have "inv_loop lm low hm high = lm"
      using False by (subst inv_loop.simps) simp
    ultimately show ?thesis using "1.prems"(5) by simp
  qed
qed

lemma inv_mod_noncoprime:
  assumes n: "1 < n" and cp: "\<not> coprime a n"
  shows "\<exists>b. inv_mod a n = Inr b \<and> 0 \<le> b \<and> b < n \<and> (a * b) mod n = 0"
proof (cases "a = 0")
  case True
  have "inv_mod a n = Inr 0" using True by (simp add: inv_mod_def)
  then show ?thesis using n True by (intro exI[of _ 0]) simp
next
  case False
  let ?r = "inv_loop 1 (a mod n) 0 n"
  have nc: "\<not> coprime (a mod n) n"
    using cp n coprime_mod_left_iff[of n a] by simp
  have "(?r * a) mod n = 0"
  proof (rule inv_loop_noncoprime)
    show "1 < n" by fact
    show "0 \<le> a mod n" using n by simp
    show "a mod n < n" using n by simp
    show "\<not> coprime (a mod n) n" by fact
    show "1 * a mod n = a mod n mod n" by simp
    show "0 * a mod n = n mod n" by simp
  qed
  then have "(a * ?r) mod n = 0" by (simp add: mult.commute)
  then have z: "(a * (?r mod n)) mod n = 0"
    by (simp add: mod_mult_right_eq)
  have i: "inv_mod a n = Inr (?r mod n)"
    using False n by (simp add: inv_mod_def)
  have rng: "0 \<le> ?r mod n" "?r mod n < n" using n by simp_all
  show ?thesis
    by (rule exI[of _ "?r mod n"]) (intro conjI i rng z)
qed


lemma inv_Q_cases:
  obtains (unit) "coprime a SNARK_SCALAR_FIELD" "(a * inv_Q a) mod SNARK_SCALAR_FIELD = 1"
      "0 \<le> inv_Q a" "inv_Q a < SNARK_SCALAR_FIELD"
    | (nonunit) "\<not> coprime a SNARK_SCALAR_FIELD" "(a * inv_Q a) mod SNARK_SCALAR_FIELD = 0"
      "0 \<le> inv_Q a" "inv_Q a < SNARK_SCALAR_FIELD"
proof (cases "coprime a SNARK_SCALAR_FIELD")
  case True
  from inv_mod_correct[OF SNARK_gt1 True] obtain b where
    "inv_mod a SNARK_SCALAR_FIELD = Inr b \<and> 0 \<le> b \<and> b < SNARK_SCALAR_FIELD \<and>
      (a * b) mod SNARK_SCALAR_FIELD = 1" ..
  then have b: "inv_mod a SNARK_SCALAR_FIELD = Inr b" "0 \<le> b" "b < SNARK_SCALAR_FIELD"
      "(a * b) mod SNARK_SCALAR_FIELD = 1" by simp_all
  have e: "inv_Q a = b" unfolding inv_Q_def b(1) by simp
  show ?thesis
  proof (rule unit)
    show "coprime a SNARK_SCALAR_FIELD" by fact
    show "(a * inv_Q a) mod SNARK_SCALAR_FIELD = 1" unfolding e by (rule b(4))
    show "0 \<le> inv_Q a" unfolding e by (rule b(2))
    show "inv_Q a < SNARK_SCALAR_FIELD" unfolding e by (rule b(3))
  qed
next
  case False
  from inv_mod_noncoprime[OF SNARK_gt1 False] obtain b where
    "inv_mod a SNARK_SCALAR_FIELD = Inr b \<and> 0 \<le> b \<and> b < SNARK_SCALAR_FIELD \<and>
      (a * b) mod SNARK_SCALAR_FIELD = 0" ..
  then have b: "inv_mod a SNARK_SCALAR_FIELD = Inr b" "0 \<le> b" "b < SNARK_SCALAR_FIELD"
      "(a * b) mod SNARK_SCALAR_FIELD = 0" by simp_all
  have e: "inv_Q a = b" unfolding inv_Q_def b(1) by simp
  show ?thesis
  proof (rule nonunit)
    show "\<not> coprime a SNARK_SCALAR_FIELD" by fact
    show "(a * inv_Q a) mod SNARK_SCALAR_FIELD = 0" unfolding e by (rule b(4))
    show "0 \<le> inv_Q a" unfolding e by (rule b(2))
    show "inv_Q a < SNARK_SCALAR_FIELD" unfolding e by (rule b(3))
  qed
qed


lemma inv_Q_range: "0 \<le> inv_Q a" "inv_Q a < SNARK_SCALAR_FIELD"
  by (rule inv_Q_cases[of a]; simp)+

lemma inv_Q_unit:
  "coprime a SNARK_SCALAR_FIELD \<Longrightarrow> (a * inv_Q a) mod SNARK_SCALAR_FIELD = 1"
  by (rule inv_Q_cases[of a]; simp)

lemma inv_Q_nonunit:
  "\<not> coprime a SNARK_SCALAR_FIELD \<Longrightarrow> (a * inv_Q a) mod SNARK_SCALAR_FIELD = 0"
  by (rule inv_Q_cases[of a]; simp)

lemma coprime_if_inverse:
  fixes a c n :: int
  assumes "(a * c) mod n = 1"
  shows "coprime a n"
proof (rule coprimeI)
  fix d assume "d dvd a" "d dvd n"
  then have "d dvd (a * c) mod n" by (simp add: dvd_mod)
  then show "is_unit d" using assms by simp
qed

lemma coprime_if_cert:
  fixes a c k n :: int
  assumes "a * c = k * n + 1"
  shows "coprime a n"
proof (rule coprimeI)
  fix d assume d: "d dvd a" "d dvd n"
  then have "d dvd a * c - k * n" by (intro dvd_diff dvd_mult2 dvd_mult) simp_all
  then show "is_unit d" using assms by simp
qed

lemma prime_modulus_coprime:
  assumes p: "prime_modulus p" and a: "0 < a" "a < p"
  shows "coprime a p"
proof -
  define g where "g = gcd a p"
  have g_pos: "0 < g" using a by (simp add: g_def)
  have g_a: "g dvd a" and g_p: "g dvd p" by (simp_all add: g_def)
  have "g \<le> a" using g_a a by (simp add: zdvd_imp_le)
  then have "g < p" using a by simp
  have "\<not> 1 < g"
    using p g_p \<open>g < p\<close> by (auto simp: prime_modulus_def)
  with g_pos have "g = 1" by simp
  then show ?thesis by (simp add: g_def coprime_iff_gcd_eq_1)
qed

lemma prime_modulus_7: "prime_modulus 7"
proof -
  have "\<not> d dvd 7" if "1 < d" "d < 7" for d :: int
  proof -
    from that have "d = 2 \<or> d = 3 \<or> d = 4 \<or> d = 5 \<or> d = 6" by arith
    then show ?thesis by auto
  qed
  then show ?thesis by (simp add: prime_modulus_def)
qed

subsection \<open>Evaluating the formulas at concrete points\<close>

text \<open>
  A reduction modulo the field prime is checked from its quotient, and an inverse from the
  product it satisfies, so that no division has to be carried out on numerals.
\<close>

lemma FQ_default_cert:
  "a = k * SNARK_SCALAR_FIELD + r \<Longrightarrow> FQ_default a = FQ_default r"
  by (simp add: FQ_default_eq_iff)

lemma inv_Q_mod_cert:
  assumes "a * c = k * SNARK_SCALAR_FIELD + 1" "0 \<le> c" "c < SNARK_SCALAR_FIELD"
  shows "inv_Q (a mod SNARK_SCALAR_FIELD) = c"
proof (rule inv_Q_eqI)
  have "(a mod SNARK_SCALAR_FIELD * c) mod SNARK_SCALAR_FIELD = (a * c) mod SNARK_SCALAR_FIELD"
    by (simp add: mod_simps)
  also have "\<dots> = 1" unfolding assms(1) by simp
  finally show "(a mod SNARK_SCALAR_FIELD * c) mod SNARK_SCALAR_FIELD = 1" .
qed (use assms in simp_all)

lemma Point_add_cert:
  assumes nz: "\<not> (u1 mod SNARK_SCALAR_FIELD = 0 \<and> v1 mod SNARK_SCALAR_FIELD = 0)"
    and c1: "(1 + JUBJUB_D * u1 * u2 * v1 * v2) * c1 = k1 * SNARK_SCALAR_FIELD + 1"
      "0 \<le> c1" "c1 < SNARK_SCALAR_FIELD"
    and c2: "(1 - JUBJUB_D * u1 * u2 * v1 * v2) * c2 = k2 * SNARK_SCALAR_FIELD + 1"
      "0 \<le> c2" "c2 < SNARK_SCALAR_FIELD"
    and ru: "(u1 * v2 + v1 * u2) * c1 = ku * SNARK_SCALAR_FIELD + ru"
    and rv: "(v1 * v2 - JUBJUB_A * u1 * u2) * c2 = kv * SNARK_SCALAR_FIELD + rv"
  shows "Point_add (Point (FQ_default u1) (FQ_default v1)) (Point (FQ_default u2) (FQ_default v2))
     = Inr (Point (FQ_default ru) (FQ_default rv))"
proof -
  let ?q = SNARK_SCALAR_FIELD
  let ?p = "Point (FQ_default u1) (FQ_default v1)" and ?o = "Point (FQ_default u2) (FQ_default v2)"
  have ov: "Point_over_Q ?p" "Point_over_Q ?o" by (simp_all add: Point_over_Q_def)
  have ng: "\<not> (FQ_n (Point_x ?p) = 0 \<and> FQ_n (Point_y ?p) = 0)" using nz by simp
  have d1: "(1 + JUBJUB_D * (u1 mod ?q) * (u2 mod ?q) * (v1 mod ?q) * (v2 mod ?q)) mod ?q
      = (1 + JUBJUB_D * u1 * u2 * v1 * v2) mod ?q"
    by (intro mod_add_cong mod_mult_cong mod_diff_cong) simp_all
  have d2: "(1 - JUBJUB_D * (u1 mod ?q) * (u2 mod ?q) * (v1 mod ?q) * (v2 mod ?q)) mod ?q
      = (1 - JUBJUB_D * u1 * u2 * v1 * v2) mod ?q"
    by (intro mod_add_cong mod_mult_cong mod_diff_cong) simp_all
  have i1: "inv_Q ((1 + JUBJUB_D * u1 * u2 * v1 * v2) mod ?q) = c1"
    by (rule inv_Q_mod_cert[OF c1])
  have i2: "inv_Q ((1 - JUBJUB_D * u1 * u2 * v1 * v2) mod ?q) = c2"
    by (rule inv_Q_mod_cert[OF c2])
  have e1: "FQ_default ((u1 mod ?q * (v2 mod ?q) + v1 mod ?q * (u2 mod ?q)) * c1) = FQ_default ru"
  proof -
    have "((u1 mod ?q * (v2 mod ?q) + v1 mod ?q * (u2 mod ?q)) * c1) mod ?q
        = ((u1 * v2 + v1 * u2) * c1) mod ?q"
      by (intro mod_add_cong mod_mult_cong mod_diff_cong) simp_all
    also have "\<dots> = ru mod ?q" unfolding ru by simp
    finally show ?thesis by (simp add: FQ_default_eq_iff)
  qed
  have e2: "FQ_default ((v1 mod ?q * (v2 mod ?q) - JUBJUB_A * (u1 mod ?q) * (u2 mod ?q)) * c2)
      = FQ_default rv"
  proof -
    have "((v1 mod ?q * (v2 mod ?q) - JUBJUB_A * (u1 mod ?q) * (u2 mod ?q)) * c2) mod ?q
        = ((v1 * v2 - JUBJUB_A * u1 * u2) * c2) mod ?q"
      by (intro mod_add_cong mod_mult_cong mod_diff_cong) simp_all
    also have "\<dots> = rv mod ?q" unfolding rv by simp
    finally show ?thesis by (simp add: FQ_default_eq_iff)
  qed
  show ?thesis
    unfolding Point_add_generic[OF ov ng] Let_def Point.sel FQ_default_n d1 d2 i1 i2 e1 e2
    by (rule refl)
qed

lemma as_point_cert_aux:
  assumes c: "z * c = k * SNARK_SCALAR_FIELD + 1" "0 \<le> c" "c < SNARK_SCALAR_FIELD"
    and rx: "x * c = kx * SNARK_SCALAR_FIELD + rx"
  shows "FQ_mul (FQ_default x) (OFQ (FQ_default (inv_Q (z mod SNARK_SCALAR_FIELD))))
     = Inr (FQ_default rx)"
proof -
  let ?q = SNARK_SCALAR_FIELD
  have i: "inv_Q (z mod ?q) = c" by (rule inv_Q_mod_cert[OF c])
  have "(x mod ?q * (c mod ?q)) mod ?q = (x * c) mod ?q" by (simp add: mod_simps)
  also have "\<dots> = rx mod ?q" unfolding rx by simp
  finally show ?thesis by (simp add: FQ_mul_Q i FQ_default_eq_iff)
qed

lemma EtecPoint_as_point_cert:
  assumes c: "z * c = k * SNARK_SCALAR_FIELD + 1" "0 \<le> c" "c < SNARK_SCALAR_FIELD"
    and rx: "x * c = kx * SNARK_SCALAR_FIELD + rx"
    and ry: "y * c = ky * SNARK_SCALAR_FIELD + ry"
  shows "EtecPoint_as_point (EtecPoint (FQ_default x) (FQ_default y) t (FQ_default z))
     = Inr (Point (FQ_default rx) (FQ_default ry))"
  by (simp add: EtecPoint_as_point_def FQ_inv_Q as_point_cert_aux[OF c rx]
      as_point_cert_aux[OF c ry])

lemma ProjPoint_as_point_cert:
  assumes c: "z * c = k * SNARK_SCALAR_FIELD + 1" "0 \<le> c" "c < SNARK_SCALAR_FIELD"
    and rx: "x * c = kx * SNARK_SCALAR_FIELD + rx"
    and ry: "y * c = ky * SNARK_SCALAR_FIELD + ry"
  shows "ProjPoint_as_point (ProjPoint (FQ_default x) (FQ_default y) (FQ_default z))
     = Inr (Point (FQ_default rx) (FQ_default ry))"
proof -
  have "(z * c) mod SNARK_SCALAR_FIELD = 1" unfolding c(1) by simp
  then have "z mod SNARK_SCALAR_FIELD \<noteq> 0"
    by (metis mod_mult_left_eq mult_zero_left mod_0 zero_neq_one)
  then show ?thesis
    by (simp add: ProjPoint_as_point_def FQ_ne_int FQ_inv_Q as_point_cert_aux[OF c rx]
        as_point_cert_aux[OF c ry])
qed

lemma point_a_den_u:
  "(1 + JUBJUB_D * 17777552123799933955779906779655732241715742912184938656739573121738514868268 * 17777552123799933955779906779655732241715742912184938656739573121738514868268 * 2626589144620713026669568689430873010625803728049924121243784502389097019475 * 2626589144620713026669568689430873010625803728049924121243784502389097019475) * 7413155747917886164709282498393389464820114291565373912077634889166466888157
   = 124573372514327045175226087250712847751317398229157269547635820249467812754281152346572139304743959179699819235060619985074886340467963449462350279118824791507620007193863987990428350919720557912712838169204277116465860087437495960393367696870959861587255719750698516911181374613525652896383117203598954488668 * SNARK_SCALAR_FIELD + 1"
  by code_simp

lemma point_a_den_v:
  "(1 - JUBJUB_D * 17777552123799933955779906779655732241715742912184938656739573121738514868268 * 17777552123799933955779906779655732241715742912184938656739573121738514868268 * 2626589144620713026669568689430873010625803728049924121243784502389097019475 * 2626589144620713026669568689430873010625803728049924121243784502389097019475) * 21020400596374946661004378325658099932841373016462266002307610847082676947597
   = (- 353234477048195432933979838379585927054957692810826680567929196761173762701016753912088947224224051391739463319602366423170855076576272362183579026231627096524758358227155343249301012905952669518268972538110866447796295434693552659590474344542181350226751807997841458152015791920977350717589998747229588705012) * SNARK_SCALAR_FIELD + 1"
  by code_simp

lemma point_a_add: "Point_add point_a point_a = Inr point_a_double"
  unfolding point_a_def point_a_double_def
  by (rule Point_add_cert[OF _ point_a_den_u _ _ point_a_den_v, where ku = 31629063050509753204642641810849802208545915695493339247509719450498162002445918475451368787887210973757533952864012823772293688119642696856581312216755 and kv = "- 51202248974900150879726389548542945929381653304877799293106341272909596885218389006657393960872667775093783979233433050654308235003173095020699368018136194892"];
      code_simp)

lemma point_a_coords:
  "FQ_n (Point_x point_a) = 17777552123799933955779906779655732241715742912184938656739573121738514868268"
  "FQ_n (Point_y point_a) = 2626589144620713026669568689430873010625803728049924121243784502389097019475"
  unfolding point_a_def Point.sel FQ_default_n
  by (rule mod_pos_pos_trivial; simp add: SNARK_SCALAR_FIELD_def)+

lemma point_a_etec_double:
  "ebind (Point_as_etec point_a) (\<lambda>e. ebind (EtecPoint_double e) EtecPoint_as_point)
     = Inr point_a_double"
proof -
  define X :: int where "X = 17777552123799933955779906779655732241715742912184938656739573121738514868268"
  define Y :: int where "Y = 2626589144620713026669568689430873010625803728049924121243784502389097019475"
  define E where "E = (X + Y) * (X + Y) - X * X - Y * Y"
  define G where "G = JUBJUB_A * (X * X) + Y * Y"
  define F where "F = G - 2"
  define H where "H = JUBJUB_A * (X * X) - Y * Y"
  let ?e = "EtecPoint (FQ_default X) (FQ_default Y) (FQ_default (X * Y)) (FQ_default 1)"
  have pa: "point_a = Point (FQ_default X) (FQ_default Y)"
    by (simp add: point_a_def X_def Y_def)
  have Xr: "X mod SNARK_SCALAR_FIELD = X" and Yr: "Y mod SNARK_SCALAR_FIELD = Y"
    by (rule mod_pos_pos_trivial; simp add: X_def Y_def SNARK_SCALAR_FIELD_def)+
  have X0: "X \<noteq> 0" by (simp add: X_def)
  have ae: "Point_as_etec point_a = Inr ?e"
    by (simp add: pa Point_as_etec_def FQ_mul_Q Xr Yr)
  have ov: "EtecPoint_over_Q ?e" by (simp add: EtecPoint_over_Q_def)
  have ni: "\<not> (FQ_n (EtecPoint_x ?e) = 0 \<and> FQ_n (EtecPoint_y ?e) = 1 \<and>
            FQ_n (EtecPoint_t ?e) = 0 \<and> FQ_n (EtecPoint_z ?e) = 1)"
    using X0 by (simp add: Xr)
  have dbl: "EtecPoint_double ?e
      = Inr (EtecPoint (FQ_default (E * F)) (FQ_default (G * H))
                       (FQ_default (E * H)) (FQ_default (F * G)))"
    unfolding EtecPoint_double_generic[OF ov ni] E_def F_def G_def H_def
    by (simp add: Let_def Xr Yr)
  have ap: "EtecPoint_as_point (EtecPoint (FQ_default (E * F)) (FQ_default (G * H))
                       (FQ_default (E * H)) (FQ_default (F * G)))
      = Inr (Point (FQ_default 6890855772600357754907169075114257697580319025794532037257385534741338397365) (FQ_default 4338620300185947561074059802482547481416142213883829469920100239455078257889))"
    by (rule EtecPoint_as_point_cert[where c = 7671464699692858809389575333231530389717620746402214386505581318451236577740 and k = 996289405815783226806690643522327353078937171046020556577582421277006129247234402721993136673426541617694018845529053517633431158570173851364103733982207951771646274514343647957338226685901822286206055721142333873860102440898886812354629045467763313748175089701962764652583478662954838059865779994752342602818058547 and kx = 1745100944082083935880313501458466347523025024791620521369621405691388760894570238773018443691195727659267764622506188259168988785408016774159256663871901542478853079431314180710724070159140659513368610567613359990650644400714685407256712840116059664533584545497696584745754600093519589747107415767275722162155 and ky = 996289147981455751714119586734157296819534818365180575301746673091613709333477712461064374952738017524443968174036598940534644650644004811722712376586727488183902811737463265387168823742391020172063727355589474953115606403517897505437906154048348389720604443144427546666123595179489584724341726097939243375065435283];
        (unfold E_def F_def G_def H_def X_def Y_def)?; code_simp)
  show ?thesis
    by (simp add: ae dbl ap point_a_double_def)
qed

lemma point_a_proj_double:
  "ebind (Point_as_proj point_a) (\<lambda>e. ebind (ProjPoint_double e) ProjPoint_as_point)
     = Inr point_a_double"
proof -
  define X :: int where "X = 17777552123799933955779906779655732241715742912184938656739573121738514868268"
  define Y :: int where "Y = 2626589144620713026669568689430873010625803728049924121243784502389097019475"
  define B where "B = (X + Y) * (X + Y)"
  define E where "E = JUBJUB_A * (X * X)"
  define F where "F = E + Y * Y"
  define J where "J = F - 2"
  let ?e = "ProjPoint (FQ_default X) (FQ_default Y) (FQ_default 1)"
  have pa: "point_a = Point (FQ_default X) (FQ_default Y)"
    by (simp add: point_a_def X_def Y_def)
  have Xr: "X mod SNARK_SCALAR_FIELD = X" and Yr: "Y mod SNARK_SCALAR_FIELD = Y"
    by (rule mod_pos_pos_trivial; simp add: X_def Y_def SNARK_SCALAR_FIELD_def)+
  have X0: "X \<noteq> 0" by (simp add: X_def)
  have ae: "Point_as_proj point_a = Inr ?e"
    by (simp add: pa Point_as_proj_def)
  have ov: "ProjPoint_over_Q ?e" by (simp add: ProjPoint_over_Q_def)
  have ni: "\<not> (FQ_n (ProjPoint_x ?e) = 0 \<and> FQ_n (ProjPoint_y ?e) = 1 \<and>
            FQ_n (ProjPoint_z ?e) = 1)"
    using X0 by (simp add: Xr)
  have dbl: "ProjPoint_double ?e
      = Inr (ProjPoint (FQ_default ((B - X * X - Y * Y) * J)) (FQ_default (F * (E - Y * Y)))
                       (FQ_default (F * J)))"
    unfolding ProjPoint_double_generic[OF ov ni] B_def E_def F_def J_def
    by (simp add: Let_def Xr Yr)
  have ap: "ProjPoint_as_point (ProjPoint (FQ_default ((B - X * X - Y * Y) * J))
                       (FQ_default (F * (E - Y * Y))) (FQ_default (F * J)))
      = Inr (Point (FQ_default 6890855772600357754907169075114257697580319025794532037257385534741338397365) (FQ_default 4338620300185947561074059802482547481416142213883829469920100239455078257889))"
    by (rule ProjPoint_as_point_cert[where c = 7671464699692858809389575333231530389717620746402214386505581318451236577740 and k = 996289405815783226806690643522327353078937171046020556577582421277006129247234402721993136673426541617694018845529053517633431158570173851364103733982207951771646274514343647957338226685901822286206055721142333873860102440898886812354629045467763313748175089701962764652583478662954838059865779994752342602818058547 and kx = 1745100944082083935880313501458466347523025024791620521369621405691388760894570238773018443691195727659267764622506188259168988785408016774159256663871901542478853079431314180710724070159140659513368610567613359990650644400714685407256712840116059664533584545497696584745754600093519589747107415767275722162155 and ky = 996289147981455751714119586734157296819534818365180575301746673091613709333477712461064374952738017524443968174036598940534644650644004811722712376586727488183902811737463265387168823742391020172063727355589474953115606403517897505437906154048348389720604443144427546666123595179489584724341726097939243375065435283];
        (unfold B_def E_def F_def J_def X_def Y_def)?; code_simp)
  show ?thesis
    by (simp add: ae dbl ap point_a_double_def)
qed

subsection \<open>Valid points and the identity\<close>

lemma in_base_fieldD:
  assumes "in_base_field a"
  shows "FQ_m a = SNARK_SCALAR_FIELD" "0 \<le> FQ_n a" "FQ_n a < SNARK_SCALAR_FIELD"
    "FQ_n a mod SNARK_SCALAR_FIELD = FQ_n a" "FQ_default (FQ_n a) = a"
  using assms by (simp_all add: in_base_field_def FQ_valid_def FQ_default_def)

lemma in_base_field_default [simp]: "in_base_field (FQ_default i)"
  using SNARK_pos by (simp add: in_base_field_def FQ_valid_def)

lemma FQ_default_eq_dvd:
  "FQ_default a = FQ_default b \<longleftrightarrow> SNARK_SCALAR_FIELD dvd (a - b)"
  by (simp add: FQ_default_eq_iff mod_eq_dvd_iff)

lemma mod_Q_eq_dvd:
  "a mod SNARK_SCALAR_FIELD = b mod SNARK_SCALAR_FIELD \<longleftrightarrow> SNARK_SCALAR_FIELD dvd (a - b)"
  by (simp add: mod_eq_dvd_iff)

lemma Point_valid_Q:
  "Point_over_Q p \<Longrightarrow>
   Point_valid p =
     (let x = FQ_n (Point_x p); y = FQ_n (Point_y p)
      in Inr ((JUBJUB_A * (x * x) + y * y) mod SNARK_SCALAR_FIELD
              = (1 + JUBJUB_D * (x * x) * (y * y)) mod SNARK_SCALAR_FIELD))"
  by (simp add: Point_valid_def Point_over_Q_def FQ_ops_Q Let_def mod_simps)

lemma ProjPoint_as_point_Q:
  "ProjPoint_over_Q p \<Longrightarrow>
   ProjPoint_as_point p =
     (if FQ_n (ProjPoint_z p) = 0 then Inl AssertionError
      else Inr (Point (FQ_default (FQ_n (ProjPoint_x p) * inv_Q (FQ_n (ProjPoint_z p))))
                      (FQ_default (FQ_n (ProjPoint_y p) * inv_Q (FQ_n (ProjPoint_z p))))))"
  by (simp add: ProjPoint_as_point_def ProjPoint_over_Q_def FQ_ops_Q FQ_default_eq_iff mod_simps)

lemma EtecPoint_as_point_Q:
  "EtecPoint_over_Q p \<Longrightarrow>
   EtecPoint_as_point p =
     Inr (Point (FQ_default (FQ_n (EtecPoint_x p) * inv_Q (FQ_n (EtecPoint_z p))))
                (FQ_default (FQ_n (EtecPoint_y p) * inv_Q (FQ_n (EtecPoint_z p)))))"
  by (simp add: EtecPoint_as_point_def EtecPoint_over_Q_def FQ_ops_Q FQ_default_eq_iff mod_simps)

lemma wf_over_Q:
  "Point_wf p \<Longrightarrow> Point_over_Q p"
  "ProjPoint_wf pp \<Longrightarrow> ProjPoint_over_Q pp"
  "EtecPoint_wf ep \<Longrightarrow> EtecPoint_over_Q ep"
  by (simp_all add: Point_wf_def Point_over_Q_def ProjPoint_wf_def ProjPoint_over_Q_def
      EtecPoint_wf_def EtecPoint_over_Q_def in_base_field_def)

lemma inv_Q_unit_dvd:
  "coprime a SNARK_SCALAR_FIELD \<Longrightarrow> SNARK_SCALAR_FIELD dvd (a * inv_Q a - 1)"
  using inv_Q_unit[of a] mod_Q_eq_dvd[of "a * inv_Q a" 1] by simp

lemma inv_Q_mod_unit_dvd:
  assumes "coprime a SNARK_SCALAR_FIELD"
  shows "SNARK_SCALAR_FIELD dvd (a * inv_Q (a mod SNARK_SCALAR_FIELD) - 1)"
proof -
  let ?q = SNARK_SCALAR_FIELD
  have "coprime (a mod ?q) ?q" using assms by (simp add: coprime_mod_left_iff)
  then have "((a mod ?q) * inv_Q (a mod ?q)) mod ?q = 1" by (rule inv_Q_unit)
  then have "(a * inv_Q (a mod ?q)) mod ?q = 1 mod ?q" by (simp add: mod_simps)
  then show ?thesis by (simp only: mod_Q_eq_dvd)
qed

text \<open>A point that passes \<open>valid\<close> after division by \<open>z\<close> has an invertible \<open>z\<close>.\<close>

lemma valid_imp_unit:
  assumes z: "0 \<le> z" "z < SNARK_SCALAR_FIELD"
    and v: "(JUBJUB_A * ((x * inv_Q z) * (x * inv_Q z)) + (y * inv_Q z) * (y * inv_Q z))
              mod SNARK_SCALAR_FIELD
          = (1 + JUBJUB_D * ((x * inv_Q z) * (x * inv_Q z)) * ((y * inv_Q z) * (y * inv_Q z)))
              mod SNARK_SCALAR_FIELD"
  shows "coprime z SNARK_SCALAR_FIELD"
proof -
  let ?q = SNARK_SCALAR_FIELD
  define i where "i = inv_Q z"
  define w where "w = JUBJUB_A * x * x * i + y * y * i - JUBJUB_D * x * x * y * y * i * i * i"
  from v have "?q dvd (JUBJUB_A * ((x * i) * (x * i)) + (y * i) * (y * i))
      - (1 + JUBJUB_D * ((x * i) * (x * i)) * ((y * i) * (y * i)))"
    unfolding i_def by (simp only: mod_Q_eq_dvd)
  then have "?q dvd (i * w - 1)"
    unfolding w_def by algebra
  then have "(i * w) mod ?q = 1 mod ?q" by (simp only: mod_Q_eq_dvd)
  then have iw: "(i * w) mod ?q = 1" by simp
  have ci: "coprime i ?q" by (rule coprime_if_inverse[OF iw])
  show ?thesis
  proof (rule inv_Q_cases[of z])
    assume "coprime z ?q"
    then show ?thesis .
  next
    assume nz: "(z * inv_Q z) mod ?q = 0"
    then have "?q dvd z * i" by (simp add: i_def mod_eq_0_iff_dvd)
    then have "?q dvd z" using ci by (simp add: coprime_dvd_mult_left_iff coprime_commute)
    then have "z = 0" using z by (simp add: zdvd_not_zless dvd_def) (metis z zdvd_not_zless dvd_def less_le)
    then have "i = 0" by (simp add: i_def)
    with ci have "is_unit ?q" by simp
    then show ?thesis using SNARK_gt1 by simp
  qed
qed

lemma Point_valid_on_curve:
  "Point_over_Q p \<Longrightarrow> Point_valid p = Inr (on_curve (FQ_n (Point_x p)) (FQ_n (Point_y p)))"
  by (simp add: Point_valid_Q Let_def on_curve_def mod_Q_eq_dvd)

lemma on_curve_mod:
  "on_curve (a mod SNARK_SCALAR_FIELD) (b mod SNARK_SCALAR_FIELD) = on_curve a b"
proof -
  let ?q = SNARK_SCALAR_FIELD
  have l: "(JUBJUB_A * ((a mod ?q) * (a mod ?q)) + (b mod ?q) * (b mod ?q)) mod ?q
      = (JUBJUB_A * (a * a) + b * b) mod ?q"
    by (intro mod_add_cong mod_mult_cong) simp_all
  have r: "(1 + JUBJUB_D * ((a mod ?q) * (a mod ?q)) * ((b mod ?q) * (b mod ?q))) mod ?q
      = (1 + JUBJUB_D * (a * a) * (b * b)) mod ?q"
    by (intro mod_add_cong mod_mult_cong) simp_all
  show ?thesis
    unfolding on_curve_def mod_Q_eq_dvd[symmetric] l r ..
qed

lemma not_on_curve_zero: "\<not> on_curve 0 0"
  using SNARK_gt1 by (simp add: on_curve_def zdvd_not_zless)

lemma on_curve_imp_unit:
  assumes "0 \<le> z" "z < SNARK_SCALAR_FIELD" "on_curve (x * inv_Q z) (y * inv_Q z)"
  shows "coprime z SNARK_SCALAR_FIELD"
  using assms(3) unfolding on_curve_def mod_Q_eq_dvd[symmetric]
  by (rule valid_imp_unit[OF assms(1,2)])

lemma Point_add_infinity_right:
  assumes "Point_wf p" "\<not> (FQ_n (Point_x p) = 0 \<and> FQ_n (Point_y p) = 0)"
  shows "Point_add p Point_infinity = Inr p"
proof -
  have x: "in_base_field (Point_x p)" and y: "in_base_field (Point_y p)"
    using assms(1) by (simp_all add: Point_wf_def)
  show ?thesis
    unfolding Point_add_generic[OF wf_over_Q(1)[OF assms(1)] Point_infinity_over_Q assms(2)]
    by (cases p) (use x y in \<open>simp add: Let_def Point_infinity_def in_base_fieldD\<close>)
qed

lemma Point_add_infinity_left:
  assumes "Point_wf p"
  shows "Point_add Point_infinity p = Inr p"
proof -
  have x: "in_base_field (Point_x p)" and y: "in_base_field (Point_y p)"
    using assms(1) by (simp_all add: Point_wf_def)
  have ng: "\<not> (FQ_n (Point_x Point_infinity) = 0 \<and> FQ_n (Point_y Point_infinity) = 0)"
    by (simp add: Point_infinity_def)
  show ?thesis
    unfolding Point_add_generic[OF Point_infinity_over_Q wf_over_Q(1)[OF assms(1)] ng]
    by (cases p) (use x y in \<open>simp add: Let_def Point_infinity_def in_base_fieldD\<close>)
qed

lemma ProjPoint_add_infinity_left: "ProjPoint_add ProjPoint_infinity pp = Inr pp"
  by (simp add: ProjPoint_add_def ProjPoint_eq_infinity) (simp add: ProjPoint_infinity_def)

lemma EtecPoint_add_infinity_left: "EtecPoint_add EtecPoint_infinity ep = Inr ep"
  by (simp add: EtecPoint_add_def EtecPoint_eq_infinity) (simp add: EtecPoint_infinity_def)

lemma ProjPoint_is_infinity:
  assumes "ProjPoint_wf pp"
    and "FQ_n (ProjPoint_x pp) = 0 \<and> FQ_n (ProjPoint_y pp) = 1 \<and> FQ_n (ProjPoint_z pp) = 1"
  shows "pp = ProjPoint_infinity"
proof -
  have "in_base_field (ProjPoint_x pp)" "in_base_field (ProjPoint_y pp)"
    "in_base_field (ProjPoint_z pp)"
    using assms(1) by (simp_all add: ProjPoint_wf_def)
  from this[THEN in_base_fieldD(5)] assms(2) show ?thesis
    by (cases pp) (simp add: ProjPoint_infinity_def)
qed

lemma EtecPoint_is_infinity:
  assumes "EtecPoint_wf ep"
    and "FQ_n (EtecPoint_x ep) = 0 \<and> FQ_n (EtecPoint_y ep) = 1 \<and>
         FQ_n (EtecPoint_t ep) = 0 \<and> FQ_n (EtecPoint_z ep) = 1"
  shows "ep = EtecPoint_infinity"
proof -
  have "in_base_field (EtecPoint_x ep)" "in_base_field (EtecPoint_y ep)"
    "in_base_field (EtecPoint_t ep)" "in_base_field (EtecPoint_z ep)"
    using assms(1) by (simp_all add: EtecPoint_wf_def)
  from this[THEN in_base_fieldD(5)] assms(2) show ?thesis
    by (cases ep) (simp add: EtecPoint_infinity_def)
qed

lemma ProjPoint_valid_unit:
  assumes wf: "ProjPoint_wf pp" and v: "ProjPoint_valid pp = Inr True"
  shows "coprime (FQ_n (ProjPoint_z pp)) SNARK_SCALAR_FIELD"
    and "FQ_n (ProjPoint_z pp) \<noteq> 0"
    and "on_curve (FQ_n (ProjPoint_x pp) * inv_Q (FQ_n (ProjPoint_z pp)))
                  (FQ_n (ProjPoint_y pp) * inv_Q (FQ_n (ProjPoint_z pp)))"
proof -
  have z: "in_base_field (ProjPoint_z pp)" using wf by (simp add: ProjPoint_wf_def)
  have ov: "ProjPoint_over_Q pp" by (rule wf_over_Q(2)[OF wf])
  show nz: "FQ_n (ProjPoint_z pp) \<noteq> 0"
    using v by (auto simp: ProjPoint_valid_def ProjPoint_as_point_Q[OF ov])
  show oc: "on_curve (FQ_n (ProjPoint_x pp) * inv_Q (FQ_n (ProjPoint_z pp)))
                  (FQ_n (ProjPoint_y pp) * inv_Q (FQ_n (ProjPoint_z pp)))"
    using v nz
    by (simp add: ProjPoint_valid_def ProjPoint_as_point_Q[OF ov] Point_valid_on_curve
        Point_over_Q_def on_curve_mod)
  show "coprime (FQ_n (ProjPoint_z pp)) SNARK_SCALAR_FIELD"
    by (rule on_curve_imp_unit[OF in_base_fieldD(2,3)[OF z] oc])
qed

lemma EtecPoint_valid_unit:
  assumes wf: "EtecPoint_wf ep" and v: "EtecPoint_valid ep = Inr True"
  shows "coprime (FQ_n (EtecPoint_z ep)) SNARK_SCALAR_FIELD"
    and "FQ_n (EtecPoint_z ep) \<noteq> 0"
    and "on_curve (FQ_n (EtecPoint_x ep) * inv_Q (FQ_n (EtecPoint_z ep)))
                  (FQ_n (EtecPoint_y ep) * inv_Q (FQ_n (EtecPoint_z ep)))"
proof -
  have z: "in_base_field (EtecPoint_z ep)" using wf by (simp add: EtecPoint_wf_def)
  have ov: "EtecPoint_over_Q ep" by (rule wf_over_Q(3)[OF wf])
  show oc: "on_curve (FQ_n (EtecPoint_x ep) * inv_Q (FQ_n (EtecPoint_z ep)))
                  (FQ_n (EtecPoint_y ep) * inv_Q (FQ_n (EtecPoint_z ep)))"
    using v
    by (simp add: EtecPoint_valid_def EtecPoint_as_point_Q[OF ov] Point_valid_on_curve
        Point_over_Q_def on_curve_mod)
  show cp: "coprime (FQ_n (EtecPoint_z ep)) SNARK_SCALAR_FIELD"
    by (rule on_curve_imp_unit[OF in_base_fieldD(2,3)[OF z] oc])
  show "FQ_n (EtecPoint_z ep) \<noteq> 0"
    using cp SNARK_gt1 by auto
qed

lemma ProjPoint_add_infinity_right_tuple:
  assumes ov: "ProjPoint_over_Q pp"
    and ni: "\<not> (FQ_n (ProjPoint_x pp) = 0 \<and> FQ_n (ProjPoint_y pp) = 1 \<and>
              FQ_n (ProjPoint_z pp) = 1)"
  shows "ProjPoint_add pp ProjPoint_infinity =
    (let x = FQ_n (ProjPoint_x pp); y = FQ_n (ProjPoint_y pp); z = FQ_n (ProjPoint_z pp)
     in Inr (ProjPoint (FQ_default (z * z * z * x)) (FQ_default (z * z * z * y))
                       (FQ_default (z * z * z * z))))"
  unfolding ProjPoint_add_generic[OF ov ProjPoint_infinity_over_Q ni]
  by (simp add: Let_def ProjPoint_infinity_def FQ_default_eq_iff algebra_simps)

lemma EtecPoint_add_infinity_right_tuple:
  assumes ov: "EtecPoint_over_Q ep"
    and ni: "\<not> (FQ_n (EtecPoint_x ep) = 0 \<and> FQ_n (EtecPoint_y ep) = 1 \<and>
              FQ_n (EtecPoint_t ep) = 0 \<and> FQ_n (EtecPoint_z ep) = 1)"
    and nz: "FQ_n (EtecPoint_z ep) \<noteq> 0"
  shows "EtecPoint_add ep EtecPoint_infinity =
    (let x = FQ_n (EtecPoint_x ep); y = FQ_n (EtecPoint_y ep); z = FQ_n (EtecPoint_z ep)
     in Inr (EtecPoint (FQ_default (x * z)) (FQ_default (z * y))
                       (FQ_default (x * y)) (FQ_default (z * z))))"
proof -
  have n1: "FQ_n (EtecPoint_z EtecPoint_infinity) \<noteq> 0"
    by (simp add: EtecPoint_infinity_def)
  show ?thesis
    unfolding EtecPoint_add_generic[OF ov EtecPoint_infinity_over_Q ni nz n1]
    by (simp add: Let_def EtecPoint_infinity_def FQ_default_eq_iff algebra_simps)
qed

lemma FQ_default_mod_mult_left:
  "FQ_default ((a mod SNARK_SCALAR_FIELD) * b) = FQ_default (a * b)"
  by (simp add: FQ_default_eq_iff mod_simps)

text \<open>
  Two coordinate vectors that agree after cross-multiplication, both with an invertible
  \<open>Z\<close>, give the same affine coordinate.
\<close>

lemma affine_coord_eq:
  assumes Z: "coprime Z SNARK_SCALAR_FIELD" and Z': "coprime Z' SNARK_SCALAR_FIELD"
    and cross: "SNARK_SCALAR_FIELD dvd (X' * Z - X * Z')"
  shows "FQ_default ((X' mod SNARK_SCALAR_FIELD) * inv_Q (Z' mod SNARK_SCALAR_FIELD))
       = FQ_default ((X mod SNARK_SCALAR_FIELD) * inv_Q (Z mod SNARK_SCALAR_FIELD))"
proof -
  let ?q = SNARK_SCALAR_FIELD
  define i where "i = inv_Q (Z mod ?q)"
  define j where "j = inv_Q (Z' mod ?q)"
  have i: "?q dvd (Z * i - 1)" unfolding i_def by (rule inv_Q_mod_unit_dvd[OF Z])
  have j: "?q dvd (Z' * j - 1)" unfolding j_def by (rule inv_Q_mod_unit_dvd[OF Z'])
  have "?q dvd (X' * j - X * i)"
    using i j cross by algebra
  then have "FQ_default (X' * j) = FQ_default (X * i)"
    by (simp only: FQ_default_eq_dvd)
  then show ?thesis
    by (simp only: FQ_default_mod_mult_left i_def j_def)
qed

lemma ProjPoint_add_infinity_right_affine:
  assumes wf: "ProjPoint_wf pp" and v: "ProjPoint_valid pp = Inr True"
  shows "\<exists>s a. ProjPoint_add pp ProjPoint_infinity = Inr s \<and>
               ProjPoint_as_point s = Inr a \<and> ProjPoint_as_point pp = Inr a"
proof (cases "FQ_n (ProjPoint_x pp) = 0 \<and> FQ_n (ProjPoint_y pp) = 1 \<and> FQ_n (ProjPoint_z pp) = 1")
  case True
  have ov: "ProjPoint_over_Q pp" by (rule wf_over_Q(2)[OF wf])
  have "pp = ProjPoint_infinity" by (rule ProjPoint_is_infinity[OF wf True])
  then have "ProjPoint_add pp ProjPoint_infinity = Inr pp"
    by (simp add: ProjPoint_add_infinity_left)
  moreover have "\<exists>a. ProjPoint_as_point pp = Inr a"
    using True by (simp add: ProjPoint_as_point_Q[OF ov])
  ultimately show ?thesis by auto
next
  case False
  let ?q = SNARK_SCALAR_FIELD
  define x y z where "x = FQ_n (ProjPoint_x pp)" and "y = FQ_n (ProjPoint_y pp)"
    and "z = FQ_n (ProjPoint_z pp)"
  have ov: "ProjPoint_over_Q pp" by (rule wf_over_Q(2)[OF wf])
  have ib: "in_base_field (ProjPoint_x pp)" "in_base_field (ProjPoint_y pp)"
    "in_base_field (ProjPoint_z pp)"
    using wf by (simp_all add: ProjPoint_wf_def)
  have red: "x mod ?q = x" "y mod ?q = y" "z mod ?q = z"
    unfolding x_def y_def z_def by (rule in_base_fieldD(4)[OF ib(1)]
        in_base_fieldD(4)[OF ib(2)] in_base_fieldD(4)[OF ib(3)])+
  have cz: "coprime z ?q" and nz: "z \<noteq> 0"
    unfolding z_def by (rule ProjPoint_valid_unit[OF wf v])+
  have cz4: "coprime (z * z * z * z) ?q" using cz by simp
  let ?s = "ProjPoint (FQ_default (z * z * z * x)) (FQ_default (z * z * z * y))
                      (FQ_default (z * z * z * z))"
  have s: "ProjPoint_add pp ProjPoint_infinity = Inr ?s"
    unfolding ProjPoint_add_infinity_right_tuple[OF ov False] Let_def x_def y_def z_def ..
  have nz4: "(z * z * z * z) mod ?q \<noteq> 0"
  proof
    assume "(z * z * z * z) mod ?q = 0"
    then have "coprime 0 ?q" using cz4 by (metis coprime_mod_left_iff SNARK_nonzero)
    then show False using SNARK_gt1 by simp
  qed
  have ex: "FQ_default ((z * z * z * x) mod ?q * inv_Q ((z * z * z * z) mod ?q))
      = FQ_default (x mod ?q * inv_Q (z mod ?q))"
    by (rule affine_coord_eq[OF cz cz4]) (simp add: algebra_simps)
  have ey: "FQ_default ((z * z * z * y) mod ?q * inv_Q ((z * z * z * z) mod ?q))
      = FQ_default (y mod ?q * inv_Q (z mod ?q))"
    by (rule affine_coord_eq[OF cz cz4]) (simp add: algebra_simps)
  have as: "ProjPoint_as_point ?s
      = Inr (Point (FQ_default (x * inv_Q z)) (FQ_default (y * inv_Q z)))"
    using nz4 ex ey by (simp add: ProjPoint_as_point_Q ProjPoint_over_Q_def red)
  have ap: "ProjPoint_as_point pp
      = Inr (Point (FQ_default (x * inv_Q z)) (FQ_default (y * inv_Q z)))"
    using nz by (simp add: ProjPoint_as_point_Q[OF ov] x_def y_def z_def)
  show ?thesis using s as ap by blast
qed

lemma EtecPoint_add_infinity_right_affine:
  assumes wf: "EtecPoint_wf ep" and v: "EtecPoint_valid ep = Inr True"
  shows "\<exists>s a. EtecPoint_add ep EtecPoint_infinity = Inr s \<and>
               EtecPoint_as_point s = Inr a \<and> EtecPoint_as_point ep = Inr a"
proof (cases "FQ_n (EtecPoint_x ep) = 0 \<and> FQ_n (EtecPoint_y ep) = 1 \<and>
              FQ_n (EtecPoint_t ep) = 0 \<and> FQ_n (EtecPoint_z ep) = 1")
  case True
  have ov: "EtecPoint_over_Q ep" by (rule wf_over_Q(3)[OF wf])
  have "ep = EtecPoint_infinity" by (rule EtecPoint_is_infinity[OF wf True])
  then have "EtecPoint_add ep EtecPoint_infinity = Inr ep"
    by (simp add: EtecPoint_add_infinity_left)
  moreover have "\<exists>a. EtecPoint_as_point ep = Inr a"
    by (simp add: EtecPoint_as_point_Q[OF ov])
  ultimately show ?thesis by auto
next
  case False
  let ?q = SNARK_SCALAR_FIELD
  define x y z where "x = FQ_n (EtecPoint_x ep)" and "y = FQ_n (EtecPoint_y ep)"
    and "z = FQ_n (EtecPoint_z ep)"
  have ov: "EtecPoint_over_Q ep" by (rule wf_over_Q(3)[OF wf])
  have ib: "in_base_field (EtecPoint_x ep)" "in_base_field (EtecPoint_y ep)"
    "in_base_field (EtecPoint_z ep)"
    using wf by (simp_all add: EtecPoint_wf_def)
  have red: "x mod ?q = x" "y mod ?q = y" "z mod ?q = z"
    unfolding x_def y_def z_def by (rule in_base_fieldD(4)[OF ib(1)]
        in_base_fieldD(4)[OF ib(2)] in_base_fieldD(4)[OF ib(3)])+
  have cz: "coprime z ?q" and nz: "z \<noteq> 0"
    unfolding z_def by (rule EtecPoint_valid_unit[OF wf v])+
  have cz2: "coprime (z * z) ?q" using cz by simp
  let ?s = "EtecPoint (FQ_default (x * z)) (FQ_default (z * y))
                      (FQ_default (x * y)) (FQ_default (z * z))"
  have s: "EtecPoint_add ep EtecPoint_infinity = Inr ?s"
    unfolding EtecPoint_add_infinity_right_tuple[OF ov False nz[unfolded z_def]]
      Let_def x_def y_def z_def ..
  have ex: "FQ_default ((x * z) mod ?q * inv_Q ((z * z) mod ?q))
      = FQ_default (x mod ?q * inv_Q (z mod ?q))"
    by (rule affine_coord_eq[OF cz cz2]) (simp add: algebra_simps)
  have ey: "FQ_default ((z * y) mod ?q * inv_Q ((z * z) mod ?q))
      = FQ_default (y mod ?q * inv_Q (z mod ?q))"
    by (rule affine_coord_eq[OF cz cz2]) (simp add: algebra_simps)
  have as: "EtecPoint_as_point ?s
      = Inr (Point (FQ_default (x * inv_Q z)) (FQ_default (y * inv_Q z)))"
    using ex ey by (simp add: EtecPoint_as_point_Q EtecPoint_over_Q_def red)
  have ap: "EtecPoint_as_point ep
      = Inr (Point (FQ_default (x * inv_Q z)) (FQ_default (y * inv_Q z)))"
    by (simp add: EtecPoint_as_point_Q[OF ov] x_def y_def z_def)
  show ?thesis using s as ap by blast
qed

lemma small_mod_Q:
  "(2::int) mod SNARK_SCALAR_FIELD = 2" "(16::int) mod SNARK_SCALAR_FIELD = 16"
  "(4::int) mod SNARK_SCALAR_FIELD = 4"
  by (rule mod_pos_pos_trivial; simp add: SNARK_SCALAR_FIELD_def)+

lemma Point_valid_identity_like:
  "Point_valid (Point (FQ_default 0) (FQ_default 1)) = Inr True"
  "Point_valid (Point (FQ_default 0) (FQ_default (- 1))) = Inr True"
  by (simp_all add: Point_valid_on_curve Point_over_Q_def on_curve_mod[of 0 "- 1", simplified])
     (simp_all add: on_curve_def)

lemma ProjPoint_022_as_point:
  "ProjPoint_as_point (ProjPoint (FQ_default 0) (FQ_default 2) (FQ_default 2))
     = Inr (Point (FQ_default 0) (FQ_default 1))"
  by (rule ProjPoint_as_point_cert[where k = 1 and kx = 0 and ky = 1
        and c = 10944121435919637611123202872628637544274182200208017171849102093287904247809];
      code_simp)

lemma EtecPoint_0202_as_point:
  "EtecPoint_as_point (EtecPoint (FQ_default 0) (FQ_default 2) (FQ_default 0) (FQ_default 2))
     = Inr (Point (FQ_default 0) (FQ_default 1))"
  by (rule EtecPoint_as_point_cert[where k = 1 and kx = 0 and ky = 1
        and c = 10944121435919637611123202872628637544274182200208017171849102093287904247809];
      code_simp)

lemma ProjPoint_022_valid:
  "ProjPoint_valid (ProjPoint (FQ_default 0) (FQ_default 2) (FQ_default 2)) = Inr True"
  by (simp add: ProjPoint_valid_def ProjPoint_022_as_point Point_valid_identity_like)

lemma EtecPoint_0202_valid:
  "EtecPoint_valid (EtecPoint (FQ_default 0) (FQ_default 2) (FQ_default 0) (FQ_default 2))
     = Inr True"
  by (simp add: EtecPoint_valid_def EtecPoint_0202_as_point Point_valid_identity_like)

subsection \<open>Doubling against adding a point to itself\<close>

text \<open>The curve equation in projective and in extended coordinates.\<close>

lemma on_curve_projective:
  assumes cz: "coprime z SNARK_SCALAR_FIELD"
    and oc: "on_curve (x * inv_Q z) (y * inv_Q z)"
  shows "SNARK_SCALAR_FIELD dvd
           (z * z * (JUBJUB_A * (x * x) + y * y) - (z * z * z * z + JUBJUB_D * (x * x) * (y * y)))"
proof -
  define i where "i = inv_Q z"
  have i: "SNARK_SCALAR_FIELD dvd (z * i - 1)"
    unfolding i_def by (rule inv_Q_unit_dvd[OF cz])
  from oc have "SNARK_SCALAR_FIELD dvd
      (JUBJUB_A * ((x * i) * (x * i)) + (y * i) * (y * i)
        - (1 + JUBJUB_D * ((x * i) * (x * i)) * ((y * i) * (y * i))))"
    by (simp only: on_curve_def i_def)
  with i show ?thesis by algebra
qed

lemma on_curve_extended:
  assumes cz: "coprime z SNARK_SCALAR_FIELD"
    and oc: "on_curve (x * inv_Q z) (y * inv_Q z)"
    and tz: "SNARK_SCALAR_FIELD dvd (t * z - x * y)"
  shows "SNARK_SCALAR_FIELD dvd
           (JUBJUB_A * (x * x) + y * y - (z * z + JUBJUB_D * (t * t)))"
proof -
  define i where "i = inv_Q z"
  have i: "SNARK_SCALAR_FIELD dvd (z * i - 1)"
    unfolding i_def by (rule inv_Q_unit_dvd[OF cz])
  from oc have "SNARK_SCALAR_FIELD dvd
      (JUBJUB_A * ((x * i) * (x * i)) + (y * i) * (y * i)
        - (1 + JUBJUB_D * ((x * i) * (x * i)) * ((y * i) * (y * i))))"
    by (simp only: on_curve_def i_def)
  with i tz show ?thesis by algebra
qed

text \<open>Doubling against adding a point to itself, coordinate by coordinate.\<close>

lemma etec_double_add_coords:
  fixes x y z t :: int
  assumes r: "q dvd (a * (x * x) + y * y - (z * z + d * (t * t)))"
  defines "e \<equiv> (x + y) * (x + y) - x * x - y * y"
    and "g \<equiv> a * (x * x) + y * y" and "h \<equiv> a * (x * x) - y * y"
    and "f' \<equiv> z * z - d * t * t" and "g' \<equiv> z * z + d * t * t" and "h' \<equiv> y * y - a * (x * x)"
  defines "f \<equiv> g - z * z * 2"
  shows "q dvd (- 1 * (e * f) - e * f')" "q dvd (- 1 * (g * h) - g' * h')"
    "q dvd (- 1 * (e * h) - e * h')" "q dvd (- 1 * (f * g) - f' * g')"
proof -
  show "q dvd (- 1 * (e * f) - e * f')"
    using r unfolding e_def g_def h_def f'_def g'_def h'_def f_def by algebra
  show "q dvd (- 1 * (g * h) - g' * h')"
    using r unfolding e_def g_def h_def f'_def g'_def h'_def f_def by algebra
  have "- 1 * (e * h) - e * h' = 0"
    unfolding h_def h'_def by (simp add: algebra_simps)
  then show "q dvd (- 1 * (e * h) - e * h')" by simp
  show "q dvd (- 1 * (f * g) - f' * g')"
    using r unfolding e_def g_def h_def f'_def g'_def h'_def f_def by algebra
qed

lemma proj_double_add_coords:
  fixes x y z :: int
  assumes r: "q dvd (z * z * (a * (x * x) + y * y) - (z * z * z * z + d' * (x * x) * (y * y)))"
  defines "b \<equiv> (x + y) * (x + y)" and "e \<equiv> a * (x * x)"
  defines "f \<equiv> e + y * y"
  defines "j \<equiv> f - 2 * (z * z)"
  defines "a2 \<equiv> z * z" and "c2 \<equiv> x * x" and "d2 \<equiv> y * y"
  defines "b2 \<equiv> a2 * a2" and "e2 \<equiv> d' * (c2 * d2)"
  defines "f2 \<equiv> b2 - e2" and "g2 \<equiv> b2 + e2"
  shows "q dvd (- (z * z * z * z) * ((b - x * x - y * y) * j)
                 - a2 * (f2 * ((x + y) * (x + y) - c2 - d2)))"
    "q dvd (- (z * z * z * z) * (f * (e - y * y)) - a2 * (g2 * (d2 - a * c2)))"
    "q dvd (- (z * z * z * z) * (f * j) - f2 * g2)"
proof -
  show "q dvd (- (z * z * z * z) * ((b - x * x - y * y) * j)
                 - a2 * (f2 * ((x + y) * (x + y) - c2 - d2)))"
    using r unfolding b_def e_def f_def j_def a2_def c2_def d2_def b2_def e2_def f2_def g2_def
    by algebra
  show "q dvd (- (z * z * z * z) * (f * (e - y * y)) - a2 * (g2 * (d2 - a * c2)))"
    using r unfolding b_def e_def f_def j_def a2_def c2_def d2_def b2_def e2_def f2_def g2_def
    by algebra
  show "q dvd (- (z * z * z * z) * (f * j) - f2 * g2)"
    using r unfolding b_def e_def f_def j_def a2_def c2_def d2_def b2_def e2_def f2_def g2_def
    by algebra
qed

lemma coprime_cong_Q:
  assumes "SNARK_SCALAR_FIELD dvd (a - b)" "coprime a SNARK_SCALAR_FIELD"
  shows "coprime b SNARK_SCALAR_FIELD"
proof -
  have "a mod SNARK_SCALAR_FIELD = b mod SNARK_SCALAR_FIELD"
    using assms(1) by (simp only: mod_Q_eq_dvd)
  then have "coprime (b mod SNARK_SCALAR_FIELD) SNARK_SCALAR_FIELD"
    using assms(2) by (metis coprime_mod_left_iff SNARK_nonzero)
  then show ?thesis by (simp add: coprime_mod_left_iff)
qed

lemma zero_cong_Q:
  assumes "SNARK_SCALAR_FIELD dvd (c * Z - Z')" "Z mod SNARK_SCALAR_FIELD = 0"
  shows "Z' mod SNARK_SCALAR_FIELD = 0"
proof -
  have "SNARK_SCALAR_FIELD dvd Z" using assms(2) by (simp add: mod_eq_0_iff_dvd)
  with assms(1) have "SNARK_SCALAR_FIELD dvd Z'" by algebra
  then show ?thesis by (simp add: mod_eq_0_iff_dvd)
qed

lemma affine_coord_scaled:
  assumes Z: "coprime Z SNARK_SCALAR_FIELD" and Z': "coprime Z' SNARK_SCALAR_FIELD"
    and X: "SNARK_SCALAR_FIELD dvd (c * X - X')" and ZZ: "SNARK_SCALAR_FIELD dvd (c * Z - Z')"
  shows "FQ_default ((X' mod SNARK_SCALAR_FIELD) * inv_Q (Z' mod SNARK_SCALAR_FIELD))
       = FQ_default ((X mod SNARK_SCALAR_FIELD) * inv_Q (Z mod SNARK_SCALAR_FIELD))"
proof (rule affine_coord_eq[OF Z Z'])
  show "SNARK_SCALAR_FIELD dvd (X' * Z - X * Z')"
    using X ZZ by algebra
qed

lemma FQ_default_scale:
  "FQ_mul (FQ_default c) (OFQ (FQ_default a)) = Inr (FQ_default (c * a))"
  by (simp add: FQ_mul_Q FQ_default_eq_iff mod_simps)

lemma EtecPoint_scale_default:
  "EtecPoint_scale (FQ_default c)
     (EtecPoint (FQ_default x) (FQ_default y) (FQ_default t) (FQ_default z))
   = Inr (EtecPoint (FQ_default (c * x)) (FQ_default (c * y))
                    (FQ_default (c * t)) (FQ_default (c * z)))"
  by (simp add: EtecPoint_scale_def FQ_default_scale)

lemma ProjPoint_scale_default:
  "ProjPoint_scale (FQ_default c) (ProjPoint (FQ_default x) (FQ_default y) (FQ_default z))
   = Inr (ProjPoint (FQ_default (c * x)) (FQ_default (c * y)) (FQ_default (c * z)))"
  by (simp add: ProjPoint_scale_def FQ_default_scale)

lemma unit_mod_nonzero:
  assumes "coprime Z SNARK_SCALAR_FIELD"
  shows "Z mod SNARK_SCALAR_FIELD \<noteq> 0"
proof
  assume "Z mod SNARK_SCALAR_FIELD = 0"
  then have "coprime 0 SNARK_SCALAR_FIELD"
    using assms by (metis coprime_mod_left_iff SNARK_nonzero)
  then show False using SNARK_gt1 by simp
qed

text \<open>
  Conversion to affine coordinates of two coordinate vectors, one of them the other
  multiplied by an invertible factor, when the \<open>Z\<close> of the first is zero or invertible.
\<close>

lemma EtecPoint_as_point_scaled:
  assumes zu: "zero_or_unit (FQ_default Z)"
    and c: "coprime c SNARK_SCALAR_FIELD"
    and X: "SNARK_SCALAR_FIELD dvd (c * X - X')"
    and Y: "SNARK_SCALAR_FIELD dvd (c * Y - Y')"
    and ZZ: "SNARK_SCALAR_FIELD dvd (c * Z - Z')"
  shows "EtecPoint_as_point
           (EtecPoint (FQ_default X') (FQ_default Y') (FQ_default T') (FQ_default Z'))
       = EtecPoint_as_point
           (EtecPoint (FQ_default X) (FQ_default Y) (FQ_default T) (FQ_default Z))"
proof -
  let ?q = SNARK_SCALAR_FIELD
  have ov: "EtecPoint_over_Q
              (EtecPoint (FQ_default X') (FQ_default Y') (FQ_default T') (FQ_default Z'))"
    "EtecPoint_over_Q (EtecPoint (FQ_default X) (FQ_default Y) (FQ_default T) (FQ_default Z))"
    by (simp_all add: EtecPoint_over_Q_def)
  from zu have "Z mod ?q = 0 \<or> coprime Z ?q"
    by (simp add: zero_or_unit_def coprime_mod_left_iff)
  then show ?thesis
  proof
    assume z0: "Z mod ?q = 0"
    then have z0': "Z' mod ?q = 0" by (rule zero_cong_Q[OF ZZ])
    show ?thesis
      by (simp add: EtecPoint_as_point_Q[OF ov(1)] EtecPoint_as_point_Q[OF ov(2)] z0 z0' inv_Q_0)
  next
    assume cz: "coprime Z ?q"
    have "coprime (c * Z) ?q" using c cz by simp
    then have cz': "coprime Z' ?q" by (rule coprime_cong_Q[OF ZZ])
    show ?thesis
      by (simp add: EtecPoint_as_point_Q[OF ov(1)] EtecPoint_as_point_Q[OF ov(2)]
          affine_coord_scaled[OF cz cz' X ZZ] affine_coord_scaled[OF cz cz' Y ZZ])
  qed
qed

lemma ProjPoint_as_point_scaled:
  assumes zu: "zero_or_unit (FQ_default Z)"
    and c: "coprime c SNARK_SCALAR_FIELD"
    and X: "SNARK_SCALAR_FIELD dvd (c * X - X')"
    and Y: "SNARK_SCALAR_FIELD dvd (c * Y - Y')"
    and ZZ: "SNARK_SCALAR_FIELD dvd (c * Z - Z')"
  shows "ProjPoint_as_point (ProjPoint (FQ_default X') (FQ_default Y') (FQ_default Z'))
       = ProjPoint_as_point (ProjPoint (FQ_default X) (FQ_default Y) (FQ_default Z))"
proof -
  let ?q = SNARK_SCALAR_FIELD
  have ov: "ProjPoint_over_Q (ProjPoint (FQ_default X') (FQ_default Y') (FQ_default Z'))"
    "ProjPoint_over_Q (ProjPoint (FQ_default X) (FQ_default Y) (FQ_default Z))"
    by (simp_all add: ProjPoint_over_Q_def)
  from zu have "Z mod ?q = 0 \<or> coprime Z ?q"
    by (simp add: zero_or_unit_def coprime_mod_left_iff)
  then show ?thesis
  proof
    assume z0: "Z mod ?q = 0"
    then have z0': "Z' mod ?q = 0" by (rule zero_cong_Q[OF ZZ])
    show ?thesis
      by (simp add: ProjPoint_as_point_Q[OF ov(1)] ProjPoint_as_point_Q[OF ov(2)] z0 z0')
  next
    assume cz: "coprime Z ?q"
    have "coprime (c * Z) ?q" using c cz by simp
    then have cz': "coprime Z' ?q" by (rule coprime_cong_Q[OF ZZ])
    note nz = unit_mod_nonzero[OF cz] unit_mod_nonzero[OF cz']
    show ?thesis
      by (simp add: ProjPoint_as_point_Q[OF ov(1)] ProjPoint_as_point_Q[OF ov(2)] nz
          affine_coord_scaled[OF cz cz' X ZZ] affine_coord_scaled[OF cz cz' Y ZZ])
  qed
qed

lemma EtecPoint_double_infinity: "EtecPoint_double EtecPoint_infinity = Inr EtecPoint_infinity"
  by (simp add: EtecPoint_double_def EtecPoint_eq_infinity) (simp add: EtecPoint_infinity_def)

lemma ProjPoint_double_infinity: "ProjPoint_double ProjPoint_infinity = Inr ProjPoint_infinity"
  by (simp add: ProjPoint_double_def ProjPoint_eq_infinity) (simp add: ProjPoint_infinity_def)

lemma EtecPoint_double_add:
  assumes wf: "EtecPoint_wf ep" and v: "EtecPoint_valid ep = Inr True"
    and tz: "(FQ_n (EtecPoint_t ep) * FQ_n (EtecPoint_z ep)) mod SNARK_SCALAR_FIELD
           = (FQ_n (EtecPoint_x ep) * FQ_n (EtecPoint_y ep)) mod SNARK_SCALAR_FIELD"
    and ne: "ep \<noteq> EtecPoint_infinity"
  shows "\<exists>d s. EtecPoint_double ep = Inr d \<and> EtecPoint_add ep ep = Inr s \<and>
           EtecPoint_scale (FQ_default (- 1)) d = Inr s \<and>
           (zero_or_unit (EtecPoint_z d) \<longrightarrow> EtecPoint_as_point d = EtecPoint_as_point s)"
proof -
  let ?q = SNARK_SCALAR_FIELD
  let ?x = "FQ_n (EtecPoint_x ep)" and ?y = "FQ_n (EtecPoint_y ep)"
  let ?t = "FQ_n (EtecPoint_t ep)" and ?z = "FQ_n (EtecPoint_z ep)"
  let ?e = "(?x + ?y) * (?x + ?y) - ?x * ?x - ?y * ?y"
  let ?g = "JUBJUB_A * (?x * ?x) + ?y * ?y"
  let ?h = "JUBJUB_A * (?x * ?x) - ?y * ?y"
  let ?f = "?g - ?z * ?z * 2"
  let ?f' = "?z * ?z - JUBJUB_D * ?t * ?t"
  let ?g' = "?z * ?z + JUBJUB_D * ?t * ?t"
  let ?h' = "?y * ?y - JUBJUB_A * (?x * ?x)"
  let ?d = "EtecPoint (FQ_default (?e * ?f)) (FQ_default (?g * ?h))
                      (FQ_default (?e * ?h)) (FQ_default (?f * ?g))"
  let ?s = "EtecPoint (FQ_default (?e * ?f')) (FQ_default (?g' * ?h'))
                      (FQ_default (?e * ?h')) (FQ_default (?f' * ?g'))"
  have ov: "EtecPoint_over_Q ep" by (rule wf_over_Q(3)[OF wf])
  have ni: "\<not> (?x = 0 \<and> ?y = 1 \<and> ?t = 0 \<and> ?z = 1)"
    using EtecPoint_is_infinity[OF wf] ne by blast
  note u = EtecPoint_valid_unit[OF wf v]
  have tz': "?q dvd (?t * ?z - ?x * ?y)"
    using tz by (simp only: mod_Q_eq_dvd)
  have r: "?q dvd (JUBJUB_A * (?x * ?x) + ?y * ?y - (?z * ?z + JUBJUB_D * (?t * ?t)))"
    by (rule on_curve_extended[OF u(1) u(3) tz'])
  note co = etec_double_add_coords[OF r]
  have d: "EtecPoint_double ep = Inr ?d"
    unfolding EtecPoint_double_generic[OF ov ni] Let_def ..
  have s: "EtecPoint_add ep ep = Inr ?s"
    unfolding EtecPoint_add_generic[OF ov ov ni u(2) u(2)] Let_def ..
  have sc: "EtecPoint_scale (FQ_default (- 1)) ?d = Inr ?s"
    unfolding EtecPoint_scale_default
    using co by (simp only: FQ_default_eq_dvd[symmetric])
  have ap: "EtecPoint_as_point ?s = EtecPoint_as_point ?d" if "zero_or_unit (FQ_default (?f * ?g))"
    by (rule EtecPoint_as_point_scaled[OF that _ co(1) co(2) co(4)]) simp
  show ?thesis
  proof (rule exI[of _ ?d], rule exI[of _ ?s], intro conjI impI)
    show "EtecPoint_double ep = Inr ?d" by (rule d)
    show "EtecPoint_add ep ep = Inr ?s" by (rule s)
    show "EtecPoint_scale (FQ_default (- 1)) ?d = Inr ?s" by (rule sc)
    assume "zero_or_unit (EtecPoint_z ?d)"
    then have "zero_or_unit (FQ_default (?f * ?g))" by (simp only: EtecPoint.sel)
    then show "EtecPoint_as_point ?d = EtecPoint_as_point ?s" by (rule ap[symmetric])
  qed
qed

lemma ProjPoint_double_add:
  assumes wf: "ProjPoint_wf pp" and v: "ProjPoint_valid pp = Inr True"
    and ne: "pp \<noteq> ProjPoint_infinity"
  shows "\<exists>d s. ProjPoint_double pp = Inr d \<and> ProjPoint_add pp pp = Inr s \<and>
           ProjPoint_scale (FQ_default (- (FQ_n (ProjPoint_z pp) * FQ_n (ProjPoint_z pp)
                      * FQ_n (ProjPoint_z pp) * FQ_n (ProjPoint_z pp)))) d = Inr s \<and>
           (zero_or_unit (ProjPoint_z d) \<longrightarrow> ProjPoint_as_point d = ProjPoint_as_point s)"
proof -
  let ?q = SNARK_SCALAR_FIELD
  let ?x = "FQ_n (ProjPoint_x pp)" and ?y = "FQ_n (ProjPoint_y pp)"
  let ?z = "FQ_n (ProjPoint_z pp)"
  let ?b = "(?x + ?y) * (?x + ?y)"
  let ?e = "JUBJUB_A * (?x * ?x)"
  let ?f = "?e + ?y * ?y"
  let ?j = "?f - 2 * (?z * ?z)"
  let ?a2 = "?z * ?z"
  let ?b2 = "?a2 * ?a2"
  let ?e2 = "JUBJUB_D * (?x * ?x * (?y * ?y))"
  let ?f2 = "?b2 - ?e2" and ?g2 = "?b2 + ?e2"
  let ?c = "- (?z * ?z * ?z * ?z)"
  let ?d = "ProjPoint (FQ_default ((?b - ?x * ?x - ?y * ?y) * ?j))
                      (FQ_default (?f * (?e - ?y * ?y))) (FQ_default (?f * ?j))"
  let ?s = "ProjPoint (FQ_default (?a2 * (?f2 * ((?x + ?y) * (?x + ?y) - ?x * ?x - ?y * ?y))))
                      (FQ_default (?a2 * (?g2 * (?y * ?y - JUBJUB_A * (?x * ?x)))))
                      (FQ_default (?f2 * ?g2))"
  have ov: "ProjPoint_over_Q pp" by (rule wf_over_Q(2)[OF wf])
  have ni: "\<not> (?x = 0 \<and> ?y = 1 \<and> ?z = 1)"
    using ProjPoint_is_infinity[OF wf] ne by blast
  note u = ProjPoint_valid_unit[OF wf v]
  have r: "?q dvd (?z * ?z * (JUBJUB_A * (?x * ?x) + ?y * ?y)
                    - (?z * ?z * ?z * ?z + JUBJUB_D * (?x * ?x) * (?y * ?y)))"
    by (rule on_curve_projective[OF u(1) u(3)])
  note co = proj_double_add_coords[OF r]
  have d: "ProjPoint_double pp = Inr ?d"
    unfolding ProjPoint_double_generic[OF ov ni] Let_def ..
  have s: "ProjPoint_add pp pp = Inr ?s"
    unfolding ProjPoint_add_generic[OF ov ov ni] Let_def ..
  have sc: "ProjPoint_scale (FQ_default ?c) ?d = Inr ?s"
    unfolding ProjPoint_scale_default
    using co by (simp only: FQ_default_eq_dvd[symmetric])
  have cc: "coprime ?c ?q" using u(1) by simp
  have ap: "ProjPoint_as_point ?s = ProjPoint_as_point ?d" if "zero_or_unit (FQ_default (?f * ?j))"
    by (rule ProjPoint_as_point_scaled[OF that cc co(1) co(2) co(3)])
  show ?thesis
  proof (rule exI[of _ ?d], rule exI[of _ ?s], intro conjI impI)
    show "ProjPoint_double pp = Inr ?d" by (rule d)
    show "ProjPoint_add pp pp = Inr ?s" by (rule s)
    show "ProjPoint_scale (FQ_default ?c) ?d = Inr ?s" by (rule sc)
    assume "zero_or_unit (ProjPoint_z ?d)"
    then have "zero_or_unit (FQ_default (?f * ?j))" by (simp only: ProjPoint.sel)
    then show "ProjPoint_as_point ?d = ProjPoint_as_point ?s" by (rule ap[symmetric])
  qed
qed

text \<open>The operations evaluated at the identity and at the identity in another scaling.\<close>

lemma mod_Q_neq:
  assumes "a \<noteq> b" "\<bar>a - b\<bar> < SNARK_SCALAR_FIELD"
  shows "a mod SNARK_SCALAR_FIELD \<noteq> b mod SNARK_SCALAR_FIELD"
proof
  assume "a mod SNARK_SCALAR_FIELD = b mod SNARK_SCALAR_FIELD"
  then have "SNARK_SCALAR_FIELD dvd (a - b)" by (simp only: mod_Q_eq_dvd)
  then have "SNARK_SCALAR_FIELD dvd \<bar>a - b\<bar>" by simp
  moreover have "0 < \<bar>a - b\<bar>" using assms(1) by simp
  ultimately show False using assms(2) by (meson zdvd_not_zless)
qed

lemma FQ_eq_default:
  "FQ_eq (FQ_default a) (OFQ (FQ_default b))
     = Inr (a mod SNARK_SCALAR_FIELD = b mod SNARK_SCALAR_FIELD)"
  by (auto simp: FQ_eq_def other_n_def)

lemma EtecPoint_0202_double:
  "EtecPoint_double (EtecPoint (FQ_default 0) (FQ_default 2) (FQ_default 0) (FQ_default 2))
     = Inr (EtecPoint (FQ_default 0) (FQ_default (- 16)) (FQ_default 0) (FQ_default (- 16)))"
proof -
  let ?e = "EtecPoint (FQ_default 0) (FQ_default 2) (FQ_default 0) (FQ_default 2)"
  have ov: "EtecPoint_over_Q ?e" by (simp add: EtecPoint_over_Q_def)
  have ni: "\<not> (FQ_n (EtecPoint_x ?e) = 0 \<and> FQ_n (EtecPoint_y ?e) = 1 \<and>
              FQ_n (EtecPoint_t ?e) = 0 \<and> FQ_n (EtecPoint_z ?e) = 1)"
    by (simp add: small_mod_Q)
  show ?thesis
    unfolding EtecPoint_double_generic[OF ov ni]
    by (simp add: Let_def small_mod_Q)
qed

lemma EtecPoint_0202_add:
  "EtecPoint_add (EtecPoint (FQ_default 0) (FQ_default 2) (FQ_default 0) (FQ_default 2))
                 (EtecPoint (FQ_default 0) (FQ_default 2) (FQ_default 0) (FQ_default 2))
     = Inr (EtecPoint (FQ_default 0) (FQ_default 16) (FQ_default 0) (FQ_default 16))"
proof -
  let ?e = "EtecPoint (FQ_default 0) (FQ_default 2) (FQ_default 0) (FQ_default 2)"
  have ov: "EtecPoint_over_Q ?e" by (simp add: EtecPoint_over_Q_def)
  have ni: "\<not> (FQ_n (EtecPoint_x ?e) = 0 \<and> FQ_n (EtecPoint_y ?e) = 1 \<and>
              FQ_n (EtecPoint_t ?e) = 0 \<and> FQ_n (EtecPoint_z ?e) = 1)"
    by (simp add: small_mod_Q)
  have nz: "FQ_n (EtecPoint_z ?e) \<noteq> 0" by (simp add: small_mod_Q)
  show ?thesis
    unfolding EtecPoint_add_generic[OF ov ov ni nz nz]
    by (simp add: Let_def small_mod_Q)
qed

lemma ProjPoint_022_double:
  "ProjPoint_double (ProjPoint (FQ_default 0) (FQ_default 2) (FQ_default 2))
     = Inr (ProjPoint (FQ_default 0) (FQ_default (- 16)) (FQ_default (- 16)))"
proof -
  let ?p = "ProjPoint (FQ_default 0) (FQ_default 2) (FQ_default 2)"
  have ov: "ProjPoint_over_Q ?p" by (simp add: ProjPoint_over_Q_def)
  have ni: "\<not> (FQ_n (ProjPoint_x ?p) = 0 \<and> FQ_n (ProjPoint_y ?p) = 1 \<and>
              FQ_n (ProjPoint_z ?p) = 1)"
    by (simp add: small_mod_Q)
  show ?thesis
    unfolding ProjPoint_double_generic[OF ov ni]
    by (simp add: Let_def small_mod_Q)
qed

lemma ProjPoint_022_add:
  "ProjPoint_add (ProjPoint (FQ_default 0) (FQ_default 2) (FQ_default 2))
                 (ProjPoint (FQ_default 0) (FQ_default 2) (FQ_default 2))
     = Inr (ProjPoint (FQ_default 0) (FQ_default 256) (FQ_default 256))"
proof -
  let ?p = "ProjPoint (FQ_default 0) (FQ_default 2) (FQ_default 2)"
  have ov: "ProjPoint_over_Q ?p" by (simp add: ProjPoint_over_Q_def)
  have ni: "\<not> (FQ_n (ProjPoint_x ?p) = 0 \<and> FQ_n (ProjPoint_y ?p) = 1 \<and>
              FQ_n (ProjPoint_z ?p) = 1)"
    by (simp add: small_mod_Q)
  show ?thesis
    unfolding ProjPoint_add_generic[OF ov ov ni]
    by (simp add: Let_def small_mod_Q)
qed

lemma EtecPoint_0111_as_point:
  "EtecPoint_as_point (EtecPoint (FQ_default 0) (FQ_default 1) (FQ_default 1) (FQ_default 1))
     = Inr (Point (FQ_default 0) (FQ_default 1))"
  by (rule EtecPoint_as_point_cert[where c = 1 and k = 0 and kx = 0 and ky = 0]; code_simp)

lemma EtecPoint_0111_valid:
  "EtecPoint_valid (EtecPoint (FQ_default 0) (FQ_default 1) (FQ_default 1) (FQ_default 1))
     = Inr True"
  by (simp add: EtecPoint_valid_def EtecPoint_0111_as_point Point_valid_identity_like)

lemma EtecPoint_0111_double:
  "EtecPoint_double (EtecPoint (FQ_default 0) (FQ_default 1) (FQ_default 1) (FQ_default 1))
     = Inr (EtecPoint (FQ_default 0) (FQ_default (- 1)) (FQ_default 0) (FQ_default (- 1)))"
proof -
  let ?e = "EtecPoint (FQ_default 0) (FQ_default 1) (FQ_default 1) (FQ_default 1)"
  have ov: "EtecPoint_over_Q ?e" by (simp add: EtecPoint_over_Q_def)
  have ni: "\<not> (FQ_n (EtecPoint_x ?e) = 0 \<and> FQ_n (EtecPoint_y ?e) = 1 \<and>
              FQ_n (EtecPoint_t ?e) = 0 \<and> FQ_n (EtecPoint_z ?e) = 1)"
    by (simp add: one_mod_Q)
  show ?thesis
    unfolding EtecPoint_double_generic[OF ov ni]
    by (simp add: Let_def one_mod_Q)
qed

lemma EtecPoint_0111_add:
  "EtecPoint_add (EtecPoint (FQ_default 0) (FQ_default 1) (FQ_default 1) (FQ_default 1))
                 (EtecPoint (FQ_default 0) (FQ_default 1) (FQ_default 1) (FQ_default 1))
     = Inr (EtecPoint (FQ_default 0) (FQ_default 168697) (FQ_default 0)
                      (FQ_default (- 28458340415)))"
proof -
  let ?e = "EtecPoint (FQ_default 0) (FQ_default 1) (FQ_default 1) (FQ_default 1)"
  have ov: "EtecPoint_over_Q ?e" by (simp add: EtecPoint_over_Q_def)
  have ni: "\<not> (FQ_n (EtecPoint_x ?e) = 0 \<and> FQ_n (EtecPoint_y ?e) = 1 \<and>
              FQ_n (EtecPoint_t ?e) = 0 \<and> FQ_n (EtecPoint_z ?e) = 1)"
    by (simp add: one_mod_Q)
  have nz: "FQ_n (EtecPoint_z ?e) \<noteq> 0" by (simp add: one_mod_Q)
  show ?thesis
    unfolding EtecPoint_add_generic[OF ov ov ni nz nz]
    by (simp add: Let_def one_mod_Q JUBJUB_D_def)
qed

lemma EtecPoint_m16_as_point:
  "EtecPoint_as_point (EtecPoint (FQ_default 0) (FQ_default (- 16)) (FQ_default 0)
                                 (FQ_default (- 16)))
     = Inr (Point (FQ_default 0) (FQ_default 1))"
  by (rule EtecPoint_as_point_cert[where c = 1368015179489954701390400359078579693034272775026002146481137761660988030976 and k = "- 1" and kx = "0" and ky = "- 1"];
      code_simp)

lemma ProjPoint_m16_as_point:
  "ProjPoint_as_point (ProjPoint (FQ_default 0) (FQ_default (- 16)) (FQ_default (- 16)))
     = Inr (Point (FQ_default 0) (FQ_default 1))"
  by (rule ProjPoint_as_point_cert[where c = 1368015179489954701390400359078579693034272775026002146481137761660988030976 and k = "- 1" and kx = "0" and ky = "- 1"];
      code_simp)

lemma unit_m16: "coprime (- 16) SNARK_SCALAR_FIELD"
proof (rule coprime_if_cert)
  show "- 16 * 1368015179489954701390400359078579693034272775026002146481137761660988030976 = (- 1) * SNARK_SCALAR_FIELD + 1"
    by code_simp
qed

lemma EtecPoint_m1_as_point:
  "EtecPoint_as_point (EtecPoint (FQ_default 0) (FQ_default (- 1)) (FQ_default 0)
                                 (FQ_default (- 1)))
     = Inr (Point (FQ_default 0) (FQ_default 1))"
  by (rule EtecPoint_as_point_cert[where c = 21888242871839275222246405745257275088548364400416034343698204186575808495616 and k = "- 1" and kx = "0" and ky = "- 1"];
      code_simp)

lemma EtecPoint_0111_add_as_point:
  "EtecPoint_as_point (EtecPoint (FQ_default 0) (FQ_default 168697) (FQ_default 0)
                                 (FQ_default (- 28458340415)))
     = Inr (Point (FQ_default 0)
              (FQ_default 10963648870355820135329303136801619671194520851870856101092568584470687727927))"
  by (rule EtecPoint_as_point_cert[where c = 10014341244854201888732801517119947642839001616352171251245818764393430363293 and k = "- 13020301988" and kx = "0" and ky = "77182"];
      code_simp)

lemma EtecPoint_infinity_as_point:
  "EtecPoint_as_point EtecPoint_infinity = Inr (Point (FQ_default 0) (FQ_default 1))"
  unfolding EtecPoint_infinity_def
  by (rule EtecPoint_as_point_cert[where c = 1 and k = 0 and kx = 0 and ky = 0]; code_simp)

lemma ProjPoint_infinity_as_point:
  "ProjPoint_as_point ProjPoint_infinity = Inr (Point (FQ_default 0) (FQ_default 1))"
  unfolding ProjPoint_infinity_def
  by (rule ProjPoint_as_point_cert[where c = 1 and k = 0 and kx = 0 and ky = 0]; code_simp)

lemma EtecPoint_infinity_valid: "EtecPoint_valid EtecPoint_infinity = Inr True"
  by (simp add: EtecPoint_valid_def EtecPoint_infinity_as_point Point_valid_identity_like)

lemma ProjPoint_infinity_valid: "ProjPoint_valid ProjPoint_infinity = Inr True"
  by (simp add: ProjPoint_valid_def ProjPoint_infinity_as_point Point_valid_identity_like)

section \<open>The claims\<close>

subsection \<open>C4: exponentiation by zero\<close>

text \<open>
Claim C4 says that \<open>exp\<close> with the exponent \<open>0\<close> returns the field element \<open>1\<close>
  without computing \<open>log2(0)\<close>. The code of \<open>FQ.exp\<close> passes the exponent to
  \<open>powmod\<close>, whose first statement is \<open>math.log(b, 2)\<close>: for \<open>b = 0\<close> that raises
  \<open>ValueError\<close>, for every base and every modulus, whatever the logarithm computes on
  positive arguments. (The sibling method \<open>__pow__\<close> tests \<open>other == 0\<close> first and
  returns \<open>FQ(1, self.m)\<close>.)
\<close>

theorem exp_zero_raises:
  "FQ_exp ilog2 a (OInt 0) = Inl ValueError"
  by (simp add: FQ_exp_def other_n_def powmod_def)

subsection \<open>C5: the range invariant of field elements\<close>

text \<open>
  Claim C5 says that every field element satisfies \<open>0 <= value < modulus\<close> and that
  construction from any input reduces the stored value modulo the modulus. The constructor
  has two branches. Given an integer it stores \<open>n % self.m\<close> (lemma \<open>FQ_init_int\<close>),
  and every arithmetic operation builds its result through that branch, so the results of
  \<open>add\<close>, \<open>sub\<close>, \<open>mul\<close>, \<open>divide\<close>, \<open>neg\<close>, \<open>inverse\<close> and \<open>exponentiate\<close> are
  in range (lemmas \<open>FQ_add_in_range\<close> to \<open>FQ_exp_in_range\<close>). Given another field
  element it stores \<open>n.n\<close> as it is, for every element and every modulus: it neither
  reduces the value nor compares the two moduli, unlike the integer branch beside it and
  unlike \<open>_other_n\<close>, which raises \<open>RuntimeError\<close> when the moduli differ.
  \<open>FQ(FQ(5, 7), 3)\<close> returns an element with the value \<open>5\<close> and the modulus \<open>3\<close>,
  which breaks the invariant; \<open>FQ(5, 3)\<close> stores \<open>2\<close>.
\<close>

theorem FQ_init_copy_unreduced:
  "FQ_init (OFQ f) m = Inr \<lparr>FQ_n = FQ_n f, FQ_m = m\<rparr> \<and>
   ebind (FQ_init (OInt 5) 7) (\<lambda>f. FQ_init (OFQ f) 3) = Inr \<lparr>FQ_n = 5, FQ_m = 3\<rparr> \<and>
   \<not> FQ_valid \<lparr>FQ_n = 5, FQ_m = 3\<rparr> \<and>
   FQ_init (OInt 5) 3 = Inr \<lparr>FQ_n = 2, FQ_m = 3\<rparr> \<and>
   FQ_valid \<lparr>FQ_n = 2, FQ_m = 3\<rparr> \<and>
   other_n \<lparr>FQ_n = 2, FQ_m = 3\<rparr> (OFQ \<lparr>FQ_n = 5, FQ_m = 7\<rparr>) = Inl RuntimeError"
  by (simp add: FQ_init_def pymod_def FQ_valid_def other_n_def ebind_def)

subsection \<open>C9: the scalars accepted by mult\<close>

text \<open>
Claim C9: \<open>mult\<close> runs its loop on a plain integer scalar; on a field element whose
  modulus is \<open>SNARK_SCALAR_FIELD\<close>, \<open>JUBJUB_ORDER\<close> or \<open>JUBJUB_L\<close> it does what it does
  on the integer value of that element; on a field element of any other modulus it raises
  \<open>ValueError\<close> and returns no point. This holds for the \<open>add\<close>, \<open>double\<close> and
  \<open>infinity\<close> of every point class.
\<close>

theorem mult_scalar_domain:
  "mult add dbl ident p (OInt i) = mult_loop add dbl p ident i \<and>
   (FQ_m s \<in> {SNARK_SCALAR_FIELD, JUBJUB_ORDER, JUBJUB_L} \<longrightarrow>
      mult add dbl ident p (OFQ s) = mult add dbl ident p (OInt (FQ_n s))) \<and>
   (FQ_m s \<notin> {SNARK_SCALAR_FIELD, JUBJUB_ORDER, JUBJUB_L} \<longrightarrow>
      mult add dbl ident p (OFQ s) = Some (Inl ValueError))"
  by (auto simp: mult_def)

text \<open>
Claim C9, witness: the scalar \<open>0\<close> modulo \<open>JUBJUB_L\<close> gives the identity, the scalar
  \<open>3\<close> modulo \<open>7\<close> is refused.
\<close>

theorem mult_scalar_domain_witness:
  "FQ_m \<lparr>FQ_n = 0, FQ_m = JUBJUB_L\<rparr> \<in> {SNARK_SCALAR_FIELD, JUBJUB_ORDER, JUBJUB_L} \<and>
   Point_mult point_a (OFQ \<lparr>FQ_n = 0, FQ_m = JUBJUB_L\<rparr>) = Some (Inr Point_infinity) \<and>
   FQ_m \<lparr>FQ_n = 3, FQ_m = 7\<rparr> \<notin> {SNARK_SCALAR_FIELD, JUBJUB_ORDER, JUBJUB_L} \<and>
   Point_mult point_a (OFQ \<lparr>FQ_n = 3, FQ_m = 7\<rparr>) = Some (Inl ValueError)"
proof -
  have n7: "FQ_m \<lparr>FQ_n = 3, FQ_m = 7\<rparr> \<notin> {SNARK_SCALAR_FIELD, JUBJUB_ORDER, JUBJUB_L}"
    by (simp add: SNARK_SCALAR_FIELD_def JUBJUB_ORDER_def JUBJUB_L_def JUBJUB_C_def)
  have l0: "mult_loop Point_add Point_double point_a Point_infinity 0 = Some (Inr Point_infinity)"
    by (subst mult_loop.simps) simp
  show ?thesis
    using mult_scalar_domain[of Point_add Point_double Point_infinity point_a 0
        "\<lparr>FQ_n = 0, FQ_m = JUBJUB_L\<rparr>"]
      mult_scalar_domain[of Point_add Point_double Point_infinity point_a 0
        "\<lparr>FQ_n = 3, FQ_m = 7\<rparr>"] n7 l0
    by (simp add: Point_mult_def)
qed

subsection \<open>C10: conversion to affine coordinates when Z is zero\<close>

text \<open>
Claim C10: for an extended point whose \<open>Z\<close> is zero (its coordinates sharing a
  non-zero modulus), \<open>EtecPoint.as_point\<close> returns the affine pair \<open>(0, 0)\<close> and raises
  nothing, whereas \<open>ProjPoint.as_point\<close> on the same coordinates fails its assertion
  \<open>self.z != 0\<close>.
\<close>

theorem EtecPoint_as_point_Z_zero:
  "FQ_n z = 0 \<and> FQ_m z \<noteq> 0 \<and> FQ_m x = FQ_m z \<and> FQ_m y = FQ_m z \<longrightarrow>
     EtecPoint_as_point (EtecPoint x y t z)
       = Inr (Point \<lparr>FQ_n = 0, FQ_m = FQ_m z\<rparr> \<lparr>FQ_n = 0, FQ_m = FQ_m z\<rparr>) \<and>
     ProjPoint_as_point (ProjPoint x y z) = Inl AssertionError"
  by (simp add: EtecPoint_as_point_def ProjPoint_as_point_def FQ_inv_def inv_mod_def
      FQ_init_int FQ_mul_def other_n_def pymod_def FQ_ne_int)

text \<open>
Claim C10, witness: the extended point \<open>(3, 4, 5, 0)\<close> and the projective point
  \<open>(3, 4, 0)\<close> over the default field.
\<close>

theorem EtecPoint_as_point_Z_zero_witness:
  "FQ_n (FQ_default 0) = 0 \<and> FQ_m (FQ_default 0) \<noteq> 0 \<and>
   EtecPoint_as_point (EtecPoint (FQ_default 3) (FQ_default 4) (FQ_default 5) (FQ_default 0))
     = Inr (Point (FQ_default 0) (FQ_default 0)) \<and>
   ProjPoint_as_point (ProjPoint (FQ_default 3) (FQ_default 4) (FQ_default 0))
     = Inl AssertionError"
  using EtecPoint_as_point_Z_zero[of "FQ_default 0" "FQ_default 3" "FQ_default 4" "FQ_default 5"]
  by (simp add: FQ_default_def)

subsection \<open>C6: termination of mult\<close>

text \<open>
Claim C6, counterexample: with the scalar \<open>-1\<close> the call on the extended point
  \<open>(0, 0, 0, 0)\<close> does end: the second pass of the loop calls \<open>add\<close> on a point whose
  \<open>Z\<close> is zero, and the assertion \<open>self.z != 0\<close> of \<open>EtecPoint.add\<close> fails.
\<close>

theorem mult_negative_scalar_can_raise:
  "EtecPoint_mult
     (EtecPoint (FQ_default 0) (FQ_default 0) (FQ_default 0) (FQ_default 0)) (OInt (- 1))
   = Some (Inl AssertionError)"
proof -
  let ?p = "EtecPoint (FQ_default 0) (FQ_default 0) (FQ_default 0) (FQ_default 0)"
  have ov: "EtecPoint_over_Q ?p" by (simp add: EtecPoint_over_Q_def)
  have a1: "EtecPoint_add EtecPoint_infinity ?p = Inr ?p"
    by (simp add: EtecPoint_add_def EtecPoint_eq_infinity)
      (simp add: EtecPoint_infinity_def)
  have d1: "EtecPoint_double ?p = Inr ?p"
    using EtecPoint_double_generic[OF ov] by (simp add: Let_def)
  have a2: "EtecPoint_add ?p ?p = Inl AssertionError"
    by (simp add: EtecPoint_add_def EtecPoint_eq_infinity ov FQ_ne_int)
  have "mult_loop EtecPoint_add EtecPoint_double ?p EtecPoint_infinity (- 1)
      = mult_loop EtecPoint_add EtecPoint_double ?p ?p (- 1)"
    by (subst mult_loop.simps) (simp add: a1 d1)
  also have "\<dots> = Some (Inl AssertionError)"
    by (subst mult_loop.simps) (simp add: a2)
  finally show ?thesis by (simp add: EtecPoint_mult_def mult_def)
qed

text \<open>
Claim C6, as amended: for every non-negative integer scalar \<open>mult\<close> ends (with a
  point, or with the exception that \<open>add\<close> or \<open>double\<close> raised); for every negative
  integer scalar it never returns a point, because the scalar stays negative under
  \<open>// 2\<close>: the call runs forever unless \<open>add\<close> or \<open>double\<close> raises. On affine and
  on projective points with coordinates in the base field nothing raises, and the call
  runs forever.
\<close>

theorem mult_termination:
  "(0 \<le> s \<longrightarrow> (\<exists>r. mult add dbl ident p (OInt s) = Some r)) \<and>
   (s < 0 \<longrightarrow> (\<forall>q. mult add dbl ident p (OInt s) \<noteq> Some (Inr q))) \<and>
   (s < 0 \<and> Point_over_Q a \<longrightarrow> Point_mult a (OInt s) = None) \<and>
   (s < 0 \<and> ProjPoint_over_Q b \<longrightarrow> ProjPoint_mult b (OInt s) = None)"
proof (intro conjI impI allI)
  assume "0 \<le> s"
  then show "\<exists>r. mult add dbl ident p (OInt s) = Some r"
    by (simp add: mult_def mult_loop_nonneg_returns)
next
  fix q assume "s < 0"
  then show "mult add dbl ident p (OInt s) \<noteq> Some (Inr q)"
    using mult_loop_negative_no_point_aux[of add dbl p ident s "Inr q"]
    by (auto simp: mult_def)
next
  assume "s < 0 \<and> Point_over_Q a"
  then show "Point_mult a (OInt s) = None"
    unfolding Point_mult_def mult_def
    by (simp add: mult_loop_negative_diverges[of Point_over_Q Point_add Point_double]
        Point_add_over_Q Point_double_over_Q)
next
  assume "s < 0 \<and> ProjPoint_over_Q b"
  then show "ProjPoint_mult b (OInt s) = None"
    unfolding ProjPoint_mult_def mult_def
    by (simp add: mult_loop_negative_diverges[of ProjPoint_over_Q ProjPoint_add ProjPoint_double]
        ProjPoint_add_over_Q ProjPoint_double_over_Q)
qed

text \<open>
Claim C6, witness: the scalars \<open>5\<close> and \<open>-1\<close>, on the extended identity, on the
  affine test point and on the projective identity.
\<close>

theorem mult_termination_witness:
  "(0::int) \<le> 5 \<and> (\<exists>r. EtecPoint_mult EtecPoint_infinity (OInt 5) = Some r) \<and>
   (- 1 :: int) < 0 \<and> (\<forall>q. EtecPoint_mult EtecPoint_infinity (OInt (- 1)) \<noteq> Some (Inr q)) \<and>
   Point_over_Q point_a \<and> Point_mult point_a (OInt (- 1)) = None \<and>
   ProjPoint_over_Q ProjPoint_infinity \<and> ProjPoint_mult ProjPoint_infinity (OInt (- 1)) = None"
  using mult_termination[of 5 EtecPoint_add EtecPoint_double EtecPoint_infinity
      EtecPoint_infinity point_a ProjPoint_infinity]
    mult_termination[of "- 1" EtecPoint_add EtecPoint_double EtecPoint_infinity
      EtecPoint_infinity point_a ProjPoint_infinity]
  by (simp add: EtecPoint_mult_def)

subsection \<open>C7: the guard of affine addition\<close>

text \<open>
  Claim C7: if both coordinates of \<open>self\<close> have the value \<open>0\<close>, \<open>Point.add\<close> returns
  \<open>other\<close> unchanged; for every other \<open>self\<close> (the identity \<open>(0, 1)\<close> included), with
  coordinates modulo the base field, it returns a point \<open>(u3, v3)\<close> of the base field with
  \<open>u3 = (u1*v2 + v1*u2) / (1 + D*u1*u2*v1*v2)\<close> and
  \<open>v3 = (v1*v2 - A*u1*u2) / (1 - D*u1*u2*v1*v2)\<close>. The quotient is a quotient of the
  field: when the denominator is invertible modulo the field, \<open>u3\<close> is the element of
  \<open>[0, Q)\<close> with \<open>u3 * denominator == numerator\<close> modulo \<open>Q\<close>, and when the denominator
  is \<open>0\<close> modulo \<open>Q\<close> the coordinate is \<open>0\<close>, as \<open>inv\<close> returns \<open>0\<close> for \<open>0\<close>. The
  coordinates are also given as the code computes them, the numerator times what \<open>inv\<close>
  returns for the reduced denominator.
\<close>

theorem Point_add_zero_tuple_guard:
  "(FQ_n (Point_x self) = 0 \<and> FQ_n (Point_y self) = 0 \<longrightarrow> Point_add self other = Inr other) \<and>
   (\<not> (FQ_n (Point_x self) = 0 \<and> FQ_n (Point_y self) = 0) \<and>
    Point_over_Q self \<and> Point_over_Q other \<longrightarrow>
      (let u1 = FQ_n (Point_x self); v1 = FQ_n (Point_y self);
           u2 = FQ_n (Point_x other); v2 = FQ_n (Point_y other);
           nu = u1 * v2 + v1 * u2; du = 1 + JUBJUB_D * u1 * u2 * v1 * v2;
           nv = v1 * v2 - JUBJUB_A * u1 * u2; dv = 1 - JUBJUB_D * u1 * u2 * v1 * v2
       in \<exists>u3 v3.
            Point_add self other = Inr (Point u3 v3) \<and>
            in_base_field u3 \<and> in_base_field v3 \<and>
            u3 = FQ_default (nu * inv_Q (du mod SNARK_SCALAR_FIELD)) \<and>
            v3 = FQ_default (nv * inv_Q (dv mod SNARK_SCALAR_FIELD)) \<and>
            (coprime du SNARK_SCALAR_FIELD \<longrightarrow>
               (FQ_n u3 * du) mod SNARK_SCALAR_FIELD = nu mod SNARK_SCALAR_FIELD) \<and>
            (coprime dv SNARK_SCALAR_FIELD \<longrightarrow>
               (FQ_n v3 * dv) mod SNARK_SCALAR_FIELD = nv mod SNARK_SCALAR_FIELD) \<and>
            (du mod SNARK_SCALAR_FIELD = 0 \<longrightarrow> FQ_n u3 = 0) \<and>
            (dv mod SNARK_SCALAR_FIELD = 0 \<longrightarrow> FQ_n v3 = 0)))"
proof (intro conjI impI)
  assume "FQ_n (Point_x self) = 0 \<and> FQ_n (Point_y self) = 0"
  then show "Point_add self other = Inr other"
    by (simp add: Point_add_zero_tuple)
next
  let ?q = SNARK_SCALAR_FIELD
  assume h: "\<not> (FQ_n (Point_x self) = 0 \<and> FQ_n (Point_y self) = 0) \<and>
    Point_over_Q self \<and> Point_over_Q other"
  define u1 v1 u2 v2 where "u1 = FQ_n (Point_x self)" and "v1 = FQ_n (Point_y self)"
    and "u2 = FQ_n (Point_x other)" and "v2 = FQ_n (Point_y other)"
  define nu du nv dv where "nu = u1 * v2 + v1 * u2" and "du = 1 + JUBJUB_D * u1 * u2 * v1 * v2"
    and "nv = v1 * v2 - JUBJUB_A * u1 * u2" and "dv = 1 - JUBJUB_D * u1 * u2 * v1 * v2"
  have quot: "(FQ_n (FQ_default (n * inv_Q (d mod ?q))) * d) mod ?q = n mod ?q"
    if "coprime d ?q" for n d
  proof -
    have "?q dvd (d * inv_Q (d mod ?q) - 1)" by (rule inv_Q_mod_unit_dvd[OF that])
    then have "?q dvd (n * inv_Q (d mod ?q) * d - n)" by algebra
    then have "(n * inv_Q (d mod ?q) * d) mod ?q = n mod ?q" by (simp only: mod_Q_eq_dvd)
    then show ?thesis by (simp add: mod_simps)
  qed
  have zero: "FQ_n (FQ_default (n * inv_Q (d mod ?q))) = 0" if "d mod ?q = 0" for n d
    using that by simp
  have add: "Point_add self other
      = Inr (Point (FQ_default (nu * inv_Q (du mod ?q))) (FQ_default (nv * inv_Q (dv mod ?q))))"
    using h Point_add_generic[of self other]
    by (simp add: Let_def nu_def du_def nv_def dv_def u1_def v1_def u2_def v2_def)
  have "\<exists>u3 v3.
            Point_add self other = Inr (Point u3 v3) \<and>
            in_base_field u3 \<and> in_base_field v3 \<and>
            u3 = FQ_default (nu * inv_Q (du mod ?q)) \<and>
            v3 = FQ_default (nv * inv_Q (dv mod ?q)) \<and>
            (coprime du ?q \<longrightarrow> (FQ_n u3 * du) mod ?q = nu mod ?q) \<and>
            (coprime dv ?q \<longrightarrow> (FQ_n v3 * dv) mod ?q = nv mod ?q) \<and>
            (du mod ?q = 0 \<longrightarrow> FQ_n u3 = 0) \<and>
            (dv mod ?q = 0 \<longrightarrow> FQ_n v3 = 0)"
  proof (rule exI[of _ "FQ_default (nu * inv_Q (du mod ?q))"],
         rule exI[of _ "FQ_default (nv * inv_Q (dv mod ?q))"], intro conjI impI)
    show "Point_add self other
      = Inr (Point (FQ_default (nu * inv_Q (du mod ?q))) (FQ_default (nv * inv_Q (dv mod ?q))))"
      by (rule add)
    show "in_base_field (FQ_default (nu * inv_Q (du mod ?q)))"
      "in_base_field (FQ_default (nv * inv_Q (dv mod ?q)))"
      by (rule in_base_field_default)+
    show "FQ_default (nu * inv_Q (du mod ?q)) = FQ_default (nu * inv_Q (du mod ?q))"
      "FQ_default (nv * inv_Q (dv mod ?q)) = FQ_default (nv * inv_Q (dv mod ?q))"
      by (rule refl)+
    show "(FQ_n (FQ_default (nu * inv_Q (du mod ?q))) * du) mod ?q = nu mod ?q"
      if "coprime du ?q" by (rule quot[OF that])
    show "(FQ_n (FQ_default (nv * inv_Q (dv mod ?q))) * dv) mod ?q = nv mod ?q"
      if "coprime dv ?q" by (rule quot[OF that])
    show "FQ_n (FQ_default (nu * inv_Q (du mod ?q))) = 0" if "du mod ?q = 0"
      by (rule zero[OF that])
    show "FQ_n (FQ_default (nv * inv_Q (dv mod ?q))) = 0" if "dv mod ?q = 0"
      by (rule zero[OF that])
  qed
  then show "let u1 = FQ_n (Point_x self); v1 = FQ_n (Point_y self);
           u2 = FQ_n (Point_x other); v2 = FQ_n (Point_y other);
           nu = u1 * v2 + v1 * u2; du = 1 + JUBJUB_D * u1 * u2 * v1 * v2;
           nv = v1 * v2 - JUBJUB_A * u1 * u2; dv = 1 - JUBJUB_D * u1 * u2 * v1 * v2
       in \<exists>u3 v3.
            Point_add self other = Inr (Point u3 v3) \<and>
            in_base_field u3 \<and> in_base_field v3 \<and>
            u3 = FQ_default (nu * inv_Q (du mod SNARK_SCALAR_FIELD)) \<and>
            v3 = FQ_default (nv * inv_Q (dv mod SNARK_SCALAR_FIELD)) \<and>
            (coprime du SNARK_SCALAR_FIELD \<longrightarrow>
               (FQ_n u3 * du) mod SNARK_SCALAR_FIELD = nu mod SNARK_SCALAR_FIELD) \<and>
            (coprime dv SNARK_SCALAR_FIELD \<longrightarrow>
               (FQ_n v3 * dv) mod SNARK_SCALAR_FIELD = nv mod SNARK_SCALAR_FIELD) \<and>
            (du mod SNARK_SCALAR_FIELD = 0 \<longrightarrow> FQ_n u3 = 0) \<and>
            (dv mod SNARK_SCALAR_FIELD = 0 \<longrightarrow> FQ_n v3 = 0)"
    unfolding Let_def nu_def du_def nv_def dv_def u1_def v1_def u2_def v2_def .
qed

text \<open>
  Claim C7, witness: the tuple \<open>(0, 0)\<close> added to the test point returns the test point;
  the test point added to itself goes through the formula, both denominators are
  invertible, and each coordinate of the result of the tests, multiplied by its
  denominator, is the numerator modulo \<open>Q\<close>.
\<close>

theorem Point_add_zero_tuple_guard_witness:
  "FQ_n (Point_x (Point (FQ_default 0) (FQ_default 0))) = 0 \<and>
   FQ_n (Point_y (Point (FQ_default 0) (FQ_default 0))) = 0 \<and>
   Point_add (Point (FQ_default 0) (FQ_default 0)) point_a = Inr point_a \<and>
   \<not> (FQ_n (Point_x point_a) = 0 \<and> FQ_n (Point_y point_a) = 0) \<and>
   Point_over_Q point_a \<and>
   Point_add point_a point_a = Inr point_a_double \<and>
   coprime (1 + JUBJUB_D * FQ_n (Point_x point_a) * FQ_n (Point_x point_a)
              * FQ_n (Point_y point_a) * FQ_n (Point_y point_a)) SNARK_SCALAR_FIELD \<and>
   (FQ_n (Point_x point_a_double)
      * (1 + JUBJUB_D * FQ_n (Point_x point_a) * FQ_n (Point_x point_a)
              * FQ_n (Point_y point_a) * FQ_n (Point_y point_a))) mod SNARK_SCALAR_FIELD
     = (FQ_n (Point_x point_a) * FQ_n (Point_y point_a)
        + FQ_n (Point_y point_a) * FQ_n (Point_x point_a)) mod SNARK_SCALAR_FIELD \<and>
   coprime (1 - JUBJUB_D * FQ_n (Point_x point_a) * FQ_n (Point_x point_a)
              * FQ_n (Point_y point_a) * FQ_n (Point_y point_a)) SNARK_SCALAR_FIELD \<and>
   (FQ_n (Point_y point_a_double)
      * (1 - JUBJUB_D * FQ_n (Point_x point_a) * FQ_n (Point_x point_a)
              * FQ_n (Point_y point_a) * FQ_n (Point_y point_a))) mod SNARK_SCALAR_FIELD
     = (FQ_n (Point_y point_a) * FQ_n (Point_y point_a)
        - JUBJUB_A * FQ_n (Point_x point_a) * FQ_n (Point_x point_a)) mod SNARK_SCALAR_FIELD"
proof -
  let ?q = SNARK_SCALAR_FIELD
  let ?z = "Point (FQ_default 0) (FQ_default 0)"
  let ?x = "FQ_n (Point_x point_a)" and ?y = "FQ_n (Point_y point_a)"
  have z: "FQ_n (Point_x ?z) = 0" "FQ_n (Point_y ?z) = 0" by simp_all
  have g1: "Point_add ?z point_a = Inr point_a"
    using Point_add_zero_tuple_guard[of ?z point_a] z by blast
  have ng: "\<not> (?x = 0 \<and> ?y = 0)"
    unfolding point_a_coords by simp
  have cu: "coprime (1 + JUBJUB_D * ?x * ?x * ?y * ?y) ?q"
    unfolding point_a_coords by (rule coprime_if_cert[OF point_a_den_u])
  have cv: "coprime (1 - JUBJUB_D * ?x * ?x * ?y * ?y) ?q"
    unfolding point_a_coords by (rule coprime_if_cert[OF point_a_den_v])
  from Point_add_zero_tuple_guard[of point_a point_a] ng point_a_over_Q
  obtain u3 v3 where
    r: "Point_add point_a point_a = Inr (Point u3 v3)"
    and qu: "coprime (1 + JUBJUB_D * ?x * ?x * ?y * ?y) ?q \<longrightarrow>
        (FQ_n u3 * (1 + JUBJUB_D * ?x * ?x * ?y * ?y)) mod ?q = (?x * ?y + ?y * ?x) mod ?q"
    and qv: "coprime (1 - JUBJUB_D * ?x * ?x * ?y * ?y) ?q \<longrightarrow>
        (FQ_n v3 * (1 - JUBJUB_D * ?x * ?x * ?y * ?y)) mod ?q
          = (?y * ?y - JUBJUB_A * ?x * ?x) mod ?q"
    unfolding Let_def by blast
  from r have eq: "point_a_double = Point u3 v3" unfolding point_a_add by simp
  have uv: "Point_x point_a_double = u3" "Point_y point_a_double = v3"
    unfolding eq by simp_all
  show ?thesis
    unfolding uv
    using z g1 ng point_a_over_Q r[unfolded point_a_add] cu cv qu qv
    by (intro conjI) (simp_all only: point_a_add uv simp_thms)
qed

subsection \<open>C8: the modular inverse\<close>

text \<open>
  Claim C8: the inverse of a field element with value \<open>0\<close> is the element \<open>0\<close>, and
  nothing is raised; for every non-zero element \<open>a\<close> of a field (a prime modulus, the
  value in range) \<open>inverse\<close> returns an element \<open>b\<close> of that field with \<open>a * b == 1\<close>,
  and \<open>b\<close> is the only element of the field with that property.
\<close>

theorem FQ_inv_correct:
  "(FQ_m a \<noteq> 0 \<and> FQ_n a = 0 \<longrightarrow> FQ_inv a = Inr \<lparr>FQ_n = 0, FQ_m = FQ_m a\<rparr>) \<and>
   (prime_modulus (FQ_m a) \<and> FQ_valid a \<and> FQ_n a \<noteq> 0 \<longrightarrow>
      (\<exists>b. FQ_inv a = Inr b \<and> FQ_m b = FQ_m a \<and> FQ_valid b \<and>
           FQ_mul a (OFQ b) = Inr \<lparr>FQ_n = 1, FQ_m = FQ_m a\<rparr> \<and>
           (\<forall>c. FQ_m c = FQ_m a \<and> FQ_valid c \<and>
                FQ_mul a (OFQ c) = Inr \<lparr>FQ_n = 1, FQ_m = FQ_m a\<rparr> \<longrightarrow> c = b)))"
proof (intro conjI impI)
  assume "FQ_m a \<noteq> 0 \<and> FQ_n a = 0"
  then show "FQ_inv a = Inr \<lparr>FQ_n = 0, FQ_m = FQ_m a\<rparr>"
    by (simp add: FQ_inv_def inv_mod_def FQ_init_int)
next
  assume h: "prime_modulus (FQ_m a) \<and> FQ_valid a \<and> FQ_n a \<noteq> 0"
  let ?m = "FQ_m a"
  from h have m1: "1 < ?m" by (simp add: prime_modulus_def)
  from h have rng: "0 < FQ_n a" "FQ_n a < ?m" by (simp_all add: FQ_valid_def)
  have cp: "coprime (FQ_n a) ?m"
    using prime_modulus_coprime[of ?m "FQ_n a"] h rng by simp
  from inv_mod_correct[OF m1 cp] obtain i where
    "inv_mod (FQ_n a) ?m = Inr i \<and> 0 \<le> i \<and> i < ?m \<and> (FQ_n a * i) mod ?m = 1" ..
  then have i: "inv_mod (FQ_n a) ?m = Inr i" "0 \<le> i" "i < ?m" "(FQ_n a * i) mod ?m = 1"
    by simp_all
  let ?b = "\<lparr>FQ_n = i, FQ_m = ?m\<rparr>"
  have inv: "FQ_inv a = Inr ?b"
    using m1 i by (simp add: FQ_inv_def FQ_init_int)
  have mul: "FQ_mul a (OFQ ?b) = Inr \<lparr>FQ_n = 1, FQ_m = ?m\<rparr>"
    using m1 i by (simp add: FQ_mul_def other_n_def pymod_def FQ_init_int)
  have uniq: "c = ?b"
    if c: "FQ_m c = ?m \<and> FQ_valid c \<and> FQ_mul a (OFQ c) = Inr \<lparr>FQ_n = 1, FQ_m = ?m\<rparr>" for c
  proof -
    from c have cm: "FQ_m c = ?m"
      and cmul: "FQ_mul a (OFQ c) = Inr \<lparr>FQ_n = 1, FQ_m = ?m\<rparr>" by simp_all
    have "(FQ_n a * FQ_n c) mod ?m = 1"
      using cmul m1 by (simp add: FQ_mul_def other_n_def pymod_def FQ_init_int cm)
    moreover from c have "0 \<le> FQ_n c" "FQ_n c < ?m" by (simp_all add: FQ_valid_def)
    ultimately have "FQ_n c = i"
      using inverse_unique[of "FQ_n a" "FQ_n c" ?m i] i by simp
    with c show ?thesis by simp
  qed
  show "\<exists>b. FQ_inv a = Inr b \<and> FQ_m b = FQ_m a \<and> FQ_valid b \<and>
           FQ_mul a (OFQ b) = Inr \<lparr>FQ_n = 1, FQ_m = FQ_m a\<rparr> \<and>
           (\<forall>c. FQ_m c = FQ_m a \<and> FQ_valid c \<and>
                FQ_mul a (OFQ c) = Inr \<lparr>FQ_n = 1, FQ_m = FQ_m a\<rparr> \<longrightarrow> c = b)"
    using inv mul uniq i by (intro exI[of _ ?b]) (auto simp: FQ_valid_def)
qed

text \<open>
  Claim C8, witness: modulo \<open>7\<close> the inverse of \<open>0\<close> is \<open>0\<close> and the inverse of \<open>3\<close>
  is \<open>5\<close>.
\<close>

theorem FQ_inv_correct_witness:
  "FQ_m \<lparr>FQ_n = 0, FQ_m = 7\<rparr> \<noteq> 0 \<and> FQ_n \<lparr>FQ_n = 0, FQ_m = 7\<rparr> = 0 \<and>
   FQ_inv \<lparr>FQ_n = 0, FQ_m = 7\<rparr> = Inr \<lparr>FQ_n = 0, FQ_m = 7\<rparr> \<and>
   prime_modulus (FQ_m \<lparr>FQ_n = 3, FQ_m = 7\<rparr>) \<and> FQ_valid \<lparr>FQ_n = 3, FQ_m = 7\<rparr> \<and>
   FQ_n \<lparr>FQ_n = 3, FQ_m = 7\<rparr> \<noteq> 0 \<and>
   FQ_inv \<lparr>FQ_n = 3, FQ_m = 7\<rparr> = Inr \<lparr>FQ_n = 5, FQ_m = 7\<rparr> \<and>
   FQ_mul \<lparr>FQ_n = 3, FQ_m = 7\<rparr> (OFQ \<lparr>FQ_n = 5, FQ_m = 7\<rparr>) = Inr \<lparr>FQ_n = 1, FQ_m = 7\<rparr>"
proof -
  have v5: "FQ_valid \<lparr>FQ_n = 5, FQ_m = 7\<rparr>" by (simp add: FQ_valid_def)
  have m5: "FQ_mul \<lparr>FQ_n = 3, FQ_m = 7\<rparr> (OFQ \<lparr>FQ_n = 5, FQ_m = 7\<rparr>) = Inr \<lparr>FQ_n = 1, FQ_m = 7\<rparr>"
    by (simp add: FQ_mul_def other_n_def pymod_def FQ_init_int)
  have p: "prime_modulus (FQ_m \<lparr>FQ_n = 3, FQ_m = 7\<rparr>)" using prime_modulus_7 by simp
  have v3: "FQ_valid \<lparr>FQ_n = 3, FQ_m = 7\<rparr>" by (simp add: FQ_valid_def)
  from FQ_inv_correct[of "\<lparr>FQ_n = 3, FQ_m = 7\<rparr>"] p v3
  obtain b where b: "FQ_inv \<lparr>FQ_n = 3, FQ_m = 7\<rparr> = Inr b"
    and u: "\<forall>c. FQ_m c = 7 \<and> FQ_valid c \<and>
         FQ_mul \<lparr>FQ_n = 3, FQ_m = 7\<rparr> (OFQ c) = Inr \<lparr>FQ_n = 1, FQ_m = 7\<rparr> \<longrightarrow> c = b"
    by auto
  from u v5 m5 have "\<lparr>FQ_n = 5, FQ_m = 7\<rparr> = b" by simp
  with b have i3: "FQ_inv \<lparr>FQ_n = 3, FQ_m = 7\<rparr> = Inr \<lparr>FQ_n = 5, FQ_m = 7\<rparr>" by simp
  show ?thesis
    using FQ_inv_correct[of "\<lparr>FQ_n = 0, FQ_m = 7\<rparr>"] p v3 i3 m5 by simp
qed

subsection \<open>C2: the doubling test vector\<close>

text \<open>
  Claim C2: for the affine point \<open>A\<close> of the tests, \<open>A.add(A)\<close>,
  \<open>A.as_etec().double().as_point()\<close> and \<open>A.as_proj().double().as_point()\<close> all return
  the point \<open>_point_a_double\<close>.
\<close>

theorem point_a_doubling:
  "Point_add point_a point_a = Inr point_a_double \<and>
   ebind (Point_as_etec point_a) (\<lambda>e. ebind (EtecPoint_double e) EtecPoint_as_point)
     = Inr point_a_double \<and>
   ebind (Point_as_proj point_a) (\<lambda>e. ebind (ProjPoint_double e) ProjPoint_as_point)
     = Inr point_a_double"
  by (intro conjI point_a_add point_a_etec_double point_a_proj_double)

subsection \<open>C3: the identity element\<close>

text \<open>
  Claim C3, counterexample: the projective point \<open>(0, 2, 2)\<close> and the extended point
  \<open>(0, 2, 0, 2)\<close> are valid (each is the identity in another scaling);
  \<open>p.add(identity)\<close> returns \<open>(0, 16, 16)\<close> and \<open>(0, 4, 0, 4)\<close>, and \<open>==\<close> on the
  returned tuple and \<open>p\<close> is false.
\<close>

theorem add_identity_rescales:
  "ProjPoint_valid (ProjPoint (FQ_default 0) (FQ_default 2) (FQ_default 2)) = Inr True \<and>
   ProjPoint_add (ProjPoint (FQ_default 0) (FQ_default 2) (FQ_default 2)) ProjPoint_infinity
     = Inr (ProjPoint (FQ_default 0) (FQ_default 16) (FQ_default 16)) \<and>
   ProjPoint_eq (ProjPoint (FQ_default 0) (FQ_default 16) (FQ_default 16))
                (ProjPoint (FQ_default 0) (FQ_default 2) (FQ_default 2)) = Inr False \<and>
   EtecPoint_valid (EtecPoint (FQ_default 0) (FQ_default 2) (FQ_default 0) (FQ_default 2))
     = Inr True \<and>
   EtecPoint_add (EtecPoint (FQ_default 0) (FQ_default 2) (FQ_default 0) (FQ_default 2))
                 EtecPoint_infinity
     = Inr (EtecPoint (FQ_default 0) (FQ_default 4) (FQ_default 0) (FQ_default 4)) \<and>
   EtecPoint_eq (EtecPoint (FQ_default 0) (FQ_default 4) (FQ_default 0) (FQ_default 4))
                (EtecPoint (FQ_default 0) (FQ_default 2) (FQ_default 0) (FQ_default 2))
     = Inr False"
proof -
  let ?p = "ProjPoint (FQ_default 0) (FQ_default 2) (FQ_default 2)"
  let ?e = "EtecPoint (FQ_default 0) (FQ_default 2) (FQ_default 0) (FQ_default 2)"
  have ov: "ProjPoint_over_Q ?p" by (simp add: ProjPoint_over_Q_def)
  have ni: "\<not> (FQ_n (ProjPoint_x ?p) = 0 \<and> FQ_n (ProjPoint_y ?p) = 1 \<and>
              FQ_n (ProjPoint_z ?p) = 1)"
    by (simp add: small_mod_Q)
  have a: "ProjPoint_add ?p ProjPoint_infinity
      = Inr (ProjPoint (FQ_default 0) (FQ_default 16) (FQ_default 16))"
    unfolding ProjPoint_add_infinity_right_tuple[OF ov ni]
    by (simp add: Let_def small_mod_Q)
  have e: "ProjPoint_eq (ProjPoint (FQ_default 0) (FQ_default 16) (FQ_default 16)) ?p = Inr False"
    by (simp add: ProjPoint_eq_def FQ_eq_def other_n_def small_mod_Q)
  have ov': "EtecPoint_over_Q ?e" by (simp add: EtecPoint_over_Q_def)
  have ni': "\<not> (FQ_n (EtecPoint_x ?e) = 0 \<and> FQ_n (EtecPoint_y ?e) = 1 \<and>
              FQ_n (EtecPoint_t ?e) = 0 \<and> FQ_n (EtecPoint_z ?e) = 1)"
    by (simp add: small_mod_Q)
  have nz': "FQ_n (EtecPoint_z ?e) \<noteq> 0" by (simp add: small_mod_Q)
  have a': "EtecPoint_add ?e EtecPoint_infinity
      = Inr (EtecPoint (FQ_default 0) (FQ_default 4) (FQ_default 0) (FQ_default 4))"
    unfolding EtecPoint_add_infinity_right_tuple[OF ov' ni' nz']
    by (simp add: Let_def small_mod_Q)
  have e': "EtecPoint_eq (EtecPoint (FQ_default 0) (FQ_default 4) (FQ_default 0) (FQ_default 4)) ?e
      = Inr False"
    by (simp add: EtecPoint_eq_def FQ_eq_def other_n_def small_mod_Q)
  show ?thesis using ProjPoint_022_valid a e EtecPoint_0202_valid a' e' by simp
qed

text \<open>
  Claim C3, as amended. \<open>identity.add(p)\<close> returns \<open>p\<close> for every projective and every
  extended \<open>p\<close>, and for every affine \<open>p\<close> whose coordinates are elements of the base
  field (valid or not). \<open>p.add(identity)\<close> returns \<open>p\<close> for every valid affine point. For
  a valid projective point \<open>(X, Y, Z)\<close> other than the tuple of the identity,
  \<open>p.add(identity)\<close> returns \<open>(Z^3 X, Z^3 Y, Z^4)\<close>; for a valid extended point
  \<open>(X, Y, T, Z)\<close> other than the tuple of the identity it returns
  \<open>(X Z, Z Y, X Y, Z^2)\<close>; in both representations \<open>as_point\<close> converts the result and
  \<open>p\<close> to the same affine point.
\<close>

theorem identity_laws:
  "(Point_wf p \<longrightarrow> Point_add Point_infinity p = Inr p) \<and>
   ProjPoint_add ProjPoint_infinity pp = Inr pp \<and>
   EtecPoint_add EtecPoint_infinity ep = Inr ep \<and>
   (Point_wf p \<and> Point_valid p = Inr True \<longrightarrow> Point_add p Point_infinity = Inr p) \<and>
   (ProjPoint_wf pp \<and> ProjPoint_valid pp = Inr True \<longrightarrow>
      (pp \<noteq> ProjPoint_infinity \<longrightarrow>
         ProjPoint_add pp ProjPoint_infinity =
           (let x = FQ_n (ProjPoint_x pp); y = FQ_n (ProjPoint_y pp); z = FQ_n (ProjPoint_z pp)
            in Inr (ProjPoint (FQ_default (z * z * z * x)) (FQ_default (z * z * z * y))
                              (FQ_default (z * z * z * z))))) \<and>
      (\<exists>a. ProjPoint_as_point pp = Inr a \<and>
           ebind (ProjPoint_add pp ProjPoint_infinity) ProjPoint_as_point = Inr a)) \<and>
   (EtecPoint_wf ep \<and> EtecPoint_valid ep = Inr True \<longrightarrow>
      (ep \<noteq> EtecPoint_infinity \<longrightarrow>
         EtecPoint_add ep EtecPoint_infinity =
           (let x = FQ_n (EtecPoint_x ep); y = FQ_n (EtecPoint_y ep); z = FQ_n (EtecPoint_z ep)
            in Inr (EtecPoint (FQ_default (x * z)) (FQ_default (z * y))
                              (FQ_default (x * y)) (FQ_default (z * z))))) \<and>
      (\<exists>a. EtecPoint_as_point ep = Inr a \<and>
           ebind (EtecPoint_add ep EtecPoint_infinity) EtecPoint_as_point = Inr a))"
proof (intro conjI impI)
  assume "Point_wf p"
  then show "Point_add Point_infinity p = Inr p"
    by (rule Point_add_infinity_left)
next
  show "ProjPoint_add ProjPoint_infinity pp = Inr pp"
    by (rule ProjPoint_add_infinity_left)
  show "EtecPoint_add EtecPoint_infinity ep = Inr ep"
    by (rule EtecPoint_add_infinity_left)
next
  assume h: "Point_wf p \<and> Point_valid p = Inr True"
  then have ov: "Point_over_Q p" by (simp add: wf_over_Q)
  have nz: "\<not> (FQ_n (Point_x p) = 0 \<and> FQ_n (Point_y p) = 0)"
    using h not_on_curve_zero by (auto simp: Point_valid_on_curve[OF ov])
  show "Point_add p Point_infinity = Inr p"
    using h nz by (simp add: Point_add_infinity_right)
next
  assume h: "ProjPoint_wf pp \<and> ProjPoint_valid pp = Inr True"
    and ne: "pp \<noteq> ProjPoint_infinity"
  from h have wf: "ProjPoint_wf pp" by simp
  have ni: "\<not> (FQ_n (ProjPoint_x pp) = 0 \<and> FQ_n (ProjPoint_y pp) = 1 \<and>
              FQ_n (ProjPoint_z pp) = 1)"
    using ProjPoint_is_infinity[OF wf] ne by blast
  show "ProjPoint_add pp ProjPoint_infinity =
           (let x = FQ_n (ProjPoint_x pp); y = FQ_n (ProjPoint_y pp); z = FQ_n (ProjPoint_z pp)
            in Inr (ProjPoint (FQ_default (z * z * z * x)) (FQ_default (z * z * z * y))
                              (FQ_default (z * z * z * z))))"
    by (rule ProjPoint_add_infinity_right_tuple[OF wf_over_Q(2)[OF wf] ni])
next
  assume h: "ProjPoint_wf pp \<and> ProjPoint_valid pp = Inr True"
  from ProjPoint_add_infinity_right_affine[of pp] h obtain s a where
    "ProjPoint_add pp ProjPoint_infinity = Inr s" "ProjPoint_as_point s = Inr a"
    "ProjPoint_as_point pp = Inr a" by auto
  then show "\<exists>a. ProjPoint_as_point pp = Inr a \<and>
           ebind (ProjPoint_add pp ProjPoint_infinity) ProjPoint_as_point = Inr a"
    by simp
next
  assume h: "EtecPoint_wf ep \<and> EtecPoint_valid ep = Inr True"
    and ne: "ep \<noteq> EtecPoint_infinity"
  from h have wf: "EtecPoint_wf ep" and v: "EtecPoint_valid ep = Inr True" by simp_all
  have ni: "\<not> (FQ_n (EtecPoint_x ep) = 0 \<and> FQ_n (EtecPoint_y ep) = 1 \<and>
              FQ_n (EtecPoint_t ep) = 0 \<and> FQ_n (EtecPoint_z ep) = 1)"
    using EtecPoint_is_infinity[OF wf] ne by blast
  show "EtecPoint_add ep EtecPoint_infinity =
           (let x = FQ_n (EtecPoint_x ep); y = FQ_n (EtecPoint_y ep); z = FQ_n (EtecPoint_z ep)
            in Inr (EtecPoint (FQ_default (x * z)) (FQ_default (z * y))
                              (FQ_default (x * y)) (FQ_default (z * z))))"
    by (rule EtecPoint_add_infinity_right_tuple[OF wf_over_Q(3)[OF wf] ni
          EtecPoint_valid_unit(2)[OF wf v]])
next
  assume h: "EtecPoint_wf ep \<and> EtecPoint_valid ep = Inr True"
  from EtecPoint_add_infinity_right_affine[of ep] h obtain s a where
    "EtecPoint_add ep EtecPoint_infinity = Inr s" "EtecPoint_as_point s = Inr a"
    "EtecPoint_as_point ep = Inr a" by auto
  then show "\<exists>a. EtecPoint_as_point ep = Inr a \<and>
           ebind (EtecPoint_add ep EtecPoint_infinity) EtecPoint_as_point = Inr a"
    by simp
qed

text \<open>
  Claim C3, witness: the affine point \<open>(0, -1)\<close>, the projective point \<open>(0, 2, 2)\<close> and
  the extended point \<open>(0, 2, 0, 2)\<close>.
\<close>

theorem identity_laws_witness:
  "Point_wf (Point (FQ_default 0) (FQ_default (- 1))) \<and>
   Point_valid (Point (FQ_default 0) (FQ_default (- 1))) = Inr True \<and>
   Point_add Point_infinity (Point (FQ_default 0) (FQ_default (- 1)))
     = Inr (Point (FQ_default 0) (FQ_default (- 1))) \<and>
   Point_add (Point (FQ_default 0) (FQ_default (- 1))) Point_infinity
     = Inr (Point (FQ_default 0) (FQ_default (- 1))) \<and>
   ProjPoint_wf (ProjPoint (FQ_default 0) (FQ_default 2) (FQ_default 2)) \<and>
   ProjPoint_valid (ProjPoint (FQ_default 0) (FQ_default 2) (FQ_default 2)) = Inr True \<and>
   ProjPoint (FQ_default 0) (FQ_default 2) (FQ_default 2) \<noteq> ProjPoint_infinity \<and>
   ProjPoint_add ProjPoint_infinity (ProjPoint (FQ_default 0) (FQ_default 2) (FQ_default 2))
     = Inr (ProjPoint (FQ_default 0) (FQ_default 2) (FQ_default 2)) \<and>
   ProjPoint_add (ProjPoint (FQ_default 0) (FQ_default 2) (FQ_default 2)) ProjPoint_infinity
     = Inr (ProjPoint (FQ_default 0) (FQ_default 16) (FQ_default 16)) \<and>
   ProjPoint_as_point (ProjPoint (FQ_default 0) (FQ_default 2) (FQ_default 2))
     = Inr Point_infinity \<and>
   ebind (ProjPoint_add (ProjPoint (FQ_default 0) (FQ_default 2) (FQ_default 2))
            ProjPoint_infinity) ProjPoint_as_point
     = Inr Point_infinity \<and>
   EtecPoint_wf (EtecPoint (FQ_default 0) (FQ_default 2) (FQ_default 0) (FQ_default 2)) \<and>
   EtecPoint_valid (EtecPoint (FQ_default 0) (FQ_default 2) (FQ_default 0) (FQ_default 2))
     = Inr True \<and>
   EtecPoint (FQ_default 0) (FQ_default 2) (FQ_default 0) (FQ_default 2)
     \<noteq> EtecPoint_infinity \<and>
   EtecPoint_add EtecPoint_infinity
       (EtecPoint (FQ_default 0) (FQ_default 2) (FQ_default 0) (FQ_default 2))
     = Inr (EtecPoint (FQ_default 0) (FQ_default 2) (FQ_default 0) (FQ_default 2)) \<and>
   EtecPoint_add (EtecPoint (FQ_default 0) (FQ_default 2) (FQ_default 0) (FQ_default 2))
       EtecPoint_infinity
     = Inr (EtecPoint (FQ_default 0) (FQ_default 4) (FQ_default 0) (FQ_default 4)) \<and>
   EtecPoint_as_point (EtecPoint (FQ_default 0) (FQ_default 2) (FQ_default 0) (FQ_default 2))
     = Inr Point_infinity \<and>
   ebind (EtecPoint_add (EtecPoint (FQ_default 0) (FQ_default 2) (FQ_default 0) (FQ_default 2))
            EtecPoint_infinity) EtecPoint_as_point
     = Inr Point_infinity"
proof -
  let ?p = "Point (FQ_default 0) (FQ_default (- 1))"
  let ?pp = "ProjPoint (FQ_default 0) (FQ_default 2) (FQ_default 2)"
  let ?ep = "EtecPoint (FQ_default 0) (FQ_default 2) (FQ_default 0) (FQ_default 2)"
  have wf: "Point_wf ?p" "ProjPoint_wf ?pp" "EtecPoint_wf ?ep"
    by (simp_all add: Point_wf_def ProjPoint_wf_def EtecPoint_wf_def)
  have ne: "?pp \<noteq> ProjPoint_infinity" "?ep \<noteq> EtecPoint_infinity"
    by (simp_all add: ProjPoint_infinity_def EtecPoint_infinity_def FQ_default_eq_iff
        small_mod_Q)
  note v = Point_valid_identity_like(2) ProjPoint_022_valid EtecPoint_0202_valid
  have ap: "ProjPoint_as_point ?pp = Inr Point_infinity"
    and ae: "EtecPoint_as_point ?ep = Inr Point_infinity"
    unfolding Point_infinity_def by (rule ProjPoint_022_as_point EtecPoint_0202_as_point)+
  have hA: "Point_wf ?p \<and> Point_valid ?p = Inr True" using wf(1) v(1) by (rule conjI)
  have hP: "ProjPoint_wf ?pp \<and> ProjPoint_valid ?pp = Inr True" using wf(2) v(2) by (rule conjI)
  have hE: "EtecPoint_wf ?ep \<and> EtecPoint_valid ?ep = Inr True" using wf(3) v(3) by (rule conjI)
  note t = identity_laws[of ?p ?pp ?ep]
  note t1 = mp[OF t[THEN conjunct1] wf(1)]
  note t2 = t[THEN conjunct2, THEN conjunct1]
  note t3 = t[THEN conjunct2, THEN conjunct2, THEN conjunct1]
  note t4 = mp[OF t[THEN conjunct2, THEN conjunct2, THEN conjunct2, THEN conjunct1] hA]
  note t5 = mp[OF t[THEN conjunct2, THEN conjunct2, THEN conjunct2, THEN conjunct2,
                    THEN conjunct1] hP]
  note t6 = mp[OF t[THEN conjunct2, THEN conjunct2, THEN conjunct2, THEN conjunct2,
                    THEN conjunct2] hE]
  have t5a: "ProjPoint_add ?pp ProjPoint_infinity
      = Inr (ProjPoint (FQ_default 0) (FQ_default 16) (FQ_default 16))"
    using mp[OF t5[THEN conjunct1] ne(1)] by (simp add: Let_def small_mod_Q)
  have t6a: "EtecPoint_add ?ep EtecPoint_infinity
      = Inr (EtecPoint (FQ_default 0) (FQ_default 4) (FQ_default 0) (FQ_default 4))"
    using mp[OF t6[THEN conjunct1] ne(2)] by (simp add: Let_def small_mod_Q)
  from t5[THEN conjunct2] obtain a where
    "ProjPoint_as_point ?pp = Inr a"
    and t5b': "ebind (ProjPoint_add ?pp ProjPoint_infinity) ProjPoint_as_point = Inr a"
    by (elim exE conjE)
  then have "a = Point_infinity" unfolding ap by simp
  note t5b = t5b'[unfolded this]
  from t6[THEN conjunct2] obtain b where
    "EtecPoint_as_point ?ep = Inr b"
    and t6b': "ebind (EtecPoint_add ?ep EtecPoint_infinity) EtecPoint_as_point = Inr b"
    by (elim exE conjE)
  then have "b = Point_infinity" unfolding ae by simp
  note t6b = t6b'[unfolded this]
  show ?thesis
    by (intro conjI wf v ne t1 t2 t3 t4 t5a t5b t6a t6b ap ae)
qed

subsection \<open>C1: doubling and adding a point to itself\<close>

text \<open>
  Claim C1, counterexample. The extended point \<open>(0, 2, 0, 2)\<close> and the projective point
  \<open>(0, 2, 2)\<close> are valid (each is the identity in another scaling). \<open>double\<close> returns
  \<open>(0, -16, 0, -16)\<close> and \<open>(0, -16, -16)\<close>, \<open>add(p, p)\<close> returns \<open>(0, 16, 0, 16)\<close> and
  \<open>(0, 256, 256)\<close>, and \<open>==\<close> on the two tuples is false. The extended point
  \<open>(0, 1, 1, 1)\<close> is valid as well, since \<open>valid\<close> does not read \<open>T\<close>; \<open>add\<close> reads
  \<open>T\<close> and \<open>double\<close> does not, and here the two results are different affine points.
\<close>

theorem double_add_tuples_differ:
  "EtecPoint_valid (EtecPoint (FQ_default 0) (FQ_default 2) (FQ_default 0) (FQ_default 2))
     = Inr True \<and>
   EtecPoint_double (EtecPoint (FQ_default 0) (FQ_default 2) (FQ_default 0) (FQ_default 2))
     = Inr (EtecPoint (FQ_default 0) (FQ_default (- 16)) (FQ_default 0) (FQ_default (- 16))) \<and>
   EtecPoint_add (EtecPoint (FQ_default 0) (FQ_default 2) (FQ_default 0) (FQ_default 2))
                 (EtecPoint (FQ_default 0) (FQ_default 2) (FQ_default 0) (FQ_default 2))
     = Inr (EtecPoint (FQ_default 0) (FQ_default 16) (FQ_default 0) (FQ_default 16)) \<and>
   EtecPoint_eq (EtecPoint (FQ_default 0) (FQ_default (- 16)) (FQ_default 0) (FQ_default (- 16)))
                (EtecPoint (FQ_default 0) (FQ_default 16) (FQ_default 0) (FQ_default 16))
     = Inr False \<and>
   ProjPoint_valid (ProjPoint (FQ_default 0) (FQ_default 2) (FQ_default 2)) = Inr True \<and>
   ProjPoint_double (ProjPoint (FQ_default 0) (FQ_default 2) (FQ_default 2))
     = Inr (ProjPoint (FQ_default 0) (FQ_default (- 16)) (FQ_default (- 16))) \<and>
   ProjPoint_add (ProjPoint (FQ_default 0) (FQ_default 2) (FQ_default 2))
                 (ProjPoint (FQ_default 0) (FQ_default 2) (FQ_default 2))
     = Inr (ProjPoint (FQ_default 0) (FQ_default 256) (FQ_default 256)) \<and>
   ProjPoint_eq (ProjPoint (FQ_default 0) (FQ_default (- 16)) (FQ_default (- 16)))
                (ProjPoint (FQ_default 0) (FQ_default 256) (FQ_default 256))
     = Inr False \<and>
   EtecPoint_valid (EtecPoint (FQ_default 0) (FQ_default 1) (FQ_default 1) (FQ_default 1))
     = Inr True \<and>
   ebind (EtecPoint_double (EtecPoint (FQ_default 0) (FQ_default 1) (FQ_default 1) (FQ_default 1)))
         EtecPoint_as_point
     = Inr (Point (FQ_default 0) (FQ_default 1)) \<and>
   ebind (EtecPoint_add (EtecPoint (FQ_default 0) (FQ_default 1) (FQ_default 1) (FQ_default 1))
                        (EtecPoint (FQ_default 0) (FQ_default 1) (FQ_default 1) (FQ_default 1)))
         EtecPoint_as_point
     = Inr (Point (FQ_default 0)
              (FQ_default 10963648870355820135329303136801619671194520851870856101092568584470687727927)) \<and>
   Point_eq (Point (FQ_default 0) (FQ_default 1))
            (Point (FQ_default 0)
              (FQ_default 10963648870355820135329303136801619671194520851870856101092568584470687727927))
     = Inr False"
proof -
  have n1: "(- 16) mod SNARK_SCALAR_FIELD \<noteq> 16 mod SNARK_SCALAR_FIELD"
    by (rule mod_Q_neq) (simp_all add: SNARK_SCALAR_FIELD_def)
  have n2: "(- 16) mod SNARK_SCALAR_FIELD \<noteq> 256 mod SNARK_SCALAR_FIELD"
    by (rule mod_Q_neq) (simp_all add: SNARK_SCALAR_FIELD_def)
  have n3: "1 mod SNARK_SCALAR_FIELD \<noteq>
      10963648870355820135329303136801619671194520851870856101092568584470687727927
        mod SNARK_SCALAR_FIELD"
    by (rule mod_Q_neq) (simp_all add: SNARK_SCALAR_FIELD_def)
  have e1: "EtecPoint_eq
      (EtecPoint (FQ_default 0) (FQ_default (- 16)) (FQ_default 0) (FQ_default (- 16)))
      (EtecPoint (FQ_default 0) (FQ_default 16) (FQ_default 0) (FQ_default 16)) = Inr False"
    using n1 by (simp add: EtecPoint_eq_def FQ_eq_default)
  have e2: "ProjPoint_eq (ProjPoint (FQ_default 0) (FQ_default (- 16)) (FQ_default (- 16)))
      (ProjPoint (FQ_default 0) (FQ_default 256) (FQ_default 256)) = Inr False"
    using n2 by (simp add: ProjPoint_eq_def FQ_eq_default)
  have e3: "Point_eq (Point (FQ_default 0) (FQ_default 1))
            (Point (FQ_default 0)
              (FQ_default 10963648870355820135329303136801619671194520851870856101092568584470687727927))
     = Inr False"
    using n3 by (simp add: Point_eq_def FQ_eq_default)
  have a1: "ebind (EtecPoint_double
        (EtecPoint (FQ_default 0) (FQ_default 1) (FQ_default 1) (FQ_default 1)))
         EtecPoint_as_point = Inr (Point (FQ_default 0) (FQ_default 1))"
    by (simp only: EtecPoint_0111_double ebind_Inr EtecPoint_m1_as_point)
  have a2: "ebind (EtecPoint_add
        (EtecPoint (FQ_default 0) (FQ_default 1) (FQ_default 1) (FQ_default 1))
        (EtecPoint (FQ_default 0) (FQ_default 1) (FQ_default 1) (FQ_default 1)))
         EtecPoint_as_point
     = Inr (Point (FQ_default 0)
              (FQ_default 10963648870355820135329303136801619671194520851870856101092568584470687727927))"
    by (simp only: EtecPoint_0111_add ebind_Inr EtecPoint_0111_add_as_point)
  show ?thesis
    by (intro conjI EtecPoint_0202_valid EtecPoint_0202_double EtecPoint_0202_add e1
        ProjPoint_022_valid ProjPoint_022_double ProjPoint_022_add e2
        EtecPoint_0111_valid a1 a2 e3)
qed

text \<open>
  Claim C1, as amended. For every valid extended point \<open>p = (X, Y, T, Z)\<close> with
  \<open>T Z = X Y\<close> in the field, and for every valid projective point \<open>p = (X, Y, Z)\<close>,
  \<open>p.double()\<close> and \<open>p.add(p)\<close> both return a point. For the tuple of the identity they
  return the same tuple. For every other \<open>p\<close> the coordinates of \<open>p.add(p)\<close> are those of
  \<open>p.double()\<close> multiplied by \<open>-1\<close> in extended coordinates, and by \<open>-Z^4\<close> in
  projective coordinates. If the \<open>Z\<close> of the double is zero or invertible in the field,
  \<open>as_point\<close> does the same on the double and on the sum: it returns the same affine
  point, or raises the same error (in projective coordinates, when that \<open>Z\<close> is zero).
\<close>

theorem double_add_same_point:
  "(EtecPoint_wf ep \<and> EtecPoint_valid ep = Inr True \<and>
    (FQ_n (EtecPoint_t ep) * FQ_n (EtecPoint_z ep)) mod SNARK_SCALAR_FIELD
      = (FQ_n (EtecPoint_x ep) * FQ_n (EtecPoint_y ep)) mod SNARK_SCALAR_FIELD \<longrightarrow>
    (\<exists>d s. EtecPoint_double ep = Inr d \<and> EtecPoint_add ep ep = Inr s \<and>
           (ep = EtecPoint_infinity \<longrightarrow> d = s) \<and>
           (ep \<noteq> EtecPoint_infinity \<longrightarrow> EtecPoint_scale (FQ_default (- 1)) d = Inr s) \<and>
           (zero_or_unit (EtecPoint_z d) \<longrightarrow> EtecPoint_as_point d = EtecPoint_as_point s))) \<and>
   (ProjPoint_wf pp \<and> ProjPoint_valid pp = Inr True \<longrightarrow>
    (\<exists>d s. ProjPoint_double pp = Inr d \<and> ProjPoint_add pp pp = Inr s \<and>
           (pp = ProjPoint_infinity \<longrightarrow> d = s) \<and>
           (pp \<noteq> ProjPoint_infinity \<longrightarrow>
              ProjPoint_scale (FQ_default (- (FQ_n (ProjPoint_z pp) * FQ_n (ProjPoint_z pp)
                      * FQ_n (ProjPoint_z pp) * FQ_n (ProjPoint_z pp)))) d = Inr s) \<and>
           (zero_or_unit (ProjPoint_z d) \<longrightarrow> ProjPoint_as_point d = ProjPoint_as_point s)))"
proof (intro conjI impI)
  assume h: "EtecPoint_wf ep \<and> EtecPoint_valid ep = Inr True \<and>
    (FQ_n (EtecPoint_t ep) * FQ_n (EtecPoint_z ep)) mod SNARK_SCALAR_FIELD
      = (FQ_n (EtecPoint_x ep) * FQ_n (EtecPoint_y ep)) mod SNARK_SCALAR_FIELD"
  show "\<exists>d s. EtecPoint_double ep = Inr d \<and> EtecPoint_add ep ep = Inr s \<and>
           (ep = EtecPoint_infinity \<longrightarrow> d = s) \<and>
           (ep \<noteq> EtecPoint_infinity \<longrightarrow> EtecPoint_scale (FQ_default (- 1)) d = Inr s) \<and>
           (zero_or_unit (EtecPoint_z d) \<longrightarrow> EtecPoint_as_point d = EtecPoint_as_point s)"
  proof (cases "ep = EtecPoint_infinity")
    case True
    show ?thesis
      unfolding True
      by (rule exI[of _ EtecPoint_infinity], rule exI[of _ EtecPoint_infinity])
         (simp add: EtecPoint_double_infinity EtecPoint_add_infinity_left)
  next
    case False
    from h have wf: "EtecPoint_wf ep" and v: "EtecPoint_valid ep = Inr True"
      and tz: "(FQ_n (EtecPoint_t ep) * FQ_n (EtecPoint_z ep)) mod SNARK_SCALAR_FIELD
        = (FQ_n (EtecPoint_x ep) * FQ_n (EtecPoint_y ep)) mod SNARK_SCALAR_FIELD"
      by simp_all
    from EtecPoint_double_add[OF wf v tz False] obtain d s where
      "EtecPoint_double ep = Inr d" "EtecPoint_add ep ep = Inr s"
      "EtecPoint_scale (FQ_default (- 1)) d = Inr s"
      "zero_or_unit (EtecPoint_z d) \<longrightarrow> EtecPoint_as_point d = EtecPoint_as_point s"
      by (elim exE conjE)
    with False show ?thesis
      by (intro exI[of _ d] exI[of _ s] conjI impI) simp_all
  qed
next
  assume h: "ProjPoint_wf pp \<and> ProjPoint_valid pp = Inr True"
  let ?c = "FQ_default (- (FQ_n (ProjPoint_z pp) * FQ_n (ProjPoint_z pp)
                      * FQ_n (ProjPoint_z pp) * FQ_n (ProjPoint_z pp)))"
  show "\<exists>d s. ProjPoint_double pp = Inr d \<and> ProjPoint_add pp pp = Inr s \<and>
           (pp = ProjPoint_infinity \<longrightarrow> d = s) \<and>
           (pp \<noteq> ProjPoint_infinity \<longrightarrow> ProjPoint_scale ?c d = Inr s) \<and>
           (zero_or_unit (ProjPoint_z d) \<longrightarrow> ProjPoint_as_point d = ProjPoint_as_point s)"
  proof (cases "pp = ProjPoint_infinity")
    case True
    have "ProjPoint_double pp = Inr ProjPoint_infinity" "ProjPoint_add pp pp = Inr ProjPoint_infinity"
      unfolding True by (rule ProjPoint_double_infinity ProjPoint_add_infinity_left)+
    with True show ?thesis
      by (intro exI[of _ ProjPoint_infinity] conjI impI) simp_all
  next
    case False
    from h have wf: "ProjPoint_wf pp" and v: "ProjPoint_valid pp = Inr True" by simp_all
    from ProjPoint_double_add[OF wf v False] obtain d s where
      "ProjPoint_double pp = Inr d" "ProjPoint_add pp pp = Inr s"
      "ProjPoint_scale ?c d = Inr s"
      "zero_or_unit (ProjPoint_z d) \<longrightarrow> ProjPoint_as_point d = ProjPoint_as_point s"
      by (elim exE conjE)
    with False show ?thesis
      by (intro exI[of _ d] exI[of _ s] conjI impI) simp_all
  qed
qed

text \<open>
  Claim C1, witness: the identity of each representation, where the two tuples are equal,
  and the identity in the scaling \<open>2\<close>, where the tuples differ by the factor and both
  convert to the affine identity.
\<close>

theorem double_add_same_point_witness:
  "EtecPoint_wf EtecPoint_infinity \<and> EtecPoint_valid EtecPoint_infinity = Inr True \<and>
   (FQ_n (EtecPoint_t EtecPoint_infinity) * FQ_n (EtecPoint_z EtecPoint_infinity))
       mod SNARK_SCALAR_FIELD
     = (FQ_n (EtecPoint_x EtecPoint_infinity) * FQ_n (EtecPoint_y EtecPoint_infinity))
       mod SNARK_SCALAR_FIELD \<and>
   EtecPoint_double EtecPoint_infinity = EtecPoint_add EtecPoint_infinity EtecPoint_infinity \<and>
   ProjPoint_wf ProjPoint_infinity \<and> ProjPoint_valid ProjPoint_infinity = Inr True \<and>
   ProjPoint_double ProjPoint_infinity = ProjPoint_add ProjPoint_infinity ProjPoint_infinity \<and>
   EtecPoint_wf (EtecPoint (FQ_default 0) (FQ_default 2) (FQ_default 0) (FQ_default 2)) \<and>
   EtecPoint_valid (EtecPoint (FQ_default 0) (FQ_default 2) (FQ_default 0) (FQ_default 2))
     = Inr True \<and>
   (FQ_n (EtecPoint_t (EtecPoint (FQ_default 0) (FQ_default 2) (FQ_default 0) (FQ_default 2)))
      * FQ_n (EtecPoint_z (EtecPoint (FQ_default 0) (FQ_default 2) (FQ_default 0) (FQ_default 2))))
       mod SNARK_SCALAR_FIELD
     = (FQ_n (EtecPoint_x (EtecPoint (FQ_default 0) (FQ_default 2) (FQ_default 0) (FQ_default 2)))
      * FQ_n (EtecPoint_y (EtecPoint (FQ_default 0) (FQ_default 2) (FQ_default 0) (FQ_default 2))))
       mod SNARK_SCALAR_FIELD \<and>
   EtecPoint (FQ_default 0) (FQ_default 2) (FQ_default 0) (FQ_default 2) \<noteq> EtecPoint_infinity \<and>
   EtecPoint_double (EtecPoint (FQ_default 0) (FQ_default 2) (FQ_default 0) (FQ_default 2))
     = Inr (EtecPoint (FQ_default 0) (FQ_default (- 16)) (FQ_default 0) (FQ_default (- 16))) \<and>
   EtecPoint_add (EtecPoint (FQ_default 0) (FQ_default 2) (FQ_default 0) (FQ_default 2))
                 (EtecPoint (FQ_default 0) (FQ_default 2) (FQ_default 0) (FQ_default 2))
     = Inr (EtecPoint (FQ_default 0) (FQ_default 16) (FQ_default 0) (FQ_default 16)) \<and>
   EtecPoint_scale (FQ_default (- 1))
       (EtecPoint (FQ_default 0) (FQ_default (- 16)) (FQ_default 0) (FQ_default (- 16)))
     = Inr (EtecPoint (FQ_default 0) (FQ_default 16) (FQ_default 0) (FQ_default 16)) \<and>
   zero_or_unit (EtecPoint_z
       (EtecPoint (FQ_default 0) (FQ_default (- 16)) (FQ_default 0) (FQ_default (- 16)))) \<and>
   EtecPoint_as_point
       (EtecPoint (FQ_default 0) (FQ_default (- 16)) (FQ_default 0) (FQ_default (- 16)))
     = Inr Point_infinity \<and>
   EtecPoint_as_point (EtecPoint (FQ_default 0) (FQ_default 16) (FQ_default 0) (FQ_default 16))
     = Inr Point_infinity \<and>
   ProjPoint_wf (ProjPoint (FQ_default 0) (FQ_default 2) (FQ_default 2)) \<and>
   ProjPoint_valid (ProjPoint (FQ_default 0) (FQ_default 2) (FQ_default 2)) = Inr True \<and>
   ProjPoint (FQ_default 0) (FQ_default 2) (FQ_default 2) \<noteq> ProjPoint_infinity \<and>
   ProjPoint_double (ProjPoint (FQ_default 0) (FQ_default 2) (FQ_default 2))
     = Inr (ProjPoint (FQ_default 0) (FQ_default (- 16)) (FQ_default (- 16))) \<and>
   ProjPoint_add (ProjPoint (FQ_default 0) (FQ_default 2) (FQ_default 2))
                 (ProjPoint (FQ_default 0) (FQ_default 2) (FQ_default 2))
     = Inr (ProjPoint (FQ_default 0) (FQ_default 256) (FQ_default 256)) \<and>
   ProjPoint_scale (FQ_default (- 16))
       (ProjPoint (FQ_default 0) (FQ_default (- 16)) (FQ_default (- 16)))
     = Inr (ProjPoint (FQ_default 0) (FQ_default 256) (FQ_default 256)) \<and>
   zero_or_unit (ProjPoint_z (ProjPoint (FQ_default 0) (FQ_default (- 16)) (FQ_default (- 16)))) \<and>
   ProjPoint_as_point (ProjPoint (FQ_default 0) (FQ_default (- 16)) (FQ_default (- 16)))
     = Inr Point_infinity \<and>
   ProjPoint_as_point (ProjPoint (FQ_default 0) (FQ_default 256) (FQ_default 256))
     = Inr Point_infinity"
proof -
  let ?E = "EtecPoint (FQ_default 0) (FQ_default 2) (FQ_default 0) (FQ_default 2)"
  let ?D = "EtecPoint (FQ_default 0) (FQ_default (- 16)) (FQ_default 0) (FQ_default (- 16))"
  let ?S = "EtecPoint (FQ_default 0) (FQ_default 16) (FQ_default 0) (FQ_default 16)"
  let ?P = "ProjPoint (FQ_default 0) (FQ_default 2) (FQ_default 2)"
  let ?PD = "ProjPoint (FQ_default 0) (FQ_default (- 16)) (FQ_default (- 16))"
  let ?PS = "ProjPoint (FQ_default 0) (FQ_default 256) (FQ_default 256)"
  let ?q = SNARK_SCALAR_FIELD
  have wfI: "EtecPoint_wf EtecPoint_infinity" "ProjPoint_wf ProjPoint_infinity"
    by (simp_all add: EtecPoint_wf_def ProjPoint_wf_def EtecPoint_infinity_def
        ProjPoint_infinity_def)
  have tI: "(FQ_n (EtecPoint_t EtecPoint_infinity) * FQ_n (EtecPoint_z EtecPoint_infinity)) mod ?q
     = (FQ_n (EtecPoint_x EtecPoint_infinity) * FQ_n (EtecPoint_y EtecPoint_infinity)) mod ?q"
    by (simp add: EtecPoint_infinity_def)
  have hI: "EtecPoint_wf EtecPoint_infinity \<and> EtecPoint_valid EtecPoint_infinity = Inr True \<and>
    (FQ_n (EtecPoint_t EtecPoint_infinity) * FQ_n (EtecPoint_z EtecPoint_infinity)) mod ?q
     = (FQ_n (EtecPoint_x EtecPoint_infinity) * FQ_n (EtecPoint_y EtecPoint_infinity)) mod ?q"
    by (intro conjI wfI EtecPoint_infinity_valid tI)
  have hI': "ProjPoint_wf ProjPoint_infinity \<and> ProjPoint_valid ProjPoint_infinity = Inr True"
    by (intro conjI wfI ProjPoint_infinity_valid)
  note tA = double_add_same_point[of EtecPoint_infinity ProjPoint_infinity]
  from mp[OF tA[THEN conjunct1] hI] obtain d s where
    "EtecPoint_double EtecPoint_infinity = Inr d"
    "EtecPoint_add EtecPoint_infinity EtecPoint_infinity = Inr s"
    "EtecPoint_infinity = EtecPoint_infinity \<longrightarrow> d = s"
    by (elim exE conjE)
  then have iE: "EtecPoint_double EtecPoint_infinity
      = EtecPoint_add EtecPoint_infinity EtecPoint_infinity"
    by simp
  from mp[OF tA[THEN conjunct2] hI'] obtain d' s' where
    "ProjPoint_double ProjPoint_infinity = Inr d'"
    "ProjPoint_add ProjPoint_infinity ProjPoint_infinity = Inr s'"
    "ProjPoint_infinity = ProjPoint_infinity \<longrightarrow> d' = s'"
    by (elim exE conjE)
  then have iP: "ProjPoint_double ProjPoint_infinity
      = ProjPoint_add ProjPoint_infinity ProjPoint_infinity"
    by simp
  have wf: "EtecPoint_wf ?E" "ProjPoint_wf ?P"
    by (simp_all add: EtecPoint_wf_def ProjPoint_wf_def)
  have ne: "?E \<noteq> EtecPoint_infinity" "?P \<noteq> ProjPoint_infinity"
    by (simp_all add: ProjPoint_infinity_def EtecPoint_infinity_def FQ_default_eq_iff
        small_mod_Q)
  have tE: "(FQ_n (EtecPoint_t ?E) * FQ_n (EtecPoint_z ?E)) mod ?q
     = (FQ_n (EtecPoint_x ?E) * FQ_n (EtecPoint_y ?E)) mod ?q"
    by simp
  have hE: "EtecPoint_wf ?E \<and> EtecPoint_valid ?E = Inr True \<and>
    (FQ_n (EtecPoint_t ?E) * FQ_n (EtecPoint_z ?E)) mod ?q
     = (FQ_n (EtecPoint_x ?E) * FQ_n (EtecPoint_y ?E)) mod ?q"
    by (intro conjI wf EtecPoint_0202_valid tE)
  have hP: "ProjPoint_wf ?P \<and> ProjPoint_valid ?P = Inr True"
    by (intro conjI wf ProjPoint_022_valid)
  have zuE: "zero_or_unit (EtecPoint_z ?D)" and zuP: "zero_or_unit (ProjPoint_z ?PD)"
    using unit_m16 by (simp_all add: zero_or_unit_def coprime_mod_left_iff)
  have apD: "EtecPoint_as_point ?D = Inr Point_infinity"
    and apPD: "ProjPoint_as_point ?PD = Inr Point_infinity"
    unfolding Point_infinity_def by (rule EtecPoint_m16_as_point ProjPoint_m16_as_point)+
  note tB = double_add_same_point[of ?E ?P]
  from mp[OF tB[THEN conjunct1] hE] obtain d s where
    d: "EtecPoint_double ?E = Inr d" and s: "EtecPoint_add ?E ?E = Inr s"
    and sc: "?E \<noteq> EtecPoint_infinity \<longrightarrow> EtecPoint_scale (FQ_default (- 1)) d = Inr s"
    and ap: "zero_or_unit (EtecPoint_z d) \<longrightarrow> EtecPoint_as_point d = EtecPoint_as_point s"
    by (elim exE conjE)
  have d': "d = ?D" using d unfolding EtecPoint_0202_double by simp
  have s': "s = ?S" using s unfolding EtecPoint_0202_add by simp
  have scE: "EtecPoint_scale (FQ_default (- 1)) ?D = Inr ?S"
    using sc ne(1) unfolding d' s' by (rule mp)
  have apS: "EtecPoint_as_point ?S = Inr Point_infinity"
    using mp[OF ap[unfolded d' s'] zuE] apD by simp
  from mp[OF tB[THEN conjunct2] hP] obtain pd ps where
    pd: "ProjPoint_double ?P = Inr pd" and ps: "ProjPoint_add ?P ?P = Inr ps"
    and psc: "?P \<noteq> ProjPoint_infinity \<longrightarrow>
        ProjPoint_scale (FQ_default (- (FQ_n (ProjPoint_z ?P) * FQ_n (ProjPoint_z ?P)
                      * FQ_n (ProjPoint_z ?P) * FQ_n (ProjPoint_z ?P)))) pd = Inr ps"
    and pap: "zero_or_unit (ProjPoint_z pd) \<longrightarrow> ProjPoint_as_point pd = ProjPoint_as_point ps"
    by (elim exE conjE)
  have pd': "pd = ?PD" using pd unfolding ProjPoint_022_double by simp
  have ps': "ps = ?PS" using ps unfolding ProjPoint_022_add by simp
  have scP: "ProjPoint_scale (FQ_default (- 16)) ?PD = Inr ?PS"
    using mp[OF psc ne(2)] unfolding pd' ps' by (simp add: small_mod_Q)
  have apPS: "ProjPoint_as_point ?PS = Inr Point_infinity"
    using mp[OF pap[unfolded pd' ps'] zuP] apPD by simp
  show ?thesis
    by (intro conjI wfI EtecPoint_infinity_valid ProjPoint_infinity_valid tI iE iP
        wf EtecPoint_0202_valid ProjPoint_022_valid tE ne
        EtecPoint_0202_double EtecPoint_0202_add scE zuE apD apS
        ProjPoint_022_double ProjPoint_022_add scP zuP apPD apPS)
qed

end
